(* ===== verification/Go_Prelude.thy ===== *)
theory Go_Prelude
  imports Main "HOL-Library.Word" "HOL-Library.Monad_Syntax"
begin

unbundle bit_operations_syntax

text \<open>
  The part of Go that the BACnet/IP client is written in, shared by every theory of the
  development.

  \<^item> Fixed-width integers are words; a conversion \<open>byte(x)\<close>, \<open>uint16(x)\<close> is \<open>ucast\<close>
    (or \<open>word_of_int\<close> from an \<open>int\<close>), so truncation is what Go does.
  \<^item> Go's \<open>int\<close> is \<open>int\<close>. It is 64 bits wide on the supported platforms and every \<open>int\<close> of the
    modelled code is a sum of packet lengths and of wire lengths below \<open>2 ^ 32\<close>, so it cannot
    overflow there.
  \<^item> A run-time panic is the value \<open>None\<close> of the type \<open>'a go\<close>. Indexing and slicing go through
    \<open>idx\<close> and \<open>slice\<close>, which panic exactly when the bounds are wrong; a theorem that a function
    never panics is a theorem that its result is \<open>Some\<close>. (Go allows the upper bound of a slice
    expression to reach the capacity. The model uses the length, which is at most the capacity:
    where the model does not panic, neither does Go, and the bytes are the same.)
  \<^item> A Go string is a sequence of bytes, as is a HOL \<open>string\<close>.
\<close>

section \<open>Types, panics and results\<close>

type_synonym byte = "8 word"
type_synonym bytes = "byte list"
type_synonym uint8 = "8 word"
type_synonym uint16 = "16 word"
type_synonym uint32 = "32 word"
type_synonym uint64 = "64 word"

type_synonym 'a go = "'a option"

abbreviation (input) panic :: "'a go" where
  "panic \<equiv> None"

abbreviation (input) ret :: "'a \<Rightarrow> 'a go" where
  "ret \<equiv> Some"

text \<open>
  \<open>no_panic\<close> collects the totality facts of the decoders, \<open>go_ops\<close> the defining equations of the
  primitive operations on slices, for evaluation on concrete packets, and \<open>wire_len\<close> the lengths
  of what the encoders write.
\<close>

named_theorems no_panic
named_theorems go_ops
named_theorems wire_len

definition len :: "'a list \<Rightarrow> int" where
  "len xs = int (length xs)"

definition idx :: "'a list \<Rightarrow> int \<Rightarrow> 'a go" where
  "idx xs i = (if 0 \<le> i \<and> i < len xs then ret (xs ! nat i) else panic)"

definition slice :: "'a list \<Rightarrow> int \<Rightarrow> int \<Rightarrow> 'a list go" where
  "slice xs a b =
     (if 0 \<le> a \<and> a \<le> b \<and> b \<le> len xs then ret (take (nat (b - a)) (drop (nat a) xs)) else panic)"

definition slice_from :: "'a list \<Rightarrow> int \<Rightarrow> 'a list go" where
  "slice_from xs a = slice xs a (len xs)"

definition slice_to :: "'a list \<Rightarrow> int \<Rightarrow> 'a list go" where
  "slice_to xs b = slice xs 0 b"

section \<open>Bytes of machine words, most significant byte first\<close>

definition byte_at :: "nat \<Rightarrow> 'a::len word \<Rightarrow> byte" where
  "byte_at k w = ucast (drop_bit k w)"

definition int_byte_at :: "nat \<Rightarrow> int \<Rightarrow> byte" where
  "int_byte_at k i = word_of_int (drop_bit k i)"

definition be16 :: "byte \<Rightarrow> byte \<Rightarrow> uint16" where
  "be16 a b = push_bit 8 (ucast a) OR ucast b"

definition be24 :: "byte \<Rightarrow> byte \<Rightarrow> byte \<Rightarrow> uint32" where
  "be24 a b c = push_bit 16 (ucast a) OR push_bit 8 (ucast b) OR ucast c"

definition be32 :: "byte \<Rightarrow> byte \<Rightarrow> byte \<Rightarrow> byte \<Rightarrow> uint32" where
  "be32 a b c d = push_bit 24 (ucast a) OR push_bit 16 (ucast b) OR push_bit 8 (ucast c) OR ucast d"

definition be64 :: "uint32 \<Rightarrow> uint32 \<Rightarrow> uint64" where
  "be64 h l = push_bit 32 (ucast h) OR ucast l"

text \<open>
  \<open>binary.BigEndian\<close> of the standard library: the readers check the last index first and panic on
  a short slice; the writers are used on freshly made buffers and are given by the bytes they store.
\<close>

definition BigEndian_Uint16 :: "bytes \<Rightarrow> uint16 go" where
  "BigEndian_Uint16 b = do { b1 \<leftarrow> idx b 1; b0 \<leftarrow> idx b 0; ret (be16 b0 b1) }"

definition BigEndian_Uint32 :: "bytes \<Rightarrow> uint32 go" where
  "BigEndian_Uint32 b =
     do { b3 \<leftarrow> idx b 3; b2 \<leftarrow> idx b 2; b1 \<leftarrow> idx b 1; b0 \<leftarrow> idx b 0; ret (be32 b0 b1 b2 b3) }"

definition BigEndian_Uint64 :: "bytes \<Rightarrow> uint64 go" where
  "BigEndian_Uint64 b =
     do { b7 \<leftarrow> idx b 7; b6 \<leftarrow> idx b 6; b5 \<leftarrow> idx b 5; b4 \<leftarrow> idx b 4;
          b3 \<leftarrow> idx b 3; b2 \<leftarrow> idx b 2; b1 \<leftarrow> idx b 1; b0 \<leftarrow> idx b 0;
          ret (be64 (be32 b0 b1 b2 b3) (be32 b4 b5 b6 b7)) }"

definition PutUint16 :: "uint16 \<Rightarrow> bytes" where
  "PutUint16 v = [byte_at 8 v, byte_at 0 v]"

definition PutUint32 :: "uint32 \<Rightarrow> bytes" where
  "PutUint32 v = [byte_at 24 v, byte_at 16 v, byte_at 8 v, byte_at 0 v]"

definition PutUint64 :: "uint64 \<Rightarrow> bytes" where
  "PutUint64 v =
     [byte_at 56 v, byte_at 48 v, byte_at 40 v, byte_at 32 v,
      byte_at 24 v, byte_at 16 v, byte_at 8 v, byte_at 0 v]"

text \<open>A Go string made from bytes, and the bytes of a Go string.\<close>

definition string_of_bytes :: "bytes \<Rightarrow> string" where
  "string_of_bytes bs = map (\<lambda>b. char_of (unat b)) bs"

definition bytes_of_string :: "string \<Rightarrow> bytes" where
  "bytes_of_string s = map (\<lambda>c. word_of_nat (of_char c)) s"

section \<open>Facts about slices\<close>

lemma len_simps [simp]:
  "len [] = 0"
  "len (x # xs) = 1 + len xs"
  "len (xs @ ys) = len xs + len ys"
  "len (take n xs) = min (len xs) (int n)"
  "len (map f xs) = len xs"
  by (auto simp: len_def)

lemma len_list_update [simp]: "len (xs[i := x]) = len xs"
  by (simp add: len_def)

lemma len_nonneg [simp]: "0 \<le> len xs"
  by (simp add: len_def)

lemma len_not_neg [simp]: "\<not> len xs < 0"
  by (simp add: len_def)

lemma add_len_not_neg [simp]: "0 \<le> k \<Longrightarrow> \<not> k + len xs < 0"
  by (simp add: len_def)

lemma pos_add_len [simp]: "0 < k \<Longrightarrow> 0 < k + len xs" "0 < k \<Longrightarrow> k + len xs \<noteq> 0"
  using len_nonneg [of xs] by linarith+

lemma nat_len [simp]: "nat (len xs) = length xs"
  by (simp add: len_def)

lemma len_drop [simp]: "len (drop n xs) = max 0 (len xs - int n)"
  by (auto simp: len_def)

lemma len_pos_iff: "0 < len xs \<longleftrightarrow> xs \<noteq> []"
  by (simp add: len_def)

lemma len_zero_iff: "len xs = 0 \<longleftrightarrow> xs = []"
  by (simp add: len_def)

lemma idx_Some [intro]: "0 \<le> i \<Longrightarrow> i < len xs \<Longrightarrow> idx xs i = ret (xs ! nat i)"
  by (simp add: idx_def)

lemma idx_eq_Some_iff: "idx xs i = ret x \<longleftrightarrow> 0 \<le> i \<and> i < len xs \<and> x = xs ! nat i"
  by (auto simp: idx_def)

lemma idx_Cons_0 [simp]: "idx (x # xs) 0 = ret x"
  by (simp add: idx_def add_pos_nonneg)

lemma idx_Cons_pos [simp]: "0 < i \<Longrightarrow> idx (x # xs) i = idx xs (i - 1)"
  by (auto simp: idx_def nth_Cons' nat_diff_distrib)

lemma idx_append_left: "i < len xs \<Longrightarrow> idx (xs @ ys) i = idx xs i"
  by (auto simp: idx_def nth_append len_def)

lemma idx_append_right: "len xs \<le> i \<Longrightarrow> idx (xs @ ys) i = idx ys (i - len xs)"
  by (auto simp: idx_def nth_append len_def nat_diff_distrib)

lemma slice_Some: "0 \<le> a \<Longrightarrow> a \<le> b \<Longrightarrow> b \<le> len xs \<Longrightarrow>
    slice xs a b = ret (take (nat (b - a)) (drop (nat a) xs))"
  by (simp add: slice_def)

lemma slice_eq_Some_iff: "slice xs a b = ret ys \<longleftrightarrow>
    0 \<le> a \<and> a \<le> b \<and> b \<le> len xs \<and> ys = take (nat (b - a)) (drop (nat a) xs)"
  by (auto simp: slice_def)

lemma slice_len: "slice xs a b = ret ys \<Longrightarrow> len ys = b - a"
  by (auto simp: slice_def len_def split: if_splits)

lemma slice_from_Some: "0 \<le> a \<Longrightarrow> a \<le> len xs \<Longrightarrow> slice_from xs a = ret (drop (nat a) xs)"
  by (simp add: slice_from_def slice_def nat_diff_distrib)

lemma slice_from_eq_Some_iff:
  "slice_from xs a = ret ys \<longleftrightarrow> 0 \<le> a \<and> a \<le> len xs \<and> ys = drop (nat a) xs"
  by (auto simp: slice_from_def slice_def nat_diff_distrib)

lemma slice_to_Some: "0 \<le> b \<Longrightarrow> b \<le> len xs \<Longrightarrow> slice_to xs b = ret (take (nat b) xs)"
  by (simp add: slice_to_def slice_def)

lemma slice_from_0 [simp]: "slice_from xs 0 = ret xs"
  by (simp add: slice_from_Some)

text \<open>Reading what was appended: the suffix after a known prefix, and a known middle part.\<close>

lemma slice_from_append: "a = len xs \<Longrightarrow> slice_from (xs @ ys) a = ret ys"
  by (simp add: slice_from_Some)

lemma slice_append: "a = len xs \<Longrightarrow> b = len xs + len ys \<Longrightarrow> slice (xs @ ys @ zs) a b = ret ys"
  by (simp add: slice_Some)

lemma drop_nat_append: "a = len xs \<Longrightarrow> drop (nat a) (xs @ ys) = ys"
  by simp

lemma nat_add_len: "0 \<le> a \<Longrightarrow> nat (a + len xs) = nat a + length xs"
  by (simp add: nat_add_distrib)

lemmas slice_total = idx_Some slice_Some slice_from_Some slice_to_Some

declare idx_def [go_ops] slice_def [go_ops] slice_from_def [go_ops] slice_to_def [go_ops]

section \<open>Facts about big-endian words\<close>

lemma bit_less_exp:
  fixes w :: "'a::len word"
  assumes "unat w < 2 ^ k" and "bit w n"
  shows "n < k"
proof (rule ccontr)
  assume "\<not> n < k"
  then have "(2::nat) ^ k \<le> 2 ^ n" by simp
  with assms(1) have "unat w < 2 ^ n" by (rule less_le_trans)
  then have "unat w div 2 ^ n = 0" by simp
  moreover from assms(2) have "bit (unat w) n" by (simp add: bit_unsigned_iff)
  ultimately show False by (simp add: bit_iff_odd)
qed

lemma bit_word_less [dest]:
  "bit (b :: byte) n \<Longrightarrow> n < 8"
  "bit (l :: uint32) n \<Longrightarrow> n < 32"
  using bit_imp_le_length by fastforce+

lemma unat_take_bit_less: "unat (take_bit n w) < 2 ^ n"
  by (simp only: unsigned_take_bit_eq take_bit_nat_less_exp)

lemmas bit_small =
  bit_less_exp [of _ 8, simplified] bit_less_exp [of _ 16, simplified] bit_less_exp [of _ 24, simplified]

lemmas be_defs = byte_at_def be16_def be24_def be32_def be64_def

lemma bit_be16: "bit (be16 a b) n \<longleftrightarrow> (if n < 8 then bit b n else n < 16 \<and> bit a (n - 8))"
  by (auto simp: be16_def bit_simps)

lemma bit_be24: "bit (be24 a b c) n \<longleftrightarrow>
    (if n < 8 then bit c n else if n < 16 then bit b (n - 8) else n < 24 \<and> bit a (n - 16))"
  by (auto simp: be24_def bit_simps)

lemma bit_be32: "bit (be32 a b c d) n \<longleftrightarrow>
    (if n < 8 then bit d n else if n < 16 then bit c (n - 8)
     else if n < 24 then bit b (n - 16) else n < 32 \<and> bit a (n - 24))"
  by (auto simp: be32_def bit_simps)

lemma bit_be64: "bit (be64 h l) n \<longleftrightarrow> (if n < 32 then bit l n else n < 64 \<and> bit h (n - 32))"
  by (auto simp: be64_def bit_simps)

lemma bit_byte_at: "bit (byte_at k w) n \<longleftrightarrow> n < 8 \<and> bit w (k + n)"
  by (auto simp: byte_at_def bit_simps)

lemmas bit_be = bit_be16 bit_be24 bit_be32 bit_be64 bit_byte_at

text \<open>A word is what its bytes spell, and the bytes of a spelled word are the ones given.\<close>

lemma be16_bytes [simp]: "be16 (byte_at 8 w) (byte_at 0 w) = w"
  by (rule bit_word_eqI) (auto simp: bit_be)

lemma be32_bytes [simp]: "be32 (byte_at 24 w) (byte_at 16 w) (byte_at 8 w) (byte_at 0 w) = w"
  by (rule bit_word_eqI) (auto simp: bit_be)

lemma be64_bytes [simp]:
  "be64 (be32 (byte_at 56 w) (byte_at 48 w) (byte_at 40 w) (byte_at 32 w))
        (be32 (byte_at 24 w) (byte_at 16 w) (byte_at 8 w) (byte_at 0 w)) = w"
  by (rule bit_word_eqI) (auto simp: bit_be)

lemma byte_at_be16 [simp]: "byte_at 8 (be16 a b) = a" "byte_at 0 (be16 a b) = b"
  by (rule bit_word_eqI, auto simp: bit_be)+

lemma byte_at_be32 [simp]:
  "byte_at 24 (be32 a b c d) = a" "byte_at 16 (be32 a b c d) = b"
  "byte_at 8 (be32 a b c d) = c" "byte_at 0 (be32 a b c d) = d"
  by (rule bit_word_eqI, auto simp: bit_be)+

text \<open>Short forms: the high bytes of a small value are zero.\<close>

lemma be24_bytes: "unat w < 2 ^ 24 \<Longrightarrow> be24 (byte_at 16 w) (byte_at 8 w) (byte_at 0 w) = w"
  by (rule bit_word_eqI) (auto simp: bit_be dest: bit_small)

lemma ucast_be16_bytes: "unat (w :: uint32) < 2 ^ 16 \<Longrightarrow> ucast (be16 (byte_at 8 w) (byte_at 0 w)) = w"
  by (rule bit_word_eqI) (auto simp: bit_be bit_simps dest: bit_small)

lemma ucast_byte: "unat (w :: uint32) < 2 ^ 8 \<Longrightarrow> ucast (byte_at 0 w) = w"
  by (rule bit_word_eqI) (auto simp: bit_be bit_simps dest: bit_small)

lemma PutUint_wire_len [wire_len, simp]:
  "len (PutUint16 a) = 2" "len (PutUint32 b) = 4" "len (PutUint64 c) = 8"
  by (simp_all add: PutUint16_def PutUint32_def PutUint64_def)

lemma BigEndian_Put [simp]:
  "BigEndian_Uint16 (PutUint16 a @ rest) = ret a"
  "BigEndian_Uint32 (PutUint32 b @ rest) = ret b"
  "BigEndian_Uint64 (PutUint64 c @ rest) = ret c"
  by (simp_all add: BigEndian_Uint16_def BigEndian_Uint32_def BigEndian_Uint64_def
      PutUint16_def PutUint32_def PutUint64_def)

lemmas BigEndian_Put_exact [simp] = BigEndian_Put [where rest = "[]", simplified]

lemma BigEndian_total [no_panic]:
  "2 \<le> len bs \<Longrightarrow> \<exists>v. BigEndian_Uint16 bs = ret v"
  "4 \<le> len bs \<Longrightarrow> \<exists>v. BigEndian_Uint32 bs = ret v"
  "8 \<le> len bs \<Longrightarrow> \<exists>v. BigEndian_Uint64 bs = ret v"
  by (simp_all add: BigEndian_Uint16_def BigEndian_Uint32_def BigEndian_Uint64_def idx_def)

declare BigEndian_Uint16_def [go_ops] BigEndian_Uint32_def [go_ops] BigEndian_Uint64_def [go_ops]
  PutUint16_def [go_ops] PutUint32_def [go_ops] PutUint64_def [go_ops]
  byte_at_def [go_ops] int_byte_at_def [go_ops]
  be16_def [go_ops] be24_def [go_ops] be32_def [go_ops] be64_def [go_ops]

section \<open>Facts about strings\<close>

lemma bytes_of_string_of_bytes [simp]: "bytes_of_string (string_of_bytes bs) = bs"
  proof -
  have "word_of_nat (unat b mod 256) = b" for b :: byte
  proof -
    have "unat b < 2 ^ LENGTH(8)" by (rule unsigned_less)
    then show ?thesis by simp
  qed
  then show ?thesis
    by (simp add: bytes_of_string_def string_of_bytes_def comp_def)
qed

lemma string_of_bytes_of_string [simp]: "string_of_bytes (bytes_of_string s) = s"
  by (induction s) (auto simp: bytes_of_string_def string_of_bytes_def unat_of_nat take_bit_nat_eq_self_iff)

lemma len_string_bytes [simp]:
  "len (bytes_of_string s) = len s" "len (string_of_bytes bs) = len bs"
  by (simp_all add: bytes_of_string_def string_of_bytes_def)

section \<open>Sequences of operations\<close>

text \<open>
  \<open>run_ops\<close> performs a list of operations on a state, stopping at a panic. The locale \<open>simulation\<close> is
  the contract of a component that refines an abstract one: each allowed operation, from related
  states, returns and leads to related states. Then so does every sequence of allowed operations.
\<close>

fun run_ops :: "('e \<Rightarrow> 's \<Rightarrow> 's go) \<Rightarrow> 'e list \<Rightarrow> 's \<Rightarrow> 's go" where
  "run_ops step [] s = ret s"
| "run_ops step (e # es) s = do { s' \<leftarrow> step e s; run_ops step es s' }"

locale simulation =
  fixes R :: "'a \<Rightarrow> 's \<Rightarrow> bool" and astep :: "'e \<Rightarrow> 'a \<Rightarrow> 'a" and cstep :: "'e \<Rightarrow> 's \<Rightarrow> 's go"
    and allowed :: "'e \<Rightarrow> bool"
  assumes step_sim: "R a s \<Longrightarrow> allowed e \<Longrightarrow> \<exists>s'. cstep e s = ret s' \<and> R (astep e a) s'"
begin

lemma run_sim:
  "R a s \<Longrightarrow> list_all allowed es \<Longrightarrow> \<exists>s'. run_ops cstep es s = ret s' \<and> R (fold astep es a) s'"
proof (induction es arbitrary: a s)
  case (Cons e es)
  then obtain s' where "cstep e s = ret s'" "R (astep e a) s'" using step_sim by fastforce
  with Cons show ?case by simp
qed simp

end

text \<open>
  The contract of a transition system with an invariant: the initial states satisfy it and every
  step keeps it. Then it holds in every reachable state.
\<close>

locale transition_system =
  fixes init :: "'s \<Rightarrow> bool" and trans :: "'s \<Rightarrow> 's \<Rightarrow> bool" and I :: "'s \<Rightarrow> bool"
  assumes init_inv: "init s \<Longrightarrow> I s"
    and trans_inv: "I s \<Longrightarrow> trans s t \<Longrightarrow> I t"
begin

lemma reachable_inv: "init s \<Longrightarrow> trans\<^sup>*\<^sup>* s t \<Longrightarrow> I t"
  by (rotate_tac, induction rule: rtranclp_induct) (auto intro: init_inv trans_inv)

end

end
