(* ===== verification/Go_Fmt.thy ===== *)
theory Go_Fmt
  imports Go_Prelude
begin

text \<open>
  What the source uses of the package \<open>fmt\<close>: the verbs \<open>%d\<close>, \<open>%0*d\<close>, \<open>%02x\<close> and \<open>%v\<close> of a
  bool; and the shape shared by the \<open>String\<close> methods of the enumerated types, a name table with a
  numbered fallback. The locale \<open>enum_names\<close> states once what makes such a method unambiguous;
  every enumerated type of the library is an instance.
\<close>

section \<open>Formatting verbs\<close>

definition digit :: "nat \<Rightarrow> char" where
  "digit d = char_of (48 + d)"

fun fmt_d :: "nat \<Rightarrow> string" where
  "fmt_d n = (if n < 10 then [digit n] else fmt_d (n div 10) @ [digit (n mod 10)])"

declare fmt_d.simps [simp del]

definition fmt_0d :: "nat \<Rightarrow> nat \<Rightarrow> string" where
  "fmt_0d width n = replicate (width - length (fmt_d n)) (CHR ''0'') @ fmt_d n"

definition hex_digit :: "nat \<Rightarrow> char" where
  "hex_digit d = (if d < 10 then char_of (48 + d) else char_of (87 + d))"

definition fmt_02x :: "byte \<Rightarrow> string" where
  "fmt_02x b = [hex_digit (unat b div 16), hex_digit (unat b mod 16)]"

definition fmt_bool :: "bool \<Rightarrow> string" where
  "fmt_bool b = (if b then ''true'' else ''false'')"

section \<open>String methods of enumerated types\<close>

definition name_or_number :: "('a \<times> string) list \<Rightarrow> string \<Rightarrow> ('a \<Rightarrow> nat) \<Rightarrow> 'a \<Rightarrow> string" where
  "name_or_number names pre num v =
     (case map_of names v of Some name \<Rightarrow> name | None \<Rightarrow> pre @ fmt_d (num v) @ '')'')"

section \<open>Decimal numerals can be read back\<close>

fun dec_value :: "string \<Rightarrow> nat" where
  "dec_value s = foldl (\<lambda>acc c. 10 * acc + (of_char c - 48)) 0 s"

lemma of_char_digit: "d < 10 \<Longrightarrow> of_char (digit d) = 48 + d"
  by (simp add: digit_def)

lemma dec_value_fmt_d [simp]: "dec_value (fmt_d n) = n"
proof (induction n rule: fmt_d.induct)
  case (1 n)
  show ?case
  proof (cases "n < 10")
    case True
    then show ?thesis by (simp add: fmt_d.simps [of n] of_char_digit)
  next
    case False
    with 1 show ?thesis by (simp add: fmt_d.simps [of n] of_char_digit)
  qed
qed

lemma fmt_d_inject [simp]: "fmt_d m = fmt_d n \<longleftrightarrow> m = n"
  by (metis dec_value_fmt_d)

lemma fmt_d_nonempty [simp]: "fmt_d n \<noteq> []"
  by (subst fmt_d.simps) simp

lemma fmt_d_digits: "set (fmt_d n) \<subseteq> digit ` {..<10}"
proof (induction n rule: fmt_d.induct)
  case (1 n)
  then show ?case by (subst fmt_d.simps) auto
qed

lemma dec_value_zeros: "dec_value (replicate k (CHR ''0'') @ s) = dec_value s"
  by (induction k) auto

lemma dec_value_fmt_0d [simp]: "dec_value (fmt_0d w n) = n"
  unfolding fmt_0d_def by (simp only: dec_value_zeros dec_value_fmt_d)

lemma length_fmt_0d: "w \<le> length (fmt_0d w n)"
  by (simp add: fmt_0d_def)

section \<open>Unambiguous names\<close>

locale enum_names =
  fixes names :: "('a \<times> string) list" and pre :: string and num :: "'a \<Rightarrow> nat"
  assumes distinct_names: "distinct (map snd names)"
    and fallback_fresh: "list_all (\<lambda>p. take (length pre) (snd p) \<noteq> pre) names"
    and num_inj: "inj num"
begin

lemma named: "map_of names v = Some n \<Longrightarrow> name_or_number names pre num v = n"
  by (simp add: name_or_number_def)

lemma name_not_fallback: "map_of names v = Some n \<Longrightarrow> n \<noteq> pre @ rest"
  using fallback_fresh by (force simp: list_all_iff dest: map_of_SomeD)

lemma map_of_inj: "map_of names v = Some n \<Longrightarrow> map_of names w = Some n \<Longrightarrow> v = w"
  using distinct_names by (metis distinct_map eq_key_imp_eq_value inj_onD map_of_SomeD snd_conv fst_conv)

lemma injective: "inj (name_or_number names pre num)"
proof (rule injI)
  fix v w
  assume eq: "name_or_number names pre num v = name_or_number names pre num w"
  show "v = w"
  proof (cases "map_of names v"; cases "map_of names w")
    assume "map_of names v = None" and "map_of names w = None"
    with eq num_inj show ?thesis by (auto simp: name_or_number_def dest: injD)
  next
    fix n assume "map_of names v = None" and "map_of names w = Some n"
    with eq name_not_fallback show ?thesis by (fastforce simp: name_or_number_def)
  next
    fix n assume "map_of names v = Some n" and "map_of names w = None"
    with eq name_not_fallback show ?thesis by (fastforce simp: name_or_number_def)
  next
    fix m n assume "map_of names v = Some m" and "map_of names w = Some n"
    with eq map_of_inj show ?thesis by (simp add: name_or_number_def)
  qed
qed

end

lemma inj_unat [simp]: "inj unat"
  by (rule injI) (simp add: unsigned_word_eqI)

end
