(* ===== verification/Bacnet_Types.thy ===== *)
theory Bacnet_Types
  imports Go_Fmt
begin

text \<open>
  The data model of \<open>types.go\<close>: the protocol constants the client's logic tests, object
  identifiers with their 10 + 22 bit wire value, status flags, addresses and device records. The
  enumerated types are open in Go (any number of the base type is a value), so they are words and
  their members are constants; the large name tables are in the theory \<open>Enum_Tables\<close>.
\<close>

section \<open>Protocol constants\<close>

abbreviation (input) DefaultPort :: int where "DefaultPort \<equiv> 47808"
abbreviation (input) MaxAPDULength :: uint16 where "MaxAPDULength \<equiv> 1476"
abbreviation (input) ArrayAll :: uint32 where "ArrayAll \<equiv> 0xFFFFFFFF"

abbreviation (input) BVLCTypeBACnetIP :: uint8 where "BVLCTypeBACnetIP \<equiv> 0x81"
abbreviation (input) BVLCForwardedNPDU :: uint8 where "BVLCForwardedNPDU \<equiv> 0x04"
abbreviation (input) BVLCRegisterForeignDevice :: uint8 where "BVLCRegisterForeignDevice \<equiv> 0x05"
abbreviation (input) BVLCOriginalUnicastNPDU :: uint8 where "BVLCOriginalUnicastNPDU \<equiv> 0x0A"
abbreviation (input) BVLCOriginalBroadcastNPDU :: uint8 where "BVLCOriginalBroadcastNPDU \<equiv> 0x0B"

abbreviation (input) NPDUControlNetworkLayerMessage :: uint8 where "NPDUControlNetworkLayerMessage \<equiv> 0x80"
abbreviation (input) NPDUControlDestSpecifier :: uint8 where "NPDUControlDestSpecifier \<equiv> 0x20"
abbreviation (input) NPDUControlSourceSpecifier :: uint8 where "NPDUControlSourceSpecifier \<equiv> 0x08"
abbreviation (input) NPDUControlExpectingReply :: uint8 where "NPDUControlExpectingReply \<equiv> 0x04"
abbreviation (input) NPDUControlPriorityNormal :: uint8 where "NPDUControlPriorityNormal \<equiv> 0x00"

abbreviation (input) PDUTypeConfirmedRequest :: uint8 where "PDUTypeConfirmedRequest \<equiv> 0x00"
abbreviation (input) PDUTypeUnconfirmedRequest :: uint8 where "PDUTypeUnconfirmedRequest \<equiv> 0x10"
abbreviation (input) PDUTypeSimpleAck :: uint8 where "PDUTypeSimpleAck \<equiv> 0x20"
abbreviation (input) PDUTypeComplexAck :: uint8 where "PDUTypeComplexAck \<equiv> 0x30"
abbreviation (input) PDUTypeSegmentAck :: uint8 where "PDUTypeSegmentAck \<equiv> 0x40"
abbreviation (input) PDUTypeError :: uint8 where "PDUTypeError \<equiv> 0x50"
abbreviation (input) PDUTypeReject :: uint8 where "PDUTypeReject \<equiv> 0x60"
abbreviation (input) PDUTypeAbort :: uint8 where "PDUTypeAbort \<equiv> 0x70"

abbreviation (input) ServiceSubscribeCOV :: uint8 where "ServiceSubscribeCOV \<equiv> 5"
abbreviation (input) ServiceReadProperty :: uint8 where "ServiceReadProperty \<equiv> 12"
abbreviation (input) ServiceReadPropertyMultiple :: uint8 where "ServiceReadPropertyMultiple \<equiv> 14"
abbreviation (input) ServiceWriteProperty :: uint8 where "ServiceWriteProperty \<equiv> 15"
abbreviation (input) ServiceIAm :: uint8 where "ServiceIAm \<equiv> 0"
abbreviation (input) ServiceUnconfirmedCOVNotification :: uint8 where "ServiceUnconfirmedCOVNotification \<equiv> 2"
abbreviation (input) ServiceWhoIs :: uint8 where "ServiceWhoIs \<equiv> 8"

abbreviation (input) ObjectTypeDevice :: uint16 where "ObjectTypeDevice \<equiv> 8"
abbreviation (input) PropertyObjectList :: uint32 where "PropertyObjectList \<equiv> 76"
abbreviation (input) SegmentationNone :: uint8 where "SegmentationNone \<equiv> 3"

abbreviation (input) TagClassApplication :: uint8 where "TagClassApplication \<equiv> 0"
abbreviation (input) TagClassContext :: uint8 where "TagClassContext \<equiv> 1"

abbreviation (input) TagNull :: uint8 where "TagNull \<equiv> 0"
abbreviation (input) TagBoolean :: uint8 where "TagBoolean \<equiv> 1"
abbreviation (input) TagUnsignedInt :: uint8 where "TagUnsignedInt \<equiv> 2"
abbreviation (input) TagSignedInt :: uint8 where "TagSignedInt \<equiv> 3"
abbreviation (input) TagReal :: uint8 where "TagReal \<equiv> 4"
abbreviation (input) TagDouble :: uint8 where "TagDouble \<equiv> 5"
abbreviation (input) TagOctetString :: uint8 where "TagOctetString \<equiv> 6"
abbreviation (input) TagCharacterString :: uint8 where "TagCharacterString \<equiv> 7"
abbreviation (input) TagBitString :: uint8 where "TagBitString \<equiv> 8"
abbreviation (input) TagEnumerated :: uint8 where "TagEnumerated \<equiv> 9"
abbreviation (input) TagDate :: uint8 where "TagDate \<equiv> 10"
abbreviation (input) TagTime :: uint8 where "TagTime \<equiv> 11"
abbreviation (input) TagObjectID :: uint8 where "TagObjectID \<equiv> 12"

section \<open>Object identifiers\<close>

record ObjectIdentifier =
  OID_Type :: uint16
  OID_Instance :: uint32

definition NewObjectIdentifier :: "uint16 \<Rightarrow> uint32 \<Rightarrow> ObjectIdentifier" where
  "NewObjectIdentifier objectType inst = \<lparr>OID_Type = objectType, OID_Instance = inst\<rparr>"

definition ObjectIdentifier_Encode :: "ObjectIdentifier \<Rightarrow> uint32" where
  "ObjectIdentifier_Encode oid =
     push_bit 22 (ucast (OID_Type oid)) OR (OID_Instance oid AND 0x3FFFFF)"

definition DecodeObjectIdentifier :: "uint32 \<Rightarrow> ObjectIdentifier" where
  "DecodeObjectIdentifier v =
     \<lparr>OID_Type = ucast (drop_bit 22 v AND 0x3FF), OID_Instance = v AND 0x3FFFFF\<rparr>"

section \<open>Status flags\<close>

record StatusFlags =
  InAlarm :: bool
  Fault :: bool
  Overridden :: bool
  OutOfService :: bool

definition DecodeStatusFlags :: "byte \<Rightarrow> StatusFlags" where
  "DecodeStatusFlags b =
     \<lparr>InAlarm = b AND 0x08 \<noteq> 0, Fault = b AND 0x04 \<noteq> 0,
      Overridden = b AND 0x02 \<noteq> 0, OutOfService = b AND 0x01 \<noteq> 0\<rparr>"

definition StatusFlags_String :: "StatusFlags \<Rightarrow> string" where
  "StatusFlags_String s =
     ''{in-alarm:'' @ fmt_bool (InAlarm s) @ '', fault:'' @ fmt_bool (Fault s) @
     '', overridden:'' @ fmt_bool (Overridden s) @
     '', out-of-service:'' @ fmt_bool (OutOfService s) @ ''}''"

section \<open>Addresses and devices\<close>

text \<open>
  \<open>Addr\<close> is the Go slice \<open>[]byte\<close>; a nil slice and an empty one are not distinguished by the code
  that reads it (it tests only the length).
\<close>

record Address =
  Net :: uint16
  Addr :: bytes

record DeviceInfo =
  ObjectID :: ObjectIdentifier
  DevAddress :: Address
  DevMaxAPDULength :: uint16
  DevSegmentation :: uint8
  VendorID :: uint16
  VendorName :: string
  ModelName :: string
  FirmwareRevision :: string
  ApplicationSoftware :: string
  Description :: string
  Location :: string
  ObjectList :: "ObjectIdentifier list"

text \<open>A device record with Go's zero values in the fields a composite literal leaves out.\<close>

definition DeviceInfo_lit :: "ObjectIdentifier \<Rightarrow> Address \<Rightarrow> uint16 \<Rightarrow> uint8 \<Rightarrow> uint16 \<Rightarrow> DeviceInfo" where
  "DeviceInfo_lit oid addr maxAPDU segmentation vendor =
     \<lparr>ObjectID = oid, DevAddress = addr, DevMaxAPDULength = maxAPDU,
      DevSegmentation = segmentation, VendorID = vendor, VendorName = [], ModelName = [],
      FirmwareRevision = [], ApplicationSoftware = [], Description = [], Location = [],
      ObjectList = []\<rparr>"

record ReadPropertyRequest =
  RPR_ObjectID :: ObjectIdentifier
  RPR_PropertyID :: uint32
  RPR_ArrayIndex :: "uint32 option"

section \<open>The object identifier codec\<close>

text \<open>The identifiers the wire can carry: 10 bits of type, 22 bits of instance.\<close>

definition oid_wire :: "ObjectIdentifier \<Rightarrow> bool" where
  "oid_wire oid \<longleftrightarrow> unat (OID_Type oid) < 2 ^ 10 \<and> unat (OID_Instance oid) < 2 ^ 22"

lemma and_3FF: "x AND 0x3FF = take_bit 10 x" for x :: uint32
  by (simp add: take_bit_eq_mask mask_eq_exp_minus_1)

lemma and_3FFFFF: "x AND 0x3FFFFF = take_bit 22 x" for x :: uint32
  by (simp add: take_bit_eq_mask mask_eq_exp_minus_1)

lemmas oid_codec_defs = ObjectIdentifier_Encode_def DecodeObjectIdentifier_def and_3FF and_3FFFFF

lemma DecodeObjectIdentifier_Encode:
  assumes "oid_wire oid"
  shows "DecodeObjectIdentifier (ObjectIdentifier_Encode oid) = oid"
proof -
  have t: "bit (OID_Type oid) n \<Longrightarrow> n < 10" for n
    using assms bit_less_exp [of "OID_Type oid" 10] by (simp add: oid_wire_def)
  have i: "bit (OID_Instance oid) n \<Longrightarrow> n < 22" for n
    using assms bit_less_exp [of "OID_Instance oid" 22] by (simp add: oid_wire_def)
  have "OID_Type (DecodeObjectIdentifier (ObjectIdentifier_Encode oid)) = OID_Type oid"
    by (rule bit_word_eqI) (auto simp: oid_codec_defs bit_simps dest: t)
  moreover have "OID_Instance (DecodeObjectIdentifier (ObjectIdentifier_Encode oid)) = OID_Instance oid"
    by (rule bit_word_eqI) (auto simp: oid_codec_defs bit_simps dest: i)
  ultimately show ?thesis by simp
qed

lemma ObjectIdentifier_Encode_Decode: "ObjectIdentifier_Encode (DecodeObjectIdentifier v) = v"
  by (rule bit_word_eqI) (auto simp: oid_codec_defs bit_simps)

lemma oid_wire_Decode: "oid_wire (DecodeObjectIdentifier v)"
proof -
  have "unat (take_bit 22 v) < 2 ^ 22" and t: "unat (take_bit 10 (drop_bit 22 v)) < 2 ^ 10"
    by (rule unat_take_bit_less)+
  moreover have "unat (ucast (take_bit 10 (drop_bit 22 v)) :: uint16) < 2 ^ 10"
    using t by (simp add: unsigned_ucast_eq) (meson le_less_trans take_bit_nat_less_eq_self)
  ultimately show ?thesis
    by (simp add: oid_wire_def oid_codec_defs)
qed

end
