(* ===== verification/Bacnet_Errors.thy ===== *)
theory Bacnet_Errors
  imports Bacnet_Types
begin

text \<open>
  \<open>errors.go\<close>: the sentinel errors, the protocol errors a peer can answer with, error wrapping,
  the tests \<open>errors.Is\<close> and \<open>errors.As\<close> as the library uses them, the error texts, and the
  predicates \<open>IsTimeout\<close>, \<open>IsDeviceNotFound\<close>, \<open>IsPropertyNotFound\<close> and \<open>IsAccessDenied\<close>.
\<close>

section \<open>Enumerated error values\<close>

subsection \<open>ErrorClass\<close>

definition ErrorClass_consts :: "(string \<times> uint8) list" where
  "ErrorClass_consts = [
    (''ErrorClassDevice'', 0), (''ErrorClassObject'', 1), (''ErrorClassProperty'', 2),
    (''ErrorClassResources'', 3), (''ErrorClassSecurity'', 4), (''ErrorClassServices'', 5),
    (''ErrorClassVT'', 6), (''ErrorClassCommunication'', 7)]"

definition ErrorClass_names :: "(uint8 \<times> string) list" where
  "ErrorClass_names = [
    (0, ''device''), (1, ''object''), (2, ''property''), (3, ''resources''), (4, ''security''),
    (5, ''services''), (6, ''vt''), (7, ''communication'')]"

definition ErrorClass_String :: "uint8 \<Rightarrow> string" where
  "ErrorClass_String = name_or_number ErrorClass_names ''error-class('' unat"

subsection \<open>ErrorCode\<close>

definition ErrorCode_consts :: "(string \<times> uint8) list" where
  "ErrorCode_consts = [
    (''ErrorCodeOther'', 0), (''ErrorCodeConfigurationInProgress'', 2),
    (''ErrorCodeDeviceBusy'', 3), (''ErrorCodeDynamicCreationNotSupported'', 4),
    (''ErrorCodeNoObjectsOfSpecifiedType'', 17), (''ErrorCodeObjectDeletionNotPermitted'', 23),
    (''ErrorCodeObjectIdentifierAlreadyExists'', 24), (''ErrorCodeUnknownObject'', 31),
    (''ErrorCodeCharacterSetNotSupported'', 41), (''ErrorCodeDatatypeNotSupported'', 47),
    (''ErrorCodeInconsistentParameters'', 7), (''ErrorCodeInvalidArrayIndex'', 42),
    (''ErrorCodeInvalidDataType'', 9), (''ErrorCodeNotCovProperty'', 44),
    (''ErrorCodeOptionalFunctionalityNotSupported'', 45), (''ErrorCodePropertyIsNotAList'', 22),
    (''ErrorCodePropertyIsNotAnArray'', 50), (''ErrorCodeReadAccessDenied'', 27),
    (''ErrorCodeUnknownProperty'', 32), (''ErrorCodeValueOutOfRange'', 37),
    (''ErrorCodeWriteAccessDenied'', 40), (''ErrorCodeNoSpaceForObject'', 18),
    (''ErrorCodeNoSpaceToAddListElement'', 19), (''ErrorCodeNoSpaceToWriteProperty'', 20),
    (''ErrorCodeAuthenticationFailed'', 1), (''ErrorCodeIncompatibleSecurityLevels'', 6),
    (''ErrorCodeInvalidOperatorName'', 12), (''ErrorCodeKeyGenerationError'', 15),
    (''ErrorCodePasswordFailure'', 26), (''ErrorCodeSecurityNotSupported'', 28),
    (''ErrorCodeCovSubscriptionFailed'', 43), (''ErrorCodeDuplicateName'', 48),
    (''ErrorCodeDuplicateObjectId'', 49), (''ErrorCodeFileAccessDenied'', 5),
    (''ErrorCodeInconsistentSelectionCriterion'', 8), (''ErrorCodeInvalidConfigurationData'', 46),
    (''ErrorCodeInvalidFileAccessMethod'', 10), (''ErrorCodeInvalidFileStartPosition'', 11),
    (''ErrorCodeInvalidParameterDataType'', 13), (''ErrorCodeInvalidTimeStamp'', 14),
    (''ErrorCodeMissingRequiredParameter'', 16), (''ErrorCodeNoAlarmsOfSpecifiedType'', 51),
    (''ErrorCodeNotConfiguredForTriggeredLogging'', 21), (''ErrorCodeServiceRequestDenied'', 29),
    (''ErrorCodeUnknownSubscription'', 33), (''ErrorCodeUnknownVtClass'', 34),
    (''ErrorCodeUnknownVtSession'', 35), (''ErrorCodeAbortBufferOverflow'', 51),
    (''ErrorCodeAbortInvalidApduInThisState'', 52),
    (''ErrorCodeAbortPreemptedByHigherPriorityTask'', 53),
    (''ErrorCodeAbortSegmentationNotSupported'', 54), (''ErrorCodeAbortProprietary'', 55),
    (''ErrorCodeAbortOther'', 56), (''ErrorCodeInvalidTag'', 57), (''ErrorCodeNetworkDown'', 58),
    (''ErrorCodeRejectBufferOverflow'', 59), (''ErrorCodeRejectInconsistentParameters'', 60),
    (''ErrorCodeRejectInvalidParameterDataType'', 61), (''ErrorCodeRejectInvalidTag'', 62),
    (''ErrorCodeRejectMissingRequiredParameter'', 63),
    (''ErrorCodeRejectParameterOutOfRange'', 64), (''ErrorCodeRejectTooManyArguments'', 65),
    (''ErrorCodeRejectUndefinedEnumeration'', 66), (''ErrorCodeRejectUnrecognizedService'', 67),
    (''ErrorCodeRejectProprietary'', 68), (''ErrorCodeRejectOther'', 69),
    (''ErrorCodeUnknownDevice'', 70), (''ErrorCodeUnknownRoute'', 71),
    (''ErrorCodeValueTooLong'', 72), (''ErrorCodeAbortApduTooLong'', 73),
    (''ErrorCodeAbortApplicationExceededReplyTime'', 74), (''ErrorCodeAbortOutOfResources'', 75),
    (''ErrorCodeAbortTsmTimeout'', 76), (''ErrorCodeAbortWindowSizeOutOfRange'', 77),
    (''ErrorCodeListItemNotNumbered'', 123)]"

definition ErrorCode_names :: "(uint8 \<times> string) list" where
  "ErrorCode_names = [
    (0, ''other''), (2, ''configuration-in-progress''), (3, ''device-busy''),
    (4, ''dynamic-creation-not-supported''), (17, ''no-objects-of-specified-type''),
    (23, ''object-deletion-not-permitted''), (24, ''object-identifier-already-exists''),
    (31, ''unknown-object''), (41, ''character-set-not-supported''),
    (47, ''datatype-not-supported''), (7, ''inconsistent-parameters''),
    (42, ''invalid-array-index''), (9, ''invalid-data-type''), (44, ''not-cov-property''),
    (45, ''optional-functionality-not-supported''), (22, ''property-is-not-a-list''),
    (50, ''property-is-not-an-array''), (27, ''read-access-denied''), (32, ''unknown-property''),
    (37, ''value-out-of-range''), (40, ''write-access-denied''), (18, ''no-space-for-object''),
    (19, ''no-space-to-add-list-element''), (20, ''no-space-to-write-property''),
    (1, ''authentication-failed''), (26, ''password-failure''), (28, ''security-not-supported''),
    (29, ''service-request-denied''), (70, ''unknown-device''), (71, ''unknown-route'')]"

definition ErrorCode_String :: "uint8 \<Rightarrow> string" where
  "ErrorCode_String = name_or_number ErrorCode_names ''error-code('' unat"

subsection \<open>RejectReason\<close>

definition RejectReason_consts :: "(string \<times> uint8) list" where
  "RejectReason_consts = [
    (''RejectReasonOther'', 0), (''RejectReasonBufferOverflow'', 1),
    (''RejectReasonInconsistentParameters'', 2), (''RejectReasonInvalidParameterDataType'', 3),
    (''RejectReasonInvalidTag'', 4), (''RejectReasonMissingRequiredParameter'', 5),
    (''RejectReasonParameterOutOfRange'', 6), (''RejectReasonTooManyArguments'', 7),
    (''RejectReasonUndefinedEnumeration'', 8), (''RejectReasonUnrecognizedService'', 9)]"

definition RejectReason_names :: "(uint8 \<times> string) list" where
  "RejectReason_names = [
    (0, ''other''), (1, ''buffer-overflow''), (2, ''inconsistent-parameters''),
    (3, ''invalid-parameter-data-type''), (4, ''invalid-tag''),
    (5, ''missing-required-parameter''), (6, ''parameter-out-of-range''),
    (7, ''too-many-arguments''), (8, ''undefined-enumeration''), (9, ''unrecognized-service'')]"

definition RejectReason_String :: "uint8 \<Rightarrow> string" where
  "RejectReason_String = name_or_number RejectReason_names ''reject-reason('' unat"

subsection \<open>AbortReason\<close>

definition AbortReason_consts :: "(string \<times> uint8) list" where
  "AbortReason_consts = [
    (''AbortReasonOther'', 0), (''AbortReasonBufferOverflow'', 1),
    (''AbortReasonInvalidApduInThisState'', 2), (''AbortReasonPreemptedByHigherPriorityTask'', 3),
    (''AbortReasonSegmentationNotSupported'', 4), (''AbortReasonSecurityError'', 5),
    (''AbortReasonInsufficientSecurity'', 6), (''AbortReasonWindowSizeOutOfRange'', 7),
    (''AbortReasonApplicationExceededReplyTime'', 8), (''AbortReasonOutOfResources'', 9),
    (''AbortReasonTsmTimeout'', 10), (''AbortReasonApduTooLong'', 11)]"

definition AbortReason_names :: "(uint8 \<times> string) list" where
  "AbortReason_names = [
    (0, ''other''), (1, ''buffer-overflow''), (2, ''invalid-apdu-in-this-state''),
    (3, ''preempted-by-higher-priority-task''), (4, ''segmentation-not-supported''),
    (5, ''security-error''), (6, ''insufficient-security''), (7, ''window-size-out-of-range''),
    (8, ''application-exceeded-reply-time''), (9, ''out-of-resources''), (10, ''tsm-timeout''),
    (11, ''apdu-too-long'')]"

definition AbortReason_String :: "uint8 \<Rightarrow> string" where
  "AbortReason_String = name_or_number AbortReason_names ''abort-reason('' unat"

section \<open>Errors\<close>

record BACnetError =
  Class :: uint8
  Code :: uint8

record RejectError =
  Rej_InvokeID :: uint8
  Rej_Reason :: uint8

record AbortError =
  Abt_InvokeID :: uint8
  Abt_Server :: bool
  Abt_Reason :: uint8

text \<open>
  The values of Go's interface \<open>error\<close> that the library makes. \<open>Wrapped\<close> is what \<open>fmt.Errorf\<close>
  returns for a format with \<open>%w\<close>: the formatted text and the wrapped error. \<open>Plain\<close> is
  \<open>fmt.Errorf\<close> without \<open>%w\<close>. \<open>NetErr\<close> is an error of the standard library's network code: its
  text and the answer of its method \<open>Timeout\<close>.
\<close>

datatype goerror =
    ErrTimeout | ErrConnectionClosed | ErrInvalidResponse | ErrInvalidAPDU | ErrInvalidNPDU
  | ErrInvalidBVLC | ErrSegmentationNotSupported | ErrDeviceNotFound | ErrPropertyNotFound
  | ErrWriteFailed | ErrNotConnected | ErrAlreadyConnected
  | BACnetErr BACnetError | RejectErr RejectError | AbortErr AbortError
  | Wrapped string goerror
  | Plain string
  | NetErr string bool

type_synonym 'a res = "goerror + 'a"

abbreviation (input) Err :: "goerror \<Rightarrow> 'a res" where "Err \<equiv> Inl"
abbreviation (input) Ok :: "'a \<Rightarrow> 'a res" where "Ok \<equiv> Inr"

text \<open>
  The statement \<open>x, err := f(...)\<close> followed by a test of \<open>err\<close>: \<open>call m h k\<close> runs \<open>m\<close>, goes on with
  \<open>h\<close> when it returned an error and with \<open>k\<close> when it returned a value; a panic of \<open>m\<close> is a panic
  of the whole.
\<close>

definition call :: "'a res go \<Rightarrow> (goerror \<Rightarrow> 'b go) \<Rightarrow> ('a \<Rightarrow> 'b go) \<Rightarrow> 'b go" where
  "call m h k = do { r \<leftarrow> m; (case r of Inl e \<Rightarrow> h e | Inr x \<Rightarrow> k x) }"

definition NewBACnetError :: "uint8 \<Rightarrow> uint8 \<Rightarrow> goerror" where
  "NewBACnetError c d = BACnetErr \<lparr>Class = c, Code = d\<rparr>"

definition BACnetError_Error :: "BACnetError \<Rightarrow> string" where
  "BACnetError_Error e =
     ''bacnet error: class='' @ ErrorClass_String (Class e) @ '', code='' @ ErrorCode_String (Code e)"

definition RejectError_Error :: "RejectError \<Rightarrow> string" where
  "RejectError_Error e =
     ''bacnet reject: invoke-id='' @ fmt_d (unat (Rej_InvokeID e)) @
     '', reason='' @ RejectReason_String (Rej_Reason e)"

definition AbortError_Error :: "AbortError \<Rightarrow> string" where
  "AbortError_Error e =
     (let origin = (if Abt_Server e then ''server'' else ''client'')
      in ''bacnet abort: invoke-id='' @ fmt_d (unat (Abt_InvokeID e)) @
         '', origin='' @ origin @ '', reason='' @ AbortReason_String (Abt_Reason e))"

fun Error :: "goerror \<Rightarrow> string" where
  "Error ErrTimeout = ''bacnet: request timeout''"
| "Error ErrConnectionClosed = ''bacnet: connection closed''"
| "Error ErrInvalidResponse = ''bacnet: invalid response''"
| "Error ErrInvalidAPDU = ''bacnet: invalid APDU''"
| "Error ErrInvalidNPDU = ''bacnet: invalid NPDU''"
| "Error ErrInvalidBVLC = ''bacnet: invalid BVLC header''"
| "Error ErrSegmentationNotSupported = ''bacnet: segmentation not supported''"
| "Error ErrDeviceNotFound = ''bacnet: device not found''"
| "Error ErrPropertyNotFound = ''bacnet: property not found''"
| "Error ErrWriteFailed = ''bacnet: write failed''"
| "Error ErrNotConnected = ''bacnet: not connected''"
| "Error ErrAlreadyConnected = ''bacnet: already connected''"
| "Error (BACnetErr e) = BACnetError_Error e"
| "Error (RejectErr e) = RejectError_Error e"
| "Error (AbortErr e) = AbortError_Error e"
| "Error (Wrapped msg _) = msg"
| "Error (Plain msg) = msg"
| "Error (NetErr msg _) = msg"

definition BACnetError_Is :: "BACnetError \<Rightarrow> goerror \<Rightarrow> bool" where
  "BACnetError_Is e target =
     (case target of BACnetErr t \<Rightarrow> Class e = Class t \<and> Code e = Code t | _ \<Rightarrow> False)"

fun is_sentinel :: "goerror \<Rightarrow> bool" where
  "is_sentinel (BACnetErr _) = False"
| "is_sentinel (RejectErr _) = False"
| "is_sentinel (AbortErr _) = False"
| "is_sentinel (Wrapped _ _) = False"
| "is_sentinel (Plain _) = False"
| "is_sentinel (NetErr _ _) = False"
| "is_sentinel _ = True"

text \<open>
  \<open>errors.Is(err, target)\<close> for a sentinel or \<open>*BACnetError\<close> target: it follows the chain of wrapped
  errors, compares identities (only sentinels are shared values) and calls a method \<open>Is\<close> where the
  error has one. \<open>errors.As\<close> for \<open>*BACnetError\<close> finds the first such error of the chain.
\<close>

fun errors_Is :: "goerror \<Rightarrow> goerror \<Rightarrow> bool" where
  "errors_Is (Wrapped _ e) target = errors_Is e target"
| "errors_Is (BACnetErr e) target = BACnetError_Is e target"
| "errors_Is e target = (is_sentinel e \<and> e = target)"

fun errors_As_BACnetError :: "goerror \<Rightarrow> BACnetError option" where
  "errors_As_BACnetError (Wrapped _ e) = errors_As_BACnetError e"
| "errors_As_BACnetError (BACnetErr e) = Some e"
| "errors_As_BACnetError _ = None"

abbreviation (input) ErrorCodeReadAccessDenied :: uint8 where "ErrorCodeReadAccessDenied \<equiv> 27"
abbreviation (input) ErrorCodeUnknownObject :: uint8 where "ErrorCodeUnknownObject \<equiv> 31"
abbreviation (input) ErrorCodeUnknownProperty :: uint8 where "ErrorCodeUnknownProperty \<equiv> 32"
abbreviation (input) ErrorCodeWriteAccessDenied :: uint8 where "ErrorCodeWriteAccessDenied \<equiv> 40"
abbreviation (input) ErrorCodeUnknownDevice :: uint8 where "ErrorCodeUnknownDevice \<equiv> 70"

definition IsTimeout :: "goerror \<Rightarrow> bool" where
  "IsTimeout err = errors_Is err ErrTimeout"

definition IsDeviceNotFound :: "goerror \<Rightarrow> bool" where
  "IsDeviceNotFound err =
     (if errors_Is err ErrDeviceNotFound then True
      else case errors_As_BACnetError err of
             Some e \<Rightarrow> Code e = ErrorCodeUnknownDevice \<or> Code e = ErrorCodeUnknownObject
           | None \<Rightarrow> False)"

definition IsPropertyNotFound :: "goerror \<Rightarrow> bool" where
  "IsPropertyNotFound err =
     (if errors_Is err ErrPropertyNotFound then True
      else case errors_As_BACnetError err of
             Some e \<Rightarrow> Code e = ErrorCodeUnknownProperty
           | None \<Rightarrow> False)"

definition IsAccessDenied :: "goerror \<Rightarrow> bool" where
  "IsAccessDenied err =
     (case errors_As_BACnetError err of
        Some e \<Rightarrow> Code e = ErrorCodeReadAccessDenied \<or> Code e = ErrorCodeWriteAccessDenied
      | None \<Rightarrow> False)"

section \<open>Calls\<close>

named_theorems call_iff

lemma call_simps [simp]:
  "call (ret (Err e)) h k = h e" "call (ret (Ok x)) h k = k x" "call panic h k = panic"
  by (simp_all add: call_def)

lemma call_eq_Some_iff [call_iff]: "call m h k = ret y \<longleftrightarrow>
    (\<exists>e. m = ret (Err e) \<and> h e = ret y) \<or> (\<exists>x. m = ret (Ok x) \<and> k x = ret y)"
  by (cases m; cases "the m") (auto simp: call_def)

lemma call_total [no_panic]:
  assumes "\<exists>r. m = ret r" and "\<And>e. m = ret (Err e) \<Longrightarrow> \<exists>y. h e = ret y"
    and "\<And>x. m = ret (Ok x) \<Longrightarrow> \<exists>y. k x = ret y"
  shows "\<exists>y. call m h k = ret y"
proof -
  from assms(1) obtain r where r: "m = ret r" ..
  then show ?thesis using assms(2,3) by (cases r) auto
qed

declare bind_eq_Some_conv [call_iff] idx_eq_Some_iff [call_iff] slice_eq_Some_iff [call_iff]
  slice_from_eq_Some_iff [call_iff]

section \<open>Properties\<close>

interpretation errorClass: enum_names ErrorClass_names "''error-class(''" unat
  by unfold_locales (code_simp, code_simp, simp)

interpretation errorCode: enum_names ErrorCode_names "''error-code(''" unat
  by unfold_locales (code_simp, code_simp, simp)

interpretation rejectReason: enum_names RejectReason_names "''reject-reason(''" unat
  by unfold_locales (code_simp, code_simp, simp)

interpretation abortReason: enum_names AbortReason_names "''abort-reason(''" unat
  by unfold_locales (code_simp, code_simp, simp)

text \<open>The innermost error of a chain of wrapped errors.\<close>

fun root_cause :: "goerror \<Rightarrow> goerror" where
  "root_cause (Wrapped _ e) = root_cause e"
| "root_cause e = e"

lemma root_cause_not_wrapped: "root_cause err \<noteq> Wrapped m e"
  by (induction err) auto

lemma errors_Is_root_cause: "errors_Is err target = errors_Is (root_cause err) target"
  by (induction err) auto

lemma errors_As_root_cause: "errors_As_BACnetError err = errors_As_BACnetError (root_cause err)"
  by (induction err) auto

lemma errors_Is_sentinel: "is_sentinel t \<Longrightarrow> errors_Is err t \<longleftrightarrow> root_cause err = t"
  by (induction err) (auto simp: BACnetError_Is_def split: goerror.splits)

lemma errors_As_iff: "errors_As_BACnetError err = Some e \<longleftrightarrow> root_cause err = BACnetErr e"
  by (induction err) auto

lemma errors_As_None_iff: "errors_As_BACnetError err = None \<longleftrightarrow> (\<forall>e. root_cause err \<noteq> BACnetErr e)"
  by (induction err) auto

text \<open>
  C32: The error predicates look through any depth of wrapping: each is decided by the innermost
  error alone, by exactly the sentinel and the BACnet error codes it names (unknown-device 70,
  unknown-object 31, unknown-property 32, read- and write-access-denied 27 and 40).
\<close>

theorem error_predicates_by_root_cause:
  "IsTimeout err = (root_cause err = ErrTimeout) \<and>
   IsDeviceNotFound err = (root_cause err = ErrDeviceNotFound \<or>
     (\<exists>e. root_cause err = BACnetErr e \<and> (Code e = 70 \<or> Code e = 31))) \<and>
   IsPropertyNotFound err = (root_cause err = ErrPropertyNotFound \<or>
     (\<exists>e. root_cause err = BACnetErr e \<and> Code e = 32)) \<and>
   IsAccessDenied err = (\<exists>e. root_cause err = BACnetErr e \<and> (Code e = 27 \<or> Code e = 40))"
  by (auto simp: IsTimeout_def IsDeviceNotFound_def IsPropertyNotFound_def IsAccessDenied_def
      errors_Is_sentinel errors_As_iff errors_As_None_iff split: option.splits)

end
