(* ===== verification/Tag_Codec.thy ===== *)
theory Tag_Codec
  imports Bacnet_Errors
begin

text \<open>
  The tag layer of \<open>protocol.go\<close>: encoding and decoding of tag headers (class, number, length, with
  the extended forms), opening and closing tags, and the scalar payloads (unsigned, signed, real,
  double, boolean, enumerated, object identifier). The locale \<open>payload_codec\<close> is the contract of a
  scalar codec.
\<close>

section \<open>Tag headers\<close>

definition EncodeTag :: "uint8 \<Rightarrow> uint8 \<Rightarrow> int \<Rightarrow> bytes" where
  "EncodeTag tagNum class lngth =
     (if lngth < 5 \<and> tagNum < 15
      then [push_bit 4 tagNum OR push_bit 3 class OR word_of_int lngth]
      else
        let buf = (if tagNum \<ge> 15 then [0xF0 OR push_bit 3 class, tagNum]
                   else [push_bit 4 tagNum OR push_bit 3 class OR 0x05])
        in if lngth \<ge> 5
           then (if lngth < 254 then buf @ [word_of_int lngth]
                 else if lngth < 65536
                 then buf @ [254, int_byte_at 8 lngth, int_byte_at 0 lngth]
                 else buf @ [255, int_byte_at 24 lngth, int_byte_at 16 lngth,
                             int_byte_at 8 lngth, int_byte_at 0 lngth])
           else buf)"

definition EncodeContextTag :: "uint8 \<Rightarrow> bytes \<Rightarrow> bytes" where
  "EncodeContextTag tagNum data = EncodeTag tagNum TagClassContext (len data) @ data"

definition EncodeOpeningTag :: "uint8 \<Rightarrow> bytes" where
  "EncodeOpeningTag tagNum = (if tagNum < 15 then [push_bit 4 tagNum OR 0x0E] else [0xFE, tagNum])"

definition EncodeClosingTag :: "uint8 \<Rightarrow> bytes" where
  "EncodeClosingTag tagNum = (if tagNum < 15 then [push_bit 4 tagNum OR 0x0F] else [0xFF, tagNum])"

text \<open>
  \<open>DecodeTagNumber\<close> returns the tag number, the class, the length and the header length. The length
  is \<open>-1\<close> for an opening tag and \<open>-2\<close> for a closing tag. The extended length is read by the last
  part of the function, given here by its own name.
\<close>

definition DecodeExtendedLength :: "bytes \<Rightarrow> int \<Rightarrow> (int \<times> int) res go" where
  "DecodeExtendedLength data headerLen =
     (if len data < headerLen + 1 then ret (Err ErrInvalidAPDU)
      else do {
        l0 \<leftarrow> idx data headerLen;
        if l0 < 254 then ret (Ok (uint l0, headerLen + 1))
        else if l0 = 254 then
          (if len data < headerLen + 3 then ret (Err ErrInvalidAPDU)
           else do {
             d \<leftarrow> slice_from data (headerLen + 1);
             v \<leftarrow> BigEndian_Uint16 d;
             ret (Ok (uint v, headerLen + 3)) })
        else
          (if len data < headerLen + 5 then ret (Err ErrInvalidAPDU)
           else do {
             d \<leftarrow> slice_from data (headerLen + 1);
             v \<leftarrow> BigEndian_Uint32 d;
             ret (Ok (uint v, headerLen + 5)) }) })"

definition DecodeTagNumber :: "bytes \<Rightarrow> (uint8 \<times> uint8 \<times> int \<times> int) res go" where
  "DecodeTagNumber data =
     (if len data < 1 then ret (Err ErrInvalidAPDU)
      else do {
        d0 \<leftarrow> idx data 0;
        let num = drop_bit 4 d0 AND 0x0F;
        let class = drop_bit 3 d0 AND 0x01;
        let lngth = uint (d0 AND 0x07);
        if num = 0x0F \<and> len data < 2 then ret (Err ErrInvalidAPDU)
        else do {
          (tagNum, headerLen) \<leftarrow>
            (if num = 0x0F then do { d1 \<leftarrow> idx data 1; ret (d1, 2) } else ret (num, 1));
          if class = TagClassContext \<and> d0 AND 0x07 = 0x06
          then ret (Ok (tagNum, class, -1, headerLen))
          else if class = TagClassContext \<and> d0 AND 0x07 = 0x07
          then ret (Ok (tagNum, class, -2, headerLen))
          else if lngth = 5 then
            call (DecodeExtendedLength data headerLen) (\<lambda>e. ret (Err e))
              (\<lambda>(lngth, headerLen). ret (Ok (tagNum, class, lngth, headerLen)))
          else ret (Ok (tagNum, class, lngth, headerLen)) } })"

section \<open>Scalar payloads\<close>

definition EncodeUnsigned :: "uint32 \<Rightarrow> bytes" where
  "EncodeUnsigned v =
     (if v < 0x100 then [byte_at 0 v]
      else if v < 0x10000 then [byte_at 8 v, byte_at 0 v]
      else if v < 0x1000000 then [byte_at 16 v, byte_at 8 v, byte_at 0 v]
      else [byte_at 24 v, byte_at 16 v, byte_at 8 v, byte_at 0 v])"

definition EncodeUnsignedTag :: "uint32 \<Rightarrow> bytes" where
  "EncodeUnsignedTag v =
     (let data = EncodeUnsigned v in EncodeTag TagUnsignedInt TagClassApplication (len data) @ data)"

definition EncodeContextUnsigned :: "uint8 \<Rightarrow> uint32 \<Rightarrow> bytes" where
  "EncodeContextUnsigned tagNum v = EncodeContextTag tagNum (EncodeUnsigned v)"

text \<open>An \<open>int32\<close> is a 32-bit word read by \<open>sint\<close>; \<open>byte(value >> k)\<close> is a byte of its bit pattern.\<close>

definition EncodeSigned :: "32 word \<Rightarrow> bytes" where
  "EncodeSigned v =
     (if -128 \<le> sint v \<and> sint v < 128 then [byte_at 0 v]
      else if -32768 \<le> sint v \<and> sint v < 32768 then [byte_at 8 v, byte_at 0 v]
      else if -8388608 \<le> sint v \<and> sint v < 8388608 then [byte_at 16 v, byte_at 8 v, byte_at 0 v]
      else [byte_at 24 v, byte_at 16 v, byte_at 8 v, byte_at 0 v])"

text \<open>
  A \<open>float32\<close> or \<open>float64\<close> is its IEEE 754 bit pattern, what \<open>math.Float32bits\<close> and
  \<open>math.Float64bits\<close> return; the functions \<open>...frombits\<close> are their inverses.
\<close>

type_synonym float32 = uint32
type_synonym float64 = uint64

definition EncodeReal :: "float32 \<Rightarrow> bytes" where
  "EncodeReal bits = [byte_at 24 bits, byte_at 16 bits, byte_at 8 bits, byte_at 0 bits]"

definition EncodeRealTag :: "float32 \<Rightarrow> bytes" where
  "EncodeRealTag v = EncodeTag TagReal TagClassApplication 4 @ EncodeReal v"

definition EncodeDouble :: "float64 \<Rightarrow> bytes" where
  "EncodeDouble bits = PutUint64 bits"

definition EncodeBooleanTag :: "bool \<Rightarrow> bytes" where
  "EncodeBooleanTag v = (if v then [0x11] else [0x10])"

definition EncodeContextBoolean :: "uint8 \<Rightarrow> bool \<Rightarrow> bytes" where
  "EncodeContextBoolean tagNum v = EncodeContextTag tagNum [if v then 1 else 0]"

definition EncodeEnumerated :: "uint32 \<Rightarrow> bytes" where
  "EncodeEnumerated v = EncodeUnsigned v"

definition EncodeEnumeratedTag :: "uint32 \<Rightarrow> bytes" where
  "EncodeEnumeratedTag v =
     (let data = EncodeEnumerated v in EncodeTag TagEnumerated TagClassApplication (len data) @ data)"

definition EncodeContextEnumerated :: "uint8 \<Rightarrow> uint32 \<Rightarrow> bytes" where
  "EncodeContextEnumerated tagNum v = EncodeContextTag tagNum (EncodeEnumerated v)"

definition EncodeObjectIdentifier :: "ObjectIdentifier \<Rightarrow> bytes" where
  "EncodeObjectIdentifier oid =
     (let v = ObjectIdentifier_Encode oid in [byte_at 24 v, byte_at 16 v, byte_at 8 v, byte_at 0 v])"

definition EncodeObjectIdentifierTag :: "ObjectIdentifier \<Rightarrow> bytes" where
  "EncodeObjectIdentifierTag oid =
     EncodeTag TagObjectID TagClassApplication 4 @ EncodeObjectIdentifier oid"

definition EncodeContextObjectIdentifier :: "uint8 \<Rightarrow> ObjectIdentifier \<Rightarrow> bytes" where
  "EncodeContextObjectIdentifier tagNum oid = EncodeContextTag tagNum (EncodeObjectIdentifier oid)"

definition DecodeUnsigned :: "bytes \<Rightarrow> uint32" where
  "DecodeUnsigned data =
     (case data of
        [a] \<Rightarrow> ucast a
      | [a, b] \<Rightarrow> ucast (be16 a b)
      | [a, b, c] \<Rightarrow> be24 a b c
      | [a, b, c, d] \<Rightarrow> be32 a b c d
      | _ \<Rightarrow> 0)"

definition DecodeSigned :: "bytes \<Rightarrow> 32 word" where
  "DecodeSigned data =
     (case data of
        [a] \<Rightarrow> scast a
      | [a, b] \<Rightarrow> scast (be16 a b)
      | [a, b, c] \<Rightarrow>
          (let v = be24 a b c in if a AND 0x80 \<noteq> 0 then v OR 0xFF000000 else v)
      | [a, b, c, d] \<Rightarrow> be32 a b c d
      | _ \<Rightarrow> 0)"

definition DecodeReal :: "bytes \<Rightarrow> float32 go" where
  "DecodeReal data = (if len data \<noteq> 4 then ret 0 else BigEndian_Uint32 data)"

definition DecodeDouble :: "bytes \<Rightarrow> float64 go" where
  "DecodeDouble data = (if len data \<noteq> 8 then ret 0 else BigEndian_Uint64 data)"

definition DecodeObjectIdentifierFromBytes :: "bytes \<Rightarrow> ObjectIdentifier go" where
  "DecodeObjectIdentifierFromBytes data =
     (if len data \<noteq> 4 then ret \<lparr>OID_Type = 0, OID_Instance = 0\<rparr>
      else do { v \<leftarrow> BigEndian_Uint32 data; ret (DecodeObjectIdentifier v) })"

section \<open>The initial octet of a tag\<close>

lemma mask_byte:
  "b AND 0x0F = take_bit 4 b" "b AND 0x07 = take_bit 3 b" "b AND 0x01 = take_bit 1 b"
  for b :: byte
  by (simp_all add: take_bit_eq_mask mask_eq_exp_minus_1)

lemma octet_fields:
  fixes t c l :: byte
  assumes t: "t < 16" and c: "c < 2" and l: "l < 8"
  shows "drop_bit 4 (push_bit 4 t OR push_bit 3 c OR l) AND 0x0F = t"
    and "drop_bit 3 (push_bit 4 t OR push_bit 3 c OR l) AND 0x01 = c"
    and "(push_bit 4 t OR push_bit 3 c OR l) AND 0x07 = l"
proof -
  have tb: "bit t n \<Longrightarrow> n < 4" for n using bit_less_exp [of t 4 n] t by (simp add: word_less_nat_alt)
  have cb: "bit c n \<Longrightarrow> n < 1" for n using bit_less_exp [of c 1 n] c by (simp add: word_less_nat_alt)
  have lb: "bit l n \<Longrightarrow> n < 3" for n using bit_less_exp [of l 3 n] l by (simp add: word_less_nat_alt)
  note bits = mask_byte bit_simps
  show "drop_bit 4 (push_bit 4 t OR push_bit 3 c OR l) AND 0x0F = t"
    by (rule bit_word_eqI) (auto simp: bits dest: tb cb lb)
  show "drop_bit 3 (push_bit 4 t OR push_bit 3 c OR l) AND 0x01 = c"
    by (rule bit_word_eqI, simp only: mask_byte bit_take_bit_iff)
      (auto simp: bit_simps simp del: bit_0 dest: tb cb lb)
  show "(push_bit 4 t OR push_bit 3 c OR l) AND 0x07 = l"
    by (rule bit_word_eqI) (auto simp: bits dest: tb cb lb)
qed

lemma class_bit: "drop_bit 3 b AND 0x01 = 0 \<or> drop_bit 3 b AND 0x01 = (1 :: byte)"
  by (simp add: and_one_eq mod2_eq_if)

lemma low_bits_le: "-2 \<le> uint (b AND 0x07) \<and> uint (b AND 0x07) \<le> 7" for b :: byte
proof -
  have "b AND 0x07 \<le> 0x07" by (rule word_and_le1)
  then have "uint (b AND 0x07) \<le> 7" by (simp add: word_le_def)
  moreover have "0 \<le> uint (b AND 0x07)" by simp
  ultimately show ?thesis by linarith
qed

section \<open>Decoding a tag header never panics and stays inside the data\<close>

lemma DecodeExtendedLength_total [no_panic]:
  "0 \<le> h \<Longrightarrow> \<exists>r. DecodeExtendedLength data h = ret r"
  by (simp add: DecodeExtendedLength_def idx_Some slice_from_Some BigEndian_Uint16_def
      BigEndian_Uint32_def Let_def)

lemma uint_bounds: "uint (x :: byte) < 2 ^ 8" "uint (y :: uint16) < 2 ^ 16" "uint (z :: uint32) < 2 ^ 32"
  using unsigned_less [of x] unsigned_less [of y] unsigned_less [of z] by simp_all

lemma DecodeExtendedLength_bounds:
  assumes "DecodeExtendedLength data h = ret (Ok (l, h'))"
  shows "0 \<le> l \<and> l < 2 ^ 32 \<and> h < h' \<and> h' \<le> h + 5 \<and> h' \<le> len data"
proof -
  have b8: "uint (x :: byte) < 2 ^ 32" and b16: "uint (y :: uint16) < 2 ^ 32" for x y
    using uint_bounds(1) [of x] uint_bounds(2) [of y] by simp_all
  show ?thesis
    using assms b8 b16 uint_bounds(3)
    by (auto simp: DecodeExtendedLength_def bind_eq_Some_conv split: if_splits)
qed

lemma DecodeTagNumber_total [no_panic]: "\<exists>r. DecodeTagNumber data = ret r"
  by (auto simp: DecodeTagNumber_def Let_def idx_Some split: prod.splits intro!: call_total no_panic)

lemma DecodeTagNumber_bounds:
  assumes "DecodeTagNumber data = ret (Ok (t, c, l, h))"
  shows "1 \<le> h \<and> h \<le> len data \<and> h \<le> 7 \<and> -2 \<le> l \<and> l < 2 ^ 32 \<and>
         (c = TagClassApplication \<or> c = TagClassContext) \<and> (l < 0 \<longrightarrow> c = TagClassContext)"
proof -
  define d0 where "d0 = data ! 0"
  from assms show ?thesis
    using class_bit [of d0] low_bits_le [of d0]
    by (auto simp: DecodeTagNumber_def Let_def call_iff d0_def [symmetric]
      split: if_splits dest!: DecodeExtendedLength_bounds)
qed

section \<open>Tag headers round trip\<close>

lemma byte_15: "t \<noteq> 15" if "t < (15 :: byte)"
  using that by auto

lemma less_15_16: "t < (15 :: byte) \<Longrightarrow> t < 16"
  by (simp add: word_less_nat_alt)

lemma DecodeTagNumber_fields:
  assumes "drop_bit 4 b AND 0x0F = t" and "t \<noteq> 15" and "drop_bit 3 b AND 0x01 = c" and "b AND 0x07 = l"
  shows "DecodeTagNumber (b # rest) =
    (if c = TagClassContext \<and> l = 6 then ret (Ok (t, c, -1, 1))
     else if c = TagClassContext \<and> l = 7 then ret (Ok (t, c, -2, 1))
     else if uint l = 5 then
       call (DecodeExtendedLength (b # rest) 1) (\<lambda>e. ret (Err e))
         (\<lambda>(lngth, headerLen). ret (Ok (t, c, lngth, headerLen)))
     else ret (Ok (t, c, uint l, 1)))"
  using assms by (simp add: DecodeTagNumber_def Let_def)

lemmas DecodeTagNumber_octet =
  DecodeTagNumber_fields [OF octet_fields(1) _ octet_fields(2) octet_fields(3)]

lemma int_byte_at_word:
  "k + 8 \<le> 32 \<Longrightarrow> int_byte_at k l = byte_at k (word_of_int l :: uint32)"
  "k + 8 \<le> 16 \<Longrightarrow> int_byte_at k l = byte_at k (word_of_int l :: uint16)"
  by (rule bit_word_eqI, auto simp: int_byte_at_def byte_at_def bit_simps)+

lemma be_int_bytes16:
  "0 \<le> l \<Longrightarrow> l < 65536 \<Longrightarrow> uint (be16 (int_byte_at 8 l) (int_byte_at 0 l)) = l"
  by (simp add: int_byte_at_word(2) [of 8] int_byte_at_word(2) [of 0]
      uint_word_of_int take_bit_int_eq_self)

lemma be_int_bytes32:
  "0 \<le> l \<Longrightarrow> l < 4294967296 \<Longrightarrow>
     uint (be32 (int_byte_at 24 l) (int_byte_at 16 l) (int_byte_at 8 l) (int_byte_at 0 l)) = l"
  by (simp add: int_byte_at_word(1) [of 24] int_byte_at_word(1) [of 16] int_byte_at_word(1) [of 8]
      int_byte_at_word(1) [of 0] uint_word_of_int take_bit_int_eq_self)

lemma DecodeTagNumber_EncodeTag:
  assumes t: "t < 15" and c: "c < 2" and l: "0 \<le> l" "l < 2 ^ 32"
  shows "DecodeTagNumber (EncodeTag t c l @ rest) = ret (Ok (t, c, l, len (EncodeTag t c l)))"
proof -
  have nt: "\<not> 15 \<le> t" "t \<noteq> 15" "t < 16" using t byte_15 [OF t] less_15_16 [OF t] by auto
  consider "l < 5" | "5 \<le> l" "l < 254" | "254 \<le> l" "l < 65536" | "65536 \<le> l" by linarith
  then show ?thesis
  proof cases
    case 1
    have u: "uint (word_of_int l :: byte) = l"
      using l 1 by (simp add: uint_word_of_int take_bit_int_eq_self)
    have small: "(word_of_int l :: byte) < 8" "word_of_int l \<noteq> (5 :: byte)"
      "word_of_int l \<noteq> (6 :: byte)" "word_of_int l \<noteq> (7 :: byte)"
      using 1 u by (auto simp: word_less_def word_uint_eq_iff)
    then show ?thesis
      using 1 t c u nt by (simp add: EncodeTag_def DecodeTagNumber_octet)
  next
    case 2
    have u: "uint (word_of_int l :: byte) = l"
      using l 2 by (simp add: uint_word_of_int take_bit_int_eq_self)
    then have "(word_of_int l :: byte) < 254"
      using 2 by (simp add: word_less_def)
    then show ?thesis
      using 2 t c u nt by (simp add: EncodeTag_def Let_def DecodeTagNumber_octet DecodeExtendedLength_def)
  next
    case 3
    then show ?thesis
      using l t c nt be_int_bytes16 [of l]
      by (simp add: EncodeTag_def Let_def DecodeTagNumber_octet DecodeExtendedLength_def
          slice_from_Some BigEndian_Uint16_def)
  next
    case 4
    then show ?thesis
      using l t c nt be_int_bytes32 [of l]
      by (simp add: EncodeTag_def Let_def DecodeTagNumber_octet DecodeExtendedLength_def
          slice_from_Some BigEndian_Uint32_def)
  qed
qed

lemma DecodeTagNumber_Opening:
  assumes "t < 15"
  shows "DecodeTagNumber (EncodeOpeningTag t @ rest) = ret (Ok (t, TagClassContext, -1, 1))"
proof -
  have eq: "push_bit 4 t OR 0x0E = push_bit 4 t OR push_bit 3 (1 :: byte) OR 6"
    by simp
  have "DecodeTagNumber ((push_bit 4 t OR push_bit 3 1 OR 6) # rest) = ret (Ok (t, TagClassContext, -1, 1))"
    by (subst DecodeTagNumber_octet) (use less_15_16 [OF assms] byte_15 [OF assms] in simp_all)
  with assms show ?thesis
    by (simp only: EncodeOpeningTag_def eq if_True append_Cons append_Nil)
qed

lemma DecodeTagNumber_Closing:
  assumes "t < 15"
  shows "DecodeTagNumber (EncodeClosingTag t @ rest) = ret (Ok (t, TagClassContext, -2, 1))"
proof -
  have eq: "push_bit 4 t OR 0x0F = push_bit 4 t OR push_bit 3 (1 :: byte) OR 7"
    by simp
  have "DecodeTagNumber ((push_bit 4 t OR push_bit 3 1 OR 7) # rest) = ret (Ok (t, TagClassContext, -2, 1))"
    by (subst DecodeTagNumber_octet) (use less_15_16 [OF assms] byte_15 [OF assms] in simp_all)
  with assms show ?thesis
    by (simp only: EncodeClosingTag_def eq if_True append_Cons append_Nil)
qed

lemma len_EncodeOpeningClosing [wire_len, simp]:
  "t < 15 \<Longrightarrow> len (EncodeOpeningTag t) = 1" "t < 15 \<Longrightarrow> len (EncodeClosingTag t) = 1"
  by (simp_all add: EncodeOpeningTag_def EncodeClosingTag_def)

lemma len_EncodeTag_pos: "1 \<le> len (EncodeTag t c l)"
  by (simp add: EncodeTag_def Let_def)

lemma len_EncodeTag_short [wire_len]: "t < 15 \<Longrightarrow> l < 5 \<Longrightarrow> len (EncodeTag t c l) = 1"
  by (simp add: EncodeTag_def)

section \<open>Scalar payloads round trip\<close>

text \<open>
  The contract of a payload codec: on the valid values the decoder inverts the encoder, and the
  payload is short enough for a tag header. From it follow, once for all codecs, that the encoder
  is injective and that the tagged encodings are self-delimiting.
\<close>

lemma tagged_decode:
  assumes "t < 15" and "c < 2" and "len p < 2 ^ 32" and "h = len (EncodeTag t c (len p))"
  shows "DecodeTagNumber (EncodeTag t c (len p) @ p @ rest) = ret (Ok (t, c, len p, h))"
    and "slice (EncodeTag t c (len p) @ p @ rest) h (h + len p) = ret p"
    and "slice_from (EncodeTag t c (len p) @ p @ rest) (h + len p) = ret rest"
proof -
  show "DecodeTagNumber (EncodeTag t c (len p) @ p @ rest) = ret (Ok (t, c, len p, h))"
    using assms by (simp add: DecodeTagNumber_EncodeTag)
  show "slice (EncodeTag t c (len p) @ p @ rest) h (h + len p) = ret p"
    using assms(4) by (intro slice_append) simp_all
  have "slice_from ((EncodeTag t c (len p) @ p) @ rest) (h + len p) = ret rest"
    using assms(4) by (intro slice_from_append) simp
  then show "slice_from (EncodeTag t c (len p) @ p @ rest) (h + len p) = ret rest"
    by (simp only: append_assoc)
qed

locale payload_codec =
  fixes enc :: "'a \<Rightarrow> bytes" and dec :: "bytes \<Rightarrow> 'a option" and valid :: "'a \<Rightarrow> bool"
  assumes dec_enc: "valid x \<Longrightarrow> dec (enc x) = Some x"
    and enc_len: "valid x \<Longrightarrow> len (enc x) < 2 ^ 32"
begin

lemma enc_inj: "valid x \<Longrightarrow> valid y \<Longrightarrow> enc x = enc y \<longleftrightarrow> x = y"
  by (metis dec_enc option.inject)

lemma tagged_prefix_free:
  assumes "valid x" and "valid y" and "t < 15" and "c < 2"
    and eq: "EncodeTag t c (len (enc x)) @ enc x @ rest = EncodeTag t c (len (enc y)) @ enc y @ rest'"
  shows "x = y \<and> rest = rest'"
proof -
  define D where "D = EncodeTag t c (len (enc x)) @ enc x @ rest"
  have D': "D = EncodeTag t c (len (enc y)) @ enc y @ rest'" using eq by (simp only: D_def)
  note dx = tagged_decode [OF assms(3,4) enc_len [OF assms(1)] refl, of rest, folded D_def]
  note dy = tagged_decode [OF assms(3,4) enc_len [OF assms(2)] refl, of rest', folded D']
  from dx(1) dy(1) have same: "len (enc y) = len (enc x)"
    "len (EncodeTag t c (len (enc y))) = len (EncodeTag t c (len (enc x)))" by simp_all
  have "Some (enc x) = Some (enc y)"
    by (rule trans [OF dx(2) [symmetric] dy(2) [unfolded same(1)]])
  moreover have "Some rest = Some rest'"
    by (rule trans [OF dx(3) [symmetric] dy(3) [unfolded same(1)]])
  ultimately show ?thesis using assms(1,2) by (simp add: enc_inj)
qed

end

lemma DecodeUnsigned_Encode [simp]: "DecodeUnsigned (EncodeUnsigned v) = v"
  by (auto simp: EncodeUnsigned_def DecodeUnsigned_def word_less_nat_alt not_less
      ucast_byte ucast_be16_bytes be24_bytes)

lemma len_EncodeUnsigned: "1 \<le> len (EncodeUnsigned v) \<and> len (EncodeUnsigned v) \<le> 4"
  by (simp add: EncodeUnsigned_def)

text \<open>A signed value in the range of \<open>k\<close> bits is the sign extension of its low \<open>k\<close> bits.\<close>

lemma sint_low_byte: "sint (byte_at 0 v) = signed_take_bit 7 (sint v)" for v :: "32 word"
  by (simp add: byte_at_def sint_uint unsigned_ucast_eq signed_take_bit_take_bit)

lemma sint_low_half: "sint (be16 (byte_at 8 v) (byte_at 0 v)) = signed_take_bit 15 (sint v)"
  for v :: "32 word"
proof -
  have "be16 (byte_at 8 v) (byte_at 0 v) = ucast v"
    by (rule bit_word_eqI) (auto simp: bit_be bit_simps)
  then show ?thesis
    by (simp add: sint_uint unsigned_ucast_eq signed_take_bit_take_bit)
qed

lemma sext_low_byte:
  fixes v :: "32 word"
  assumes "-128 \<le> sint v" and "sint v < 128"
  shows "scast (byte_at 0 v) = v"
proof -
  have "signed_take_bit 7 (sint v) = sint v"
    using assms by (intro signed_take_bit_int_eq_self) simp_all
  then have "scast (byte_at 0 v) = (word_of_int (sint v) :: 32 word)"
    by (simp only: scast_eq sint_low_byte)
  then show ?thesis by simp
qed

lemma sext_low_half:
  fixes v :: "32 word"
  assumes "-32768 \<le> sint v" and "sint v < 32768"
  shows "scast (be16 (byte_at 8 v) (byte_at 0 v)) = v"
proof -
  have "signed_take_bit 15 (sint v) = sint v"
    using assms by (intro signed_take_bit_int_eq_self) simp_all
  then have "scast (be16 (byte_at 8 v) (byte_at 0 v)) = (word_of_int (sint v) :: 32 word)"
    by (simp only: scast_eq sint_low_half)
  then show ?thesis by simp
qed

lemma sign_bits_24:
  fixes v :: "32 word"
  assumes "-8388608 \<le> sint v" and "sint v < 8388608" and "23 < n" and "n < 32"
  shows "bit v n = bit v 23"
proof -
  have "signed_take_bit 23 (sint v) = sint v"
    using assms(1,2) by (intro signed_take_bit_int_eq_self) simp_all
  then have "bit (sint v) n = bit (sint v) 23"
    using assms(3) by (metis bit_signed_take_bit_iff min_def nless_le possible_bit_int)
  then show ?thesis using assms(3,4) by (simp add: bit_simps)
qed

lemma and_80_iff: "b AND 0x80 = 0 \<longleftrightarrow> \<not> bit b 7" for b :: byte
  using and_exp_eq_0_iff_not_bit [of b 7] by simp

lemma sign_extend_24:
  fixes v :: "32 word"
  assumes "-8388608 \<le> sint v" and "sint v < 8388608"
  shows "(let w = be24 (byte_at 16 v) (byte_at 8 v) (byte_at 0 v)
          in if byte_at 16 v AND 0x80 \<noteq> 0 then w OR 0xFF000000 else w) = v"
proof -
  have ones: "bit (0xFF000000 :: 32 word) n \<longleftrightarrow> 24 \<le> n \<and> n < 32" for n
  proof -
    have "(0xFF000000 :: 32 word) = push_bit 24 (mask 8)" by (simp add: mask_eq_exp_minus_1)
    then have "bit (0xFF000000 :: 32 word) n \<longleftrightarrow> bit (push_bit 24 (mask 8) :: 32 word) n"
      by (simp only:)
    then show ?thesis by (auto simp: bit_push_bit_iff bit_mask_iff)
  qed
  have sign: "byte_at 16 v AND 0x80 \<noteq> 0 \<longleftrightarrow> bit v 23"
    by (simp add: and_80_iff bit_byte_at)
  have low: "bit (be24 (byte_at 16 v) (byte_at 8 v) (byte_at 0 v)) n \<longleftrightarrow> n < 24 \<and> bit v n" for n
    by (auto simp: bit_be)
  have high: "bit v n = bit v 23" if "\<not> n < 24" "n < 32" for n
    using sign_bits_24 [OF assms, of n] that by simp
  show ?thesis
    unfolding Let_def sign
  proof (rule bit_word_eqI)
    fix n assume n: "n < LENGTH(32)"
    show "bit (if bit v 23 then be24 (byte_at 16 v) (byte_at 8 v) (byte_at 0 v) OR 0xFF000000
        else be24 (byte_at 16 v) (byte_at 8 v) (byte_at 0 v)) n = bit v n"
      using high [of n] n
      by (cases "bit v 23"; cases "n < 24") (simp_all only: if_True if_False bit_or_iff low ones, simp_all)
  qed
qed

lemma DecodeSigned_Encode [simp]: "DecodeSigned (EncodeSigned v) = v"
proof -
  consider "-128 \<le> sint v \<and> sint v < 128" | "\<not> (-128 \<le> sint v \<and> sint v < 128)" "-32768 \<le> sint v \<and> sint v < 32768"
    | "\<not> (-128 \<le> sint v \<and> sint v < 128)" "\<not> (-32768 \<le> sint v \<and> sint v < 32768)"
      "-8388608 \<le> sint v \<and> sint v < 8388608"
    | "\<not> (-128 \<le> sint v \<and> sint v < 128)" "\<not> (-32768 \<le> sint v \<and> sint v < 32768)"
      "\<not> (-8388608 \<le> sint v \<and> sint v < 8388608)"
    by blast
  then show ?thesis
  proof cases
    case 1
    then show ?thesis
      by (simp add: EncodeSigned_def DecodeSigned_def sext_low_byte)
  next
    case 2
    then show ?thesis
      by (simp only: EncodeSigned_def DecodeSigned_def if_True if_False simp_thms list.case sext_low_half)
  next
    case 3
    then have "EncodeSigned v = [byte_at 16 v, byte_at 8 v, byte_at 0 v]"
      by (simp only: EncodeSigned_def if_True if_False simp_thms)
    with 3 sign_extend_24 [of v] show ?thesis
      by (simp only: DecodeSigned_def list.case)
  next
    case 4
    then show ?thesis
      by (simp only: EncodeSigned_def DecodeSigned_def if_False list.case be32_bytes)
  qed
qed

lemma len_EncodeSigned: "1 \<le> len (EncodeSigned v) \<and> len (EncodeSigned v) \<le> 4"
  by (simp add: EncodeSigned_def)

lemma DecodeReal_Encode [simp]: "DecodeReal (EncodeReal v) = ret v"
  by (simp add: DecodeReal_def EncodeReal_def BigEndian_Uint32_def)

lemma DecodeDouble_Encode [simp]: "DecodeDouble (EncodeDouble v) = ret v"
  by (simp add: DecodeDouble_def EncodeDouble_def)

lemma len_Encode_fixed [wire_len, simp]:
  "len (EncodeReal r) = 4" "len (EncodeDouble d) = 8" "len (EncodeObjectIdentifier oid) = 4"
  by (simp_all add: EncodeReal_def EncodeDouble_def EncodeObjectIdentifier_def Let_def)

lemma BigEndian_EncodeObjectIdentifier [simp]:
  "BigEndian_Uint32 (EncodeObjectIdentifier oid) = ret (ObjectIdentifier_Encode oid)"
  by (simp add: EncodeObjectIdentifier_def BigEndian_Uint32_def Let_def)

lemma DecodeObjectIdentifierFromBytes_Encode:
  "oid_wire oid \<Longrightarrow> DecodeObjectIdentifierFromBytes (EncodeObjectIdentifier oid) = ret oid"
  by (simp add: DecodeObjectIdentifierFromBytes_def DecodeObjectIdentifier_Encode)

interpretation unsignedInt: payload_codec EncodeUnsigned "\<lambda>b. Some (DecodeUnsigned b)" "\<lambda>_. True"
proof unfold_locales
  fix x show "len (EncodeUnsigned x) < 2 ^ 32" using len_EncodeUnsigned [of x] by simp
qed simp

interpretation signedInt: payload_codec EncodeSigned "\<lambda>b. Some (DecodeSigned b)" "\<lambda>_. True"
proof unfold_locales
  fix x show "len (EncodeSigned x) < 2 ^ 32" using len_EncodeSigned [of x] by simp
qed simp

interpretation real: payload_codec EncodeReal DecodeReal "\<lambda>_. True"
  by unfold_locales simp_all

interpretation double: payload_codec EncodeDouble DecodeDouble "\<lambda>_. True"
  by unfold_locales simp_all

interpretation objectId: payload_codec EncodeObjectIdentifier DecodeObjectIdentifierFromBytes oid_wire
  by unfold_locales (simp_all add: DecodeObjectIdentifierFromBytes_Encode)

section \<open>Properties\<close>

text \<open>
  C19: Decoding a tag header never panics, whatever the bytes; when it succeeds, the header lies
  inside the data, is one to seven bytes long, the class is application or context, the length is
  below \<open>2 ^ 32\<close>, and the negative sentinels (opening and closing tag) occur with the context class
  only.
\<close>

theorem DecodeTagNumber_safe:
  "\<exists>r. DecodeTagNumber data = ret r \<and>
     (\<forall>t c l h. r = Ok (t, c, l, h) \<longrightarrow>
        1 \<le> h \<and> h \<le> 7 \<and> h \<le> len data \<and> -2 \<le> l \<and> l < 2 ^ 32 \<and>
        (c = TagClassApplication \<or> c = TagClassContext) \<and> (l < 0 \<longrightarrow> c = TagClassContext))"
  using DecodeTagNumber_total [of data] DecodeTagNumber_bounds [of data] by (metis Inr_inject)

theorem DecodeTagNumber_safe_witness:
  "DecodeTagNumber [0x3E, 0x44] = ret (Ok (3, TagClassContext, -1, 1)) \<and>
   (1::int) \<le> len [0x3E, 0x44 :: byte]"
proof -
  have d: "DecodeTagNumber [0x3E, 0x44] = ret (Ok (3, TagClassContext, -1, 1))"
    by (simp add: DecodeTagNumber_def)
  with DecodeTagNumber_safe [of "[0x3E, 0x44]"] show ?thesis by auto
qed

text \<open>
  C18: Tag headers round trip for every tag number below 15, both classes and every length that four
  bytes can hold, whatever follows: decoding what \<open>EncodeTag\<close> wrote gives the number, class and
  length back, with the number of bytes written as header length; opening and closing tags decode
  to their sentinels.
\<close>

theorem tag_header_roundtrip:
  assumes "t < 15" and "c = TagClassApplication \<or> c = TagClassContext" and "0 \<le> l" and "l < 2 ^ 32"
  shows "DecodeTagNumber (EncodeTag t c l @ rest) = ret (Ok (t, c, l, len (EncodeTag t c l))) \<and>
    DecodeTagNumber (EncodeOpeningTag t @ rest) = ret (Ok (t, TagClassContext, -1, 1)) \<and>
    DecodeTagNumber (EncodeClosingTag t @ rest) = ret (Ok (t, TagClassContext, -2, 1))"
  using assms by (auto simp: DecodeTagNumber_EncodeTag DecodeTagNumber_Opening DecodeTagNumber_Closing)

theorem tag_header_roundtrip_witness:
  "DecodeTagNumber (EncodeTag 7 TagClassApplication 300 @ [1, 2]) =
     ret (Ok (7, TagClassApplication, 300, 4))"
  using tag_header_roundtrip [of 7 TagClassApplication 300 "[1, 2]"]
  by (simp add: EncodeTag_def)

lemma extended_octet_fields:
  "drop_bit 4 (0xF0 OR push_bit 3 c) AND 0x0F = (15 :: byte)"
  "drop_bit 3 (0xF0 OR push_bit 3 c) AND 0x01 = c" "(0xF0 OR push_bit 3 c) AND 0x07 = (0 :: byte)"
  if "c = 0 \<or> c = (1 :: byte)"
  using that by auto

text \<open>
  For tag numbers from 15 on \<open>EncodeTag\<close> loses the length: the initial octet it writes has length
  bits 0 in place of the length or of the marker 5, so decoding reports length 0 and a two-byte
  header for every length.
\<close>

theorem EncodeTag_extended_number_loses_length:
  assumes "t \<ge> 15" and "c = TagClassApplication \<or> c = TagClassContext"
  shows "DecodeTagNumber (EncodeTag t c l @ rest) = ret (Ok (t, c, 0, 2))"
proof -
  have "\<exists>zs. EncodeTag t c l @ rest = (0xF0 OR push_bit 3 c) # t # zs"
    using assms(1) by (auto simp: EncodeTag_def Let_def)
  then obtain zs where enc: "EncodeTag t c l @ rest = (0xF0 OR push_bit 3 c) # t # zs" ..
  show ?thesis
    unfolding enc using extended_octet_fields [OF assms(2)]
    by (simp add: DecodeTagNumber_def Let_def)
qed

theorem EncodeTag_extended_number_loses_length_witness:
  "DecodeTagNumber (EncodeContextTag 20 [1, 2, 3]) = ret (Ok (20, TagClassContext, 0, 2))"
  using EncodeTag_extended_number_loses_length [of 20 TagClassContext 3 "[1, 2, 3]"]
  by (simp add: EncodeContextTag_def)

text \<open>
  C20: The scalar codecs round trip on every value: unsigned and signed integers of each width with
  their sign, the bit patterns of reals and doubles, and every object identifier whose type and
  instance fit their 10 and 22 bits.
\<close>

theorem scalar_payloads_roundtrip:
  "DecodeUnsigned (EncodeUnsigned u) = u \<and> DecodeSigned (EncodeSigned i) = i \<and>
   DecodeReal (EncodeReal r) = ret r \<and> DecodeDouble (EncodeDouble d) = ret d \<and>
   (unat (OID_Type oid) < 2 ^ 10 \<and> unat (OID_Instance oid) < 2 ^ 22 \<longrightarrow>
      DecodeObjectIdentifierFromBytes (EncodeObjectIdentifier oid) = ret oid)"
  by (simp add: DecodeObjectIdentifierFromBytes_Encode oid_wire_def)

theorem scalar_payloads_roundtrip_witness:
  "DecodeObjectIdentifierFromBytes (EncodeObjectIdentifier \<lparr>OID_Type = 8, OID_Instance = 1234\<rparr>) =
     ret \<lparr>OID_Type = 8, OID_Instance = 1234\<rparr>"
  using scalar_payloads_roundtrip [of 0 0 0 0 "\<lparr>OID_Type = 8, OID_Instance = 1234\<rparr>"] by simp

text \<open>
  Tagged scalars are self-delimiting: if two streams that start with tagged integers (or object
  identifiers that fit the wire) under the same tag are equal, the values are equal and so is what
  follows. No tagged encoding is a proper prefix of another.
\<close>

theorem tagged_scalars_self_delimiting:
  assumes "EncodeContextUnsigned t u @ rest = EncodeContextUnsigned t u' @ rest'" and "t < 15"
    and "EncodeContextObjectIdentifier s oid @ zs = EncodeContextObjectIdentifier s oid' @ zs'"
    and "s < 15" and "oid_wire oid" and "oid_wire oid'"
  shows "u = u' \<and> rest = rest' \<and> oid = oid' \<and> zs = zs'"
  using unsignedInt.tagged_prefix_free [where x = u and y = u' and t = t and c = TagClassContext and rest = rest and rest' = rest']
    objectId.tagged_prefix_free [where x = oid and y = oid' and t = s and c = TagClassContext and rest = zs and rest' = zs'] assms
  by (simp add: EncodeContextUnsigned_def EncodeContextObjectIdentifier_def EncodeContextTag_def)

theorem tagged_scalars_self_delimiting_witness:
  "EncodeContextUnsigned 2 300 @ [7] = EncodeContextUnsigned 2 300 @ [7] \<and> (300 :: uint32) = 300"
  using tagged_scalars_self_delimiting [of 2 300 "[7]" 300 "[7]" 0 "\<lparr>OID_Type = 8, OID_Instance = 1\<rparr>" "[]"
      "\<lparr>OID_Type = 8, OID_Instance = 1\<rparr>" "[]"]
  by (simp add: oid_wire_def)

end
