(* ===== verification/Framing.thy ===== *)
theory Framing
  imports Tag_Codec
begin

text \<open>
  The three nested headers of a BACnet/IP packet, from \<open>protocol.go\<close>: the BVLC header, the NPDU
  (network layer) and the APDU (application layer), with their encoders and decoders, and the two
  packets the client builds from them.
\<close>

section \<open>BVLC\<close>

record BVLCHeader =
  BVLC_Type :: uint8
  BVLC_Function :: uint8
  BVLC_Length :: uint16

definition EncodeBVLC :: "uint8 \<Rightarrow> int \<Rightarrow> bytes" where
  "EncodeBVLC function npduLength =
     (let totalLength = 4 + npduLength
      in [BVLCTypeBACnetIP, function] @ PutUint16 (word_of_int totalLength))"

definition DecodeBVLC :: "bytes \<Rightarrow> BVLCHeader res go" where
  "DecodeBVLC data =
     (if len data < 4 then ret (Err ErrInvalidBVLC)
      else do {
        t \<leftarrow> idx data 0;
        f \<leftarrow> idx data 1;
        d \<leftarrow> slice data 2 4;
        l \<leftarrow> BigEndian_Uint16 d;
        ret (Ok \<lparr>BVLC_Type = t, BVLC_Function = f, BVLC_Length = l\<rparr>) })"

section \<open>NPDU\<close>

record NPDU =
  Version :: uint8
  Control :: uint8
  DestNet :: uint16
  DestAddr :: bytes
  DestHopCount :: uint8
  SrcNet :: uint16
  SrcAddr :: bytes
  MessageType :: uint8
  NPDU_VendorID :: uint16
  NPDU_Data :: bytes

definition EncodeNPDU :: "bool \<Rightarrow> uint8 \<Rightarrow> bytes" where
  "EncodeNPDU expectingReply priority =
     (let control = (if expectingReply then priority OR NPDUControlExpectingReply else priority)
      in [0x01, control])"

definition EncodeNPDUWithDest :: "uint16 \<Rightarrow> bytes \<Rightarrow> uint8 \<Rightarrow> bool \<Rightarrow> uint8 \<Rightarrow> bytes" where
  "EncodeNPDUWithDest destNet destAddr hopCount expectingReply priority =
     (let control0 = priority OR NPDUControlDestSpecifier;
          control = (if expectingReply then control0 OR NPDUControlExpectingReply else control0)
      in [0x01, control] @ [byte_at 8 destNet, byte_at 0 destNet] @
         [word_of_int (len destAddr)] @ destAddr @ [hopCount])"

definition decodeNPDUDest :: "bytes \<Rightarrow> NPDU \<Rightarrow> int \<Rightarrow> (NPDU \<times> int) res go" where
  "decodeNPDUDest data npdu offset =
     (if Control npdu AND NPDUControlDestSpecifier \<noteq> 0 then
        (if len data < offset + 3 then ret (Err ErrInvalidNPDU)
         else do {
           d \<leftarrow> slice_from data offset;
           net \<leftarrow> BigEndian_Uint16 d;
           let offset = offset + 2;
           a \<leftarrow> idx data offset;
           let addrLen = uint a;
           let offset = offset + 1;
           if len data < offset + addrLen + 1 then ret (Err ErrInvalidNPDU)
           else do {
             addr \<leftarrow> slice data offset (offset + addrLen);
             let offset = offset + addrLen;
             hop \<leftarrow> idx data offset;
             ret (Ok (npdu\<lparr>DestNet := net, DestAddr := addr, DestHopCount := hop\<rparr>, offset + 1)) } })
      else ret (Ok (npdu, offset)))"

definition decodeNPDUSource :: "bytes \<Rightarrow> NPDU \<Rightarrow> int \<Rightarrow> (NPDU \<times> int) res go" where
  "decodeNPDUSource data npdu offset =
     (if Control npdu AND NPDUControlSourceSpecifier \<noteq> 0 then
        (if len data < offset + 3 then ret (Err ErrInvalidNPDU)
         else do {
           d \<leftarrow> slice_from data offset;
           net \<leftarrow> BigEndian_Uint16 d;
           let offset = offset + 2;
           a \<leftarrow> idx data offset;
           let addrLen = uint a;
           let offset = offset + 1;
           if len data < offset + addrLen then ret (Err ErrInvalidNPDU)
           else do {
             addr \<leftarrow> slice data offset (offset + addrLen);
             ret (Ok (npdu\<lparr>SrcNet := net, SrcAddr := addr\<rparr>, offset + addrLen)) } })
      else ret (Ok (npdu, offset)))"

definition decodeNPDUMessage :: "bytes \<Rightarrow> NPDU \<Rightarrow> int \<Rightarrow> (NPDU \<times> int) res go" where
  "decodeNPDUMessage data npdu offset =
     (if Control npdu AND NPDUControlNetworkLayerMessage \<noteq> 0 then
        (if len data < offset + 1 then ret (Err ErrInvalidNPDU)
         else do {
           m \<leftarrow> idx data offset;
           let npdu = npdu\<lparr>MessageType := m\<rparr>;
           let offset = offset + 1;
           if m \<ge> 0x80 then
             (if len data < offset + 2 then ret (Err ErrInvalidNPDU)
              else do {
                d \<leftarrow> slice_from data offset;
                v \<leftarrow> BigEndian_Uint16 d;
                ret (Ok (npdu\<lparr>NPDU_VendorID := v\<rparr>, offset + 2)) })
           else ret (Ok (npdu, offset)) })
      else ret (Ok (npdu, offset)))"

definition DecodeNPDU :: "bytes \<Rightarrow> (NPDU \<times> int) res go" where
  "DecodeNPDU data =
     (if len data < 2 then ret (Err ErrInvalidNPDU)
      else do {
        v \<leftarrow> idx data 0;
        c \<leftarrow> idx data 1;
        let npdu = \<lparr>Version = v, Control = c, DestNet = 0, DestAddr = [], DestHopCount = 0,
                    SrcNet = 0, SrcAddr = [], MessageType = 0, NPDU_VendorID = 0, NPDU_Data = []\<rparr>;
        if v \<noteq> 0x01
        then ret (Err (Wrapped (Error ErrInvalidNPDU @ '': unsupported version '' @ fmt_d (unat v))
                         ErrInvalidNPDU))
        else
          call (decodeNPDUDest data npdu 2) (\<lambda>e. ret (Err e)) (\<lambda>(npdu, offset).
          call (decodeNPDUSource data npdu offset) (\<lambda>e. ret (Err e)) (\<lambda>(npdu, offset).
          call (decodeNPDUMessage data npdu offset) (\<lambda>e. ret (Err e)) (\<lambda>(npdu, offset).
          do {
            d \<leftarrow> slice_from data offset;
            ret (Ok (npdu\<lparr>NPDU_Data := d\<rparr>, offset)) }))) })"

section \<open>APDU\<close>

record APDU =
  APDU_Type :: uint8
  Segmented :: bool
  MoreFollows :: bool
  SegmentedAck :: bool
  MaxSegments :: uint8
  MaxAPDU :: uint8
  InvokeID :: uint8
  SequenceNum :: uint8
  WindowSize :: uint8
  Service :: uint8
  APDU_Data :: bytes

definition APDU_zero :: APDU where
  "APDU_zero =
     \<lparr>APDU_Type = 0, Segmented = False, MoreFollows = False, SegmentedAck = False, MaxSegments = 0,
      MaxAPDU = 0, InvokeID = 0, SequenceNum = 0, WindowSize = 0, Service = 0, APDU_Data = []\<rparr>"

definition EncodeConfirmedRequest :: "uint8 \<Rightarrow> uint8 \<Rightarrow> bytes \<Rightarrow> uint8 \<Rightarrow> uint8 \<Rightarrow> bytes" where
  "EncodeConfirmedRequest invokeID service data maxSegments maxAPDU =
     [PDUTypeConfirmedRequest] @ [push_bit 4 maxSegments OR maxAPDU] @ [invokeID] @ [service] @ data"

definition EncodeUnconfirmedRequest :: "uint8 \<Rightarrow> bytes \<Rightarrow> bytes" where
  "EncodeUnconfirmedRequest service data = [PDUTypeUnconfirmedRequest] @ [service] @ data"

definition decodeConfirmedRequest :: "bytes \<Rightarrow> APDU res go" where
  "decodeConfirmedRequest data =
     (if len data < 4 then ret (Err ErrInvalidAPDU)
      else do {
        d0 \<leftarrow> idx data 0; d1 \<leftarrow> idx data 1; d2 \<leftarrow> idx data 2; d3 \<leftarrow> idx data 3;
        rest \<leftarrow> slice_from data 4;
        let apdu = APDU_zero\<lparr>APDU_Type := PDUTypeConfirmedRequest,
              Segmented := d0 AND 0x08 \<noteq> 0, MoreFollows := d0 AND 0x04 \<noteq> 0,
              MaxSegments := drop_bit 4 d1 AND 0x07, MaxAPDU := d1 AND 0x0F,
              InvokeID := d2, Service := d3, APDU_Data := rest\<rparr>;
        if Segmented apdu then
          (if len data < 6 then ret (Err ErrInvalidAPDU)
           else do {
             s \<leftarrow> idx data 4; w \<leftarrow> idx data 5; rest \<leftarrow> slice_from data 6;
             ret (Ok (apdu\<lparr>SequenceNum := s, WindowSize := w, APDU_Data := rest\<rparr>)) })
        else ret (Ok apdu) })"

definition decodeUnconfirmedRequest :: "bytes \<Rightarrow> APDU res go" where
  "decodeUnconfirmedRequest data =
     (if len data < 2 then ret (Err ErrInvalidAPDU)
      else do {
        d1 \<leftarrow> idx data 1;
        rest \<leftarrow> slice_from data 2;
        ret (Ok (APDU_zero\<lparr>APDU_Type := PDUTypeUnconfirmedRequest, Service := d1, APDU_Data := rest\<rparr>)) })"

definition decodeSimpleAck :: "bytes \<Rightarrow> APDU res go" where
  "decodeSimpleAck data =
     (if len data < 3 then ret (Err ErrInvalidAPDU)
      else do {
        d1 \<leftarrow> idx data 1; d2 \<leftarrow> idx data 2;
        ret (Ok (APDU_zero\<lparr>APDU_Type := PDUTypeSimpleAck, InvokeID := d1, Service := d2\<rparr>)) })"

definition decodeComplexAck :: "bytes \<Rightarrow> APDU res go" where
  "decodeComplexAck data =
     (if len data < 3 then ret (Err ErrInvalidAPDU)
      else do {
        d0 \<leftarrow> idx data 0; d1 \<leftarrow> idx data 1; d2 \<leftarrow> idx data 2;
        rest \<leftarrow> slice_from data 3;
        let apdu = APDU_zero\<lparr>APDU_Type := PDUTypeComplexAck,
              Segmented := d0 AND 0x08 \<noteq> 0, MoreFollows := d0 AND 0x04 \<noteq> 0,
              InvokeID := d1, Service := d2, APDU_Data := rest\<rparr>;
        if Segmented apdu then
          (if len data < 5 then ret (Err ErrInvalidAPDU)
           else do {
             s \<leftarrow> idx data 3; w \<leftarrow> idx data 4; rest \<leftarrow> slice_from data 5;
             ret (Ok (apdu\<lparr>SequenceNum := s, WindowSize := w, APDU_Data := rest\<rparr>)) })
        else ret (Ok apdu) })"

definition decodeErrorAPDU :: "bytes \<Rightarrow> APDU res go" where
  "decodeErrorAPDU data =
     (if len data < 3 then ret (Err ErrInvalidAPDU)
      else do {
        d1 \<leftarrow> idx data 1; d2 \<leftarrow> idx data 2; rest \<leftarrow> slice_from data 3;
        ret (Ok (APDU_zero\<lparr>APDU_Type := PDUTypeError, InvokeID := d1, Service := d2,
                           APDU_Data := rest\<rparr>)) })"

definition decodeRejectAPDU :: "bytes \<Rightarrow> APDU res go" where
  "decodeRejectAPDU data =
     (if len data < 3 then ret (Err ErrInvalidAPDU)
      else do {
        d1 \<leftarrow> idx data 1; d2 \<leftarrow> idx data 2;
        ret (Ok (APDU_zero\<lparr>APDU_Type := PDUTypeReject, InvokeID := d1, Service := d2\<rparr>)) })"

definition decodeAbortAPDU :: "bytes \<Rightarrow> APDU res go" where
  "decodeAbortAPDU data =
     (if len data < 3 then ret (Err ErrInvalidAPDU)
      else do {
        d1 \<leftarrow> idx data 1; d2 \<leftarrow> idx data 2;
        ret (Ok (APDU_zero\<lparr>APDU_Type := PDUTypeAbort, InvokeID := d1, Service := d2\<rparr>)) })"

definition DecodeAPDU :: "bytes \<Rightarrow> APDU res go" where
  "DecodeAPDU data =
     (if len data < 1 then ret (Err ErrInvalidAPDU)
      else do {
        d0 \<leftarrow> idx data 0;
        let t = d0 AND 0xF0;
        if t = PDUTypeConfirmedRequest then decodeConfirmedRequest data
        else if t = PDUTypeUnconfirmedRequest then decodeUnconfirmedRequest data
        else if t = PDUTypeSimpleAck then decodeSimpleAck data
        else if t = PDUTypeComplexAck then decodeComplexAck data
        else if t = PDUTypeError then decodeErrorAPDU data
        else if t = PDUTypeReject then decodeRejectAPDU data
        else if t = PDUTypeAbort then decodeAbortAPDU data
        else ret (Err (Wrapped (Error ErrInvalidAPDU @ '': unknown PDU type '' @ fmt_02x t)
                         ErrInvalidAPDU)) })"

section \<open>The header decoders never panic\<close>

lemma DecodeBVLC_total [no_panic]: "\<exists>r. DecodeBVLC data = ret r"
  by (simp add: DecodeBVLC_def idx_Some slice_Some BigEndian_Uint16_def)

lemma uint_byte_nonneg [simp]: "0 \<le> uint (b :: byte)"
  by simp

lemma decodeNPDUDest_total [no_panic]: "0 \<le> off \<Longrightarrow> \<exists>r. decodeNPDUDest data npdu off = ret r"
  by (simp add: decodeNPDUDest_def Let_def idx_def slice_def slice_from_def BigEndian_Uint16_def)

lemma decodeNPDUSource_total [no_panic]: "0 \<le> off \<Longrightarrow> \<exists>r. decodeNPDUSource data npdu off = ret r"
  by (simp add: decodeNPDUSource_def Let_def idx_def slice_def slice_from_def BigEndian_Uint16_def)

lemma decodeNPDUMessage_total [no_panic]: "0 \<le> off \<Longrightarrow> \<exists>r. decodeNPDUMessage data npdu off = ret r"
  by (simp add: decodeNPDUMessage_def Let_def idx_def slice_def slice_from_def BigEndian_Uint16_def)

text \<open>Each stage of \<open>DecodeNPDU\<close> moves the offset forward, never past the end of the data.\<close>

lemma decodeNPDU_stage_bounds:
  assumes "0 \<le> off" and "off \<le> len data"
  shows "decodeNPDUDest data npdu off = ret (Ok (n1, o1)) \<Longrightarrow> off \<le> o1 \<and> o1 \<le> len data \<and> Control n1 = Control npdu"
    and "decodeNPDUSource data npdu off = ret (Ok (n1, o1)) \<Longrightarrow> off \<le> o1 \<and> o1 \<le> len data \<and> Control n1 = Control npdu"
    and "decodeNPDUMessage data npdu off = ret (Ok (n1, o1)) \<Longrightarrow> off \<le> o1 \<and> o1 \<le> len data \<and> Control n1 = Control npdu"
  using assms
  by (auto simp: decodeNPDUDest_def decodeNPDUSource_def decodeNPDUMessage_def Let_def call_iff
      add_nonneg_nonneg split: if_splits)

lemma DecodeNPDU_total [no_panic]: "\<exists>r. DecodeNPDU data = ret r"
proof (cases "len data < 2")
  case False
  then have two: "0 \<le> (2::int)" "2 \<le> len data" by simp_all
  show ?thesis
    using False
    by (auto simp: DecodeNPDU_def Let_def idx_def slice_from_Some split: prod.splits
        intro!: call_total no_panic dest!: decodeNPDU_stage_bounds [OF two, rotated]
        decodeNPDU_stage_bounds [rotated 2])
qed (simp add: DecodeNPDU_def)

lemma DecodeNPDU_bounds:
  assumes "DecodeNPDU data = ret (Ok (npdu, off))"
  shows "2 \<le> off \<and> off \<le> len data \<and> NPDU_Data npdu = drop (nat off) data \<and>
         Control npdu = data ! 1 \<and> data ! 0 = 1"
  using assms
  by (auto simp: DecodeNPDU_def Let_def call_iff split: if_splits
      dest!: decodeNPDU_stage_bounds(1) [rotated 2] decodeNPDU_stage_bounds(2) [rotated 2]
        decodeNPDU_stage_bounds(3) [rotated 2])

lemmas decodeAPDU_defs = decodeConfirmedRequest_def decodeUnconfirmedRequest_def decodeSimpleAck_def
  decodeComplexAck_def decodeErrorAPDU_def decodeRejectAPDU_def decodeAbortAPDU_def

lemma decode_pdu_total [no_panic]:
  "\<exists>r. decodeConfirmedRequest data = ret r" "\<exists>r. decodeUnconfirmedRequest data = ret r"
  "\<exists>r. decodeSimpleAck data = ret r" "\<exists>r. decodeComplexAck data = ret r"
  "\<exists>r. decodeErrorAPDU data = ret r" "\<exists>r. decodeRejectAPDU data = ret r"
  "\<exists>r. decodeAbortAPDU data = ret r"
  by (simp_all add: decodeAPDU_defs Let_def idx_def slice_from_Some)

lemma DecodeAPDU_total [no_panic]: "\<exists>r. DecodeAPDU data = ret r"
  by (simp add: DecodeAPDU_def Let_def idx_def decode_pdu_total)

section \<open>What was encoded is decoded\<close>

lemma DecodeBVLC_Encode:
  assumes "0 \<le> n" and "n + 4 < 65536"
  shows "DecodeBVLC (EncodeBVLC f n @ rest) =
    ret (Ok \<lparr>BVLC_Type = BVLCTypeBACnetIP, BVLC_Function = f, BVLC_Length = word_of_int (4 + n)\<rparr>)"
  by (simp add: DecodeBVLC_def EncodeBVLC_def Let_def slice_def PutUint16_def BigEndian_Uint16_def)

lemma len_EncodeBVLC [wire_len, simp]: "len (EncodeBVLC f n) = 4"
  by (simp add: EncodeBVLC_def)

text \<open>A control octet of an NPDU without address specifiers and not of a network layer message.\<close>

definition plain_control :: "uint8 \<Rightarrow> bool" where
  "plain_control c \<longleftrightarrow> c AND NPDUControlDestSpecifier = 0 \<and> c AND NPDUControlSourceSpecifier = 0 \<and>
     c AND NPDUControlNetworkLayerMessage = 0"

lemma and_or_expecting: "(c OR NPDUControlExpectingReply) AND m = c AND m"
  if "m AND NPDUControlExpectingReply = 0" for c m :: uint8
proof -
  have "(c OR 4) AND m = (c AND m) OR (m AND 4)" 
    by (rule bit_word_eqI) (auto simp only: bit_and_iff bit_or_iff)
  with that show ?thesis by simp
qed

lemma DecodeNPDU_Encode:
  assumes "plain_control priority"
  shows "DecodeNPDU (EncodeNPDU expectingReply priority @ rest) = ret (Ok
    (\<lparr>Version = 1, Control = (if expectingReply then priority OR NPDUControlExpectingReply else priority),
      DestNet = 0, DestAddr = [], DestHopCount = 0, SrcNet = 0, SrcAddr = [], MessageType = 0,
      NPDU_VendorID = 0, NPDU_Data = rest\<rparr>, 2))"
  using assms and_or_expecting [of NPDUControlDestSpecifier priority]
    and_or_expecting [of NPDUControlSourceSpecifier priority]
    and_or_expecting [of NPDUControlNetworkLayerMessage priority]
  by (simp add: plain_control_def DecodeNPDU_def EncodeNPDU_def Let_def decodeNPDUDest_def
      decodeNPDUSource_def decodeNPDUMessage_def slice_from_Some)

lemma len_EncodeNPDU [wire_len, simp]: "len (EncodeNPDU e p) = 2"
  by (simp add: EncodeNPDU_def Let_def)

lemma and_or_dest:
  fixes p :: uint8
  shows "(p OR NPDUControlDestSpecifier) AND NPDUControlDestSpecifier \<noteq> 0"
proof -
  have "(p OR 0x20) AND 0x20 = (0x20 :: uint8)" by (rule bit_word_eqI) (auto simp only: bit_and_iff bit_or_iff)
  then show ?thesis by simp
qed

lemma and_or_dest_other: "(p OR NPDUControlDestSpecifier) AND m = p AND m"
  if "m AND NPDUControlDestSpecifier = 0" for p m :: uint8
proof -
  have "(p OR 0x20) AND m = (p AND m) OR (m AND 0x20)"
    by (rule bit_word_eqI) (auto simp only: bit_and_iff bit_or_iff)
  with that show ?thesis by simp
qed

lemma dest_control:
  assumes "plain_control p"
  shows "(if e then p OR 0x20 OR 4 else p OR 0x20) AND 0x20 \<noteq> (0 :: uint8)"
    and "(if e then p OR 0x20 OR 4 else p OR 0x20) AND 0x08 = (0 :: uint8)"
    and "(if e then p OR 0x20 OR 4 else p OR 0x20) AND 0x80 = (0 :: uint8)"
  using assms and_or_dest [of p] and_or_dest_other [of "0x08" p] and_or_dest_other [of "0x80" p]
    and_or_expecting [of "0x20" "p OR 0x20"] and_or_expecting [of "0x08" "p OR 0x20"]
    and_or_expecting [of "0x80" "p OR 0x20"]
  by (simp_all add: plain_control_def or.assoc)

lemma DecodeNPDU_EncodeWithDest:
  assumes "plain_control p" and "len addr < 256"
  shows "DecodeNPDU (EncodeNPDUWithDest net addr hops e p @ rest) = ret (Ok
    (\<lparr>Version = 1,
      Control = (if e then p OR NPDUControlDestSpecifier OR NPDUControlExpectingReply
                 else p OR NPDUControlDestSpecifier),
      DestNet = net, DestAddr = addr, DestHopCount = hops, SrcNet = 0, SrcAddr = [], MessageType = 0,
      NPDU_VendorID = 0, NPDU_Data = rest\<rparr>, 6 + len addr))"
proof -
  define c where "c = (if e then p OR 0x20 OR 4 else p OR (0x20 :: uint8))"
  note ctl = dest_control [OF assms(1), of e, folded c_def]
  have u: "uint (word_of_int (len addr) :: byte) = len addr"
    using assms(2) by (simp add: uint_word_of_int take_bit_int_eq_self)
  have enc: "EncodeNPDUWithDest net addr hops e p @ rest =
      [1, c] @ PutUint16 net @ [word_of_int (len addr)] @ addr @ hops # rest"
    by (simp add: EncodeNPDUWithDest_def Let_def c_def PutUint16_def or.assoc)
  define data where "data = [1, c] @ PutUint16 net @ [word_of_int (len addr)] @ addr @ hops # rest"
  have l: "len data = 6 + len addr + len rest" by (simp add: data_def)
  have parts: "slice_from data 2 = ret (PutUint16 net @ [word_of_int (len addr)] @ addr @ hops # rest)"
    "idx data 4 = ret (word_of_int (len addr))" "idx data 0 = ret 1" "idx data 1 = ret c"
    "slice data 5 (5 + len addr) = ret addr" "idx data (5 + len addr) = ret hops"
    "slice_from data (6 + len addr) = ret rest"
    using slice_append [of 5 "[1, c] @ PutUint16 net @ [word_of_int (len addr)]" "5 + len addr" addr "hops # rest"]
      slice_from_append [of "6 + len addr" "[1, c] @ PutUint16 net @ [word_of_int (len addr)] @ addr @ [hops]" rest]
      idx_append_right [of "[1, c] @ PutUint16 net @ [word_of_int (len addr)] @ addr" "5 + len addr" "hops # rest"]
    by (simp_all add: data_def slice_from_Some PutUint16_def add_pos_nonneg)
  show ?thesis
    unfolding enc data_def [symmetric]
    by (simp add: DecodeNPDU_def Let_def decodeNPDUDest_def decodeNPDUSource_def decodeNPDUMessage_def
        l parts ctl u c_def [symmetric] add_pos_nonneg add_nonneg_nonneg not_le not_less)
qed

lemma DecodeAPDU_Unconfirmed:
  "DecodeAPDU (EncodeUnconfirmedRequest svc data) =
     ret (Ok (APDU_zero\<lparr>APDU_Type := PDUTypeUnconfirmedRequest, Service := svc, APDU_Data := data\<rparr>))"
  by (simp add: DecodeAPDU_def EncodeUnconfirmedRequest_def decodeUnconfirmedRequest_def slice_from_Some)

lemma nibbles:
  fixes s a :: uint8
  assumes "s < 8" and "a < 16"
  shows "drop_bit 4 (push_bit 4 s OR a) AND 0x07 = s" and "(push_bit 4 s OR a) AND 0x0F = a"
proof -
  have sb: "bit s n \<Longrightarrow> n < 3" for n using bit_less_exp [of s 3 n] assms(1) by (simp add: word_less_nat_alt)
  have ab: "bit a n \<Longrightarrow> n < 4" for n using bit_less_exp [of a 4 n] assms(2) by (simp add: word_less_nat_alt)
  show "drop_bit 4 (push_bit 4 s OR a) AND 0x07 = s"
    by (rule bit_word_eqI) (auto simp: mask_byte bit_simps dest: sb ab)
  show "(push_bit 4 s OR a) AND 0x0F = a"
    by (rule bit_word_eqI) (auto simp: mask_byte bit_simps dest: sb ab)
qed

lemma DecodeAPDU_Confirmed:
  assumes "maxSeg < 8" and "maxAPDU < 16"
  shows "DecodeAPDU (EncodeConfirmedRequest ivk svc data maxSeg maxAPDU) =
     ret (Ok (APDU_zero\<lparr>APDU_Type := PDUTypeConfirmedRequest, MaxSegments := maxSeg, MaxAPDU := maxAPDU,
              InvokeID := ivk, Service := svc, APDU_Data := data\<rparr>))"
proof -
  define b where "b = push_bit 4 maxSeg OR maxAPDU"
  from nibbles [OF assms] have "drop_bit 4 b AND 0x07 = maxSeg" "b AND 0x0F = maxAPDU"
    by (simp_all only: b_def)
  then show ?thesis
    by (simp add: DecodeAPDU_def EncodeConfirmedRequest_def decodeConfirmedRequest_def slice_from_Some
        b_def [symmetric] APDU_zero_def)
qed

section \<open>Properties\<close>

text \<open>
  No byte sequence received from the network makes a header decoder panic: \<open>DecodeBVLC\<close>,
  \<open>DecodeNPDU\<close> and \<open>DecodeAPDU\<close> return a header or an error for every input.
\<close>

theorem frame_decoders_never_panic:
  "(\<exists>r. DecodeBVLC data = ret r) \<and> (\<exists>r. DecodeNPDU data = ret r) \<and> (\<exists>r. DecodeAPDU data = ret r)"
  by (intro conjI no_panic)

text \<open>
  When \<open>DecodeNPDU\<close> accepts a packet, the packet has protocol version 1, the offset it returns
  lies behind the two fixed octets and within the packet, and the payload is exactly the rest of
  the packet from that offset on, whatever address fields the control octet announced.
\<close>

theorem DecodeNPDU_payload_is_suffix:
  assumes "DecodeNPDU data = ret (Ok (npdu, off))"
  shows "2 \<le> off \<and> off \<le> len data \<and> NPDU_Data npdu = drop (nat off) data \<and>
         Control npdu = data ! 1 \<and> data ! 0 = 1"
  using assms by (rule DecodeNPDU_bounds)

theorem DecodeNPDU_payload_is_suffix_witness:
  "\<exists>npdu. DecodeNPDU [1, 0x20, 0, 5, 1, 9, 255, 0x10, 8] = ret (Ok (npdu, 7)) \<and> NPDU_Data npdu = [0x10, 8]"
proof -
  obtain npdu where d: "DecodeNPDU [1, 0x20, 0, 5, 1, 9, 255, 0x10, 8] = ret (Ok (npdu, 7))"
    by (simp add: DecodeNPDU_def decodeNPDUDest_def decodeNPDUSource_def decodeNPDUMessage_def go_ops)
  with DecodeNPDU_payload_is_suffix [OF d] show ?thesis by simp
qed

text \<open>
  C26: An NPDU the client writes is read back: with a control octet that announces no address and no
  network message, \<open>EncodeNPDU\<close> gives back the reply flag and priority and leaves the payload alone,
  and \<open>EncodeNPDUWithDest\<close> gives back the reply flag and priority, with the flag of the destination
  specifier, and in addition the destination network, address and hop count, for every address of
  at most 255 octets.
\<close>

theorem NPDU_roundtrip:
  assumes "plain_control p" and "len addr < 256"
  shows "(\<exists>n. DecodeNPDU (EncodeNPDU e p @ rest) = ret (Ok (n, 2)) \<and> NPDU_Data n = rest \<and>
           Control n = (if e then p OR NPDUControlExpectingReply else p)) \<and>
         (\<exists>n. DecodeNPDU (EncodeNPDUWithDest net addr hops e p @ rest) = ret (Ok (n, 6 + len addr)) \<and>
           NPDU_Data n = rest \<and> DestNet n = net \<and> DestAddr n = addr \<and> DestHopCount n = hops \<and>
           Control n = (if e then p OR NPDUControlDestSpecifier OR NPDUControlExpectingReply else p OR NPDUControlDestSpecifier))"
  using DecodeNPDU_Encode [OF assms(1)] DecodeNPDU_EncodeWithDest [OF assms] by simp

theorem NPDU_roundtrip_witness:
  "\<exists>n. DecodeNPDU (EncodeNPDUWithDest 5 [9] 255 True 0 @ [0x10, 8]) = ret (Ok (n, 7)) \<and>
     NPDU_Data n = [0x10, 8] \<and> DestNet n = 5 \<and> DestAddr n = [9] \<and> DestHopCount n = 255 \<and> Control n = 0x24"
  using NPDU_roundtrip [of 0 "[9]" True "[0x10, 8]" 5 255] by (simp add: plain_control_def)

text \<open>
  A request APDU the client writes is read back with its invoke identifier, service and
  parameters, for every maximum-segments code below 8 and maximum-APDU code below 16 (the client
  sends 0 and 5); an unconfirmed request with its service and parameters.
\<close>

theorem request_APDU_roundtrip:
  assumes "maxSeg < 8" and "maxAPDU < 16"
  shows "DecodeAPDU (EncodeConfirmedRequest ivk svc data maxSeg maxAPDU) =
           ret (Ok (APDU_zero\<lparr>APDU_Type := PDUTypeConfirmedRequest, MaxSegments := maxSeg,
                     MaxAPDU := maxAPDU, InvokeID := ivk, Service := svc, APDU_Data := data\<rparr>)) \<and>
         DecodeAPDU (EncodeUnconfirmedRequest svc data) =
           ret (Ok (APDU_zero\<lparr>APDU_Type := PDUTypeUnconfirmedRequest, Service := svc, APDU_Data := data\<rparr>))"
  using DecodeAPDU_Confirmed [OF assms] DecodeAPDU_Unconfirmed by blast

theorem request_APDU_roundtrip_witness:
  "DecodeAPDU (EncodeConfirmedRequest 7 12 [1, 2] 0 5) =
     ret (Ok (APDU_zero\<lparr>APDU_Type := PDUTypeConfirmedRequest, MaxSegments := 0,
               MaxAPDU := 5, InvokeID := 7, Service := 12, APDU_Data := [1, 2]\<rparr>))"
  using request_APDU_roundtrip [of 0 5 7 12 "[1, 2]"] by simp

end
