(* ===== verification/Bit_String.thy ===== *)
theory Bit_String
  imports Tag_Codec
begin

text \<open>
  The BitString value of \<open>bitstring.go\<close>: its length, bit access, rendering, interpretation as status
  flags, wire codec and the builder from a list of booleans. Bit 0 is the most significant bit of
  the first byte.
\<close>

section \<open>The type and its methods\<close>

record BitString =
  UnusedBits :: uint8
  Bytes :: bytes

definition BitString_Len :: "BitString \<Rightarrow> int" where
  "BitString_Len b = (if len (Bytes b) = 0 then 0 else len (Bytes b) * 8 - uint (UnusedBits b))"

definition BitString_Bit :: "BitString \<Rightarrow> int \<Rightarrow> bool go" where
  "BitString_Bit b i =
     (if i < 0 \<or> BitString_Len b \<le> i then ret False
      else do {
        x \<leftarrow> idx (Bytes b) (i div 8);
        ret (x AND drop_bit (nat (i mod 8)) 0x80 \<noteq> 0) })"

function BitString_String_loop :: "BitString \<Rightarrow> int \<Rightarrow> string go" where
  "BitString_String_loop b i =
     (if i < BitString_Len b then do {
        v \<leftarrow> BitString_Bit b i;
        rest \<leftarrow> BitString_String_loop b (i + 1);
        ret ((if 0 < i then '','' else []) @ (if v then ''1'' else ''0'') @ rest) }
      else ret [])"
  by pat_completeness auto
termination
  by (relation "measure (\<lambda>(b, i). nat (BitString_Len b - i))") auto

declare BitString_String_loop.simps [simp del]

definition BitString_String :: "BitString \<Rightarrow> string go" where
  "BitString_String b =
     (if BitString_Len b = 0 then ret ''{}''
      else do { s \<leftarrow> BitString_String_loop b 0; ret (''{'' @ s @ ''}'') })"

definition BitString_StatusFlags :: "BitString \<Rightarrow> StatusFlags go" where
  "BitString_StatusFlags b =
     do { f0 \<leftarrow> BitString_Bit b 0; f1 \<leftarrow> BitString_Bit b 1; f2 \<leftarrow> BitString_Bit b 2; f3 \<leftarrow> BitString_Bit b 3;
          ret \<lparr>InAlarm = f0, Fault = f1, Overridden = f2, OutOfService = f3\<rparr> }"

section \<open>The codec\<close>

definition DecodeBitString :: "bytes \<Rightarrow> BitString res go" where
  "DecodeBitString payload =
     (if len payload = 0 then ret (Err ErrInvalidResponse)
      else do {
        unused \<leftarrow> idx payload 0;
        if unused > 7 then ret (Err ErrInvalidResponse)
        else if len payload = 1 \<and> unused \<noteq> 0 then ret (Err ErrInvalidResponse)
        else do {
          rest \<leftarrow> slice_from payload 1;
          ret (Ok \<lparr>UnusedBits = unused, Bytes = rest\<rparr>) } })"

definition EncodeBitString :: "BitString \<Rightarrow> bytes" where
  "EncodeBitString b = UnusedBits b # Bytes b"

definition EncodeBitStringTag :: "BitString \<Rightarrow> bytes" where
  "EncodeBitStringTag b =
     (let data = EncodeBitString b in EncodeTag TagBitString TagClassApplication (len data) @ data)"

text \<open>The loop of \<open>NewBitStringFromBits\<close>, from index \<open>i\<close> on.\<close>

fun set_bits :: "int \<Rightarrow> bool list \<Rightarrow> bytes \<Rightarrow> bytes go" where
  "set_bits i [] out = ret out"
| "set_bits i (v # vs) out =
     (if v then do {
        x \<leftarrow> idx out (i div 8);
        set_bits (i + 1) vs (out[nat (i div 8) := x OR drop_bit (nat (i mod 8)) 0x80]) }
      else set_bits (i + 1) vs out)"

definition NewBitStringFromBits :: "bool list \<Rightarrow> BitString go" where
  "NewBitStringFromBits bs =
     (if len bs = 0 then ret \<lparr>UnusedBits = 0, Bytes = []\<rparr>
      else do {
        let nBytes = (len bs + 7) div 8;
        out \<leftarrow> set_bits 0 bs (replicate (nat nBytes) 0);
        ret \<lparr>UnusedBits = word_of_int (nBytes * 8 - len bs), Bytes = out\<rparr> })"

section \<open>Bits most significant first\<close>

definition msb_bit :: "bytes \<Rightarrow> nat \<Rightarrow> bool" where
  "msb_bit bs k = bit (bs ! (k div 8)) (7 - k mod 8)"

lemma drop_80: "m < 8 \<Longrightarrow> bit (drop_bit m (0x80 :: byte)) n \<longleftrightarrow> n = 7 - m"
proof -
  have e: "bit (0x80 :: byte) j \<longleftrightarrow> j = 7" for j
    using bit_exp_iff [where 'a = "8 word", of 7 j] by auto
  assume "m < 8"
  then have "m + n = 7 \<longleftrightarrow> n = 7 - m" by linarith
  then show ?thesis by (simp only: bit_drop_bit_eq o_apply e)
qed

lemma and_drop_80: "m < 8 \<Longrightarrow> x AND drop_bit m 0x80 \<noteq> 0 \<longleftrightarrow> bit x (7 - m)" for x :: byte
proof
  assume m: "m < 8" and "x AND drop_bit m 0x80 \<noteq> 0"
  then obtain n where "bit (x AND drop_bit m 0x80) n"
    using bit_eq_iff [of "x AND drop_bit m 0x80" 0] by (auto simp only: bit_0_eq bot_apply bot_bool_def)
  then show "bit x (7 - m)" using m by (auto simp only: bit_and_iff drop_80)
next
  assume "m < 8" and "bit x (7 - m)"
  then have "bit (x AND drop_bit m 0x80) (7 - m)" by (simp only: bit_and_iff drop_80)
  then show "x AND drop_bit m 0x80 \<noteq> 0" by (auto simp only: bit_0_eq bot_apply bot_bool_def)
qed

lemma byte_position: "k = n \<longleftrightarrow> k div 8 = n div 8 \<and> 7 - k mod 8 = 7 - n mod (8 :: nat)"
proof
  assume *: "k div 8 = n div 8 \<and> 7 - k mod 8 = 7 - n mod 8"
  have "k mod 8 < 8" "n mod 8 < 8" by simp_all
  with * have "k mod 8 = n mod 8" by linarith
  with * show "k = n" by (metis div_mult_mod_eq)
qed simp

lemma BitString_Bit_eq:
  "BitString_Bit b i = ret (0 \<le> i \<and> i < BitString_Len b \<and> msb_bit (Bytes b) (nat i))"
proof (cases "0 \<le> i \<and> i < BitString_Len b")
  case True
  then have "i < len (Bytes b) * 8"
    using uint_ge_0 [of "UnusedBits b"] by (simp only: BitString_Len_def split: if_splits) linarith+
  then have "i div 8 < len (Bytes b)" by simp
  moreover have "nat (i mod 8) < 8" by (simp add: nat_less_iff)
  ultimately show ?thesis
    using True and_drop_80 [of "nat (i mod 8)"]
    by (simp add: BitString_Bit_def idx_Some pos_imp_zdiv_nonneg_iff msb_bit_def nat_div_distrib nat_mod_distrib)
qed (auto simp: BitString_Bit_def)

lemma set_one_bit:
  assumes "0 \<le> i" and "i div 8 < len out" and "k < 8 * length out"
  shows "msb_bit (out[nat (i div 8) := out ! nat (i div 8) OR drop_bit (nat (i mod 8)) 0x80]) k = (msb_bit out k \<or> k = nat i)"
proof -
  have m: "nat (i mod 8) < 8" by (simp add: nat_less_iff)
  have "k = nat i \<longleftrightarrow> k div 8 = nat (i div 8) \<and> 7 - k mod 8 = 7 - nat (i mod 8)"
    using assms(1) byte_position [of k "nat i"] by (simp add: nat_div_distrib nat_mod_distrib)
  then show ?thesis
    using assms drop_80 [OF m] by (auto simp: msb_bit_def nth_list_update bit_or_iff len_def)
qed

lemma set_bits_correct:
  assumes "0 \<le> i" and "i + len vs \<le> 8 * len out"
  shows "\<exists>out'. set_bits i vs out = ret out' \<and> length out' = length out \<and>
           (\<forall>k. k < 8 * length out \<longrightarrow> msb_bit out' k =
             (msb_bit out k \<or> (nat i \<le> k \<and> k < nat i + length vs \<and> vs ! (k - nat i))))"
  using assms
proof (induction i vs out rule: set_bits.induct)
  case (2 i v vs out)
  have lt: "i div 8 < len out" using "2.prems" by (simp add: len_def)
  define out1 where "out1 = (if v then out[nat (i div 8) := out ! nat (i div 8) OR drop_bit (nat (i mod 8)) 0x80] else out)"
  have step: "set_bits i (v # vs) out = set_bits (i + 1) vs out1"
    using lt "2.prems"(1) by (simp add: out1_def idx_Some)
  have l1: "length out1 = length out" by (simp add: out1_def)
  have b1: "msb_bit out1 k = (msb_bit out k \<or> (v \<and> k = nat i))" if "k < 8 * length out" for k
    using set_one_bit [OF "2.prems"(1) lt that] by (simp add: out1_def)
  have "\<exists>out'. set_bits (i + 1) vs out1 = ret out' \<and> length out' = length out1 \<and>
    (\<forall>k. k < 8 * length out1 \<longrightarrow> msb_bit out' k =
       (msb_bit out1 k \<or> (nat (i + 1) \<le> k \<and> k < nat (i + 1) + length vs \<and> vs ! (k - nat (i + 1)))))"
  proof (cases v)
    case True
    then show ?thesis
      using "2.IH"(1) [OF True idx_Some [OF _ lt]] "2.prems" by (simp add: out1_def pos_imp_zdiv_nonneg_iff)
  next
    case False
    then show ?thesis using "2.IH"(2) "2.prems" by (simp add: out1_def)
  qed
  then obtain out' where IH: "set_bits (i + 1) vs out1 = ret out'" "length out' = length out1"
    "\<And>k. k < 8 * length out1 \<Longrightarrow> msb_bit out' k =
       (msb_bit out1 k \<or> (nat (i + 1) \<le> k \<and> k < nat (i + 1) + length vs \<and> vs ! (k - nat (i + 1))))"
    by blast
  have "msb_bit out' k = (msb_bit out k \<or> (nat i \<le> k \<and> k < nat i + length (v # vs) \<and> (v # vs) ! (k - nat i)))"
    if "k < 8 * length out" for k
  proof (cases "k = nat i")
    case True
    then show ?thesis using IH(3) b1 that l1 "2.prems"(1) by (simp add: nat_add_distrib)
  next
    case False
    then show ?thesis using IH(3) b1 that l1 "2.prems"(1) by (auto simp: nth_Cons' nat_add_distrib)
  qed
  then show ?case unfolding step using IH(1,2) l1 by simp
qed auto

lemma replicate_zero_bits: "k < 8 * n \<Longrightarrow> \<not> msb_bit (replicate n 0) k"
  by (simp add: msb_bit_def)

lemma NewBitStringFromBits_bits:
  "\<exists>b. NewBitStringFromBits bs = ret b \<and> BitString_Len b = len bs \<and> UnusedBits b < 8 \<and>
     (Bytes b = [] \<longleftrightarrow> bs = []) \<and> len (Bytes b) = (len bs + 7) div 8 \<and>
     (\<forall>i. BitString_Bit b i = ret (0 \<le> i \<and> i < len bs \<and> bs ! nat i)) \<and> (bs = [] \<longrightarrow> UnusedBits b = 0)"
proof (cases "bs = []")
  case True
  then show ?thesis by (auto simp: NewBitStringFromBits_def BitString_Len_def BitString_Bit_eq)
next
  case False
  define n where "n = (len bs + 7) div 8"
  have pos: "1 \<le> len bs" using False by (simp add: len_def Suc_leI)
  have n: "len bs \<le> n * 8" "n * 8 - len bs < 8" "0 < n" using pos by (auto simp: n_def)
  obtain out where out: "set_bits 0 bs (replicate (nat n) 0) = ret out" "length out = nat n"
    "\<And>k. k < 8 * nat n \<Longrightarrow> msb_bit out k = (k < length bs \<and> bs ! k)"
    using set_bits_correct [of 0 bs "replicate (nat n) 0"] n
    by (auto simp: len_def replicate_zero_bits)
  define b where "b = \<lparr>UnusedBits = word_of_int (n * 8 - len bs), Bytes = out\<rparr>"
  have new: "NewBitStringFromBits bs = ret b"
    using False out(1) by (simp add: NewBitStringFromBits_def len_zero_iff Let_def b_def flip: n_def)
  have u: "uint (UnusedBits b) = n * 8 - len bs"
  proof -
    have "take_bit 8 (n * 8 - len bs) = n * 8 - len bs" using n by (intro take_bit_int_eq_self) simp_all
    then show ?thesis by (simp only: b_def BitString.select_convs uint_word_of_int_eq len_num0 len_num1 len_bit0 len_bit1) simp
  qed
  have lb: "len (Bytes b) = n" using out(2) n(3) by (simp add: b_def len_def)
  have L: "BitString_Len b = len bs" using lb u n(3) by (simp add: BitString_Len_def)
  have "BitString_Bit b i = ret (0 \<le> i \<and> i < len bs \<and> bs ! nat i)" for i
    using out(3) [of "nat i"] n(1)
    by (auto simp: BitString_Bit_eq L len_def nat_less_iff) (simp_all add: b_def)
  moreover have "UnusedBits b < 8" using u n(2) by (simp add: word_less_def)
  moreover have "Bytes b \<noteq> []" using lb n(3) by auto
  ultimately show ?thesis using new L lb False by (auto simp: n_def)
qed

lemma DecodeBitString_total [no_panic]: "\<exists>r. DecodeBitString p = ret r"
  by (cases p) (simp_all add: DecodeBitString_def slice_from_Some)

text \<open>The values the decoder can return: at most seven unused bits, and none without data bytes.\<close>

definition bitstring_ok :: "BitString \<Rightarrow> bool" where
  "bitstring_ok b \<longleftrightarrow> UnusedBits b \<le> 7 \<and> (Bytes b = [] \<longrightarrow> UnusedBits b = 0)"

lemma DecodeBitString_iff:
  "DecodeBitString p = ret (Ok b) \<longleftrightarrow> bitstring_ok b \<and> p = EncodeBitString b"
  by (cases p; cases b)
     (auto simp: DecodeBitString_def EncodeBitString_def bitstring_ok_def slice_from_Some len_zero_iff not_less
       split: if_splits)

lemma len_EncodeBitString [wire_len, simp]: "len (EncodeBitString b) = 1 + len (Bytes b)"
  by (simp add: EncodeBitString_def)

definition bitstring_wire :: "BitString \<Rightarrow> bool" where
  "bitstring_wire b \<longleftrightarrow> bitstring_ok b \<and> len (Bytes b) < 2 ^ 32 - 1"

interpretation bitString: payload_codec EncodeBitString
    "\<lambda>p. case DecodeBitString p of Some (Inr b) \<Rightarrow> Some b | _ \<Rightarrow> None" bitstring_wire
proof
  fix b assume b: "bitstring_wire b"
  then have "DecodeBitString (EncodeBitString b) = ret (Ok b)"
    by (simp add: DecodeBitString_iff bitstring_wire_def)
  then show "(case DecodeBitString (EncodeBitString b) of Some (Inr b) \<Rightarrow> Some b | _ \<Rightarrow> None) = Some b"
    by simp
  from b show "len (EncodeBitString b) < 2 ^ 32" by (simp add: bitstring_wire_def)
qed

lemma BitString_String_loop_eq:
  assumes "0 \<le> i"
  shows "BitString_String_loop b i = ret (concat (map (\<lambda>j. (if 0 < j then '','' else []) @
           (if msb_bit (Bytes b) (nat j) then ''1'' else ''0'')) [i..BitString_Len b - 1]))"
  using assms
proof (induction b i rule: BitString_String_loop.induct)
  case (1 b i)
  show ?case
  proof (cases "i < BitString_Len b")
    case True
    then have "[i..BitString_Len b - 1] = i # [i + 1..BitString_Len b - 1]" by (simp add: upto_rec1)
    with 1 True show ?thesis
      by (simp add: BitString_String_loop.simps [of b i] BitString_Bit_eq)
  qed (simp add: BitString_String_loop.simps [of b i])
qed

lemma DecodeBitString_eq:
  "DecodeBitString [] = ret (Err ErrInvalidResponse)"
  "DecodeBitString (u # bs) =
     (if u \<le> 7 \<and> (bs = [] \<longrightarrow> u = 0) then ret (Ok \<lparr>UnusedBits = u, Bytes = bs\<rparr>)
      else ret (Err ErrInvalidResponse))"
  by (auto simp: DecodeBitString_def slice_from_Some len_zero_iff)

lemma and_low_bits:
  "x AND 0x08 = 0 \<longleftrightarrow> \<not> bit x 3" "x AND 0x04 = 0 \<longleftrightarrow> \<not> bit x 2"
  "x AND 0x02 = 0 \<longleftrightarrow> \<not> bit x 1" "x AND 0x01 = 0 \<longleftrightarrow> \<not> bit x 0" for x :: byte
  using and_exp_eq_0_iff_not_bit [of x 3] and_exp_eq_0_iff_not_bit [of x 2]
    and_exp_eq_0_iff_not_bit [of x 1] and_exp_eq_0_iff_not_bit [of x 0] by simp_all

lemma shifted_low_bits:
  "drop_bit 4 x AND 0x08 = 0 \<longleftrightarrow> \<not> bit x 7" "drop_bit 4 x AND 0x04 = 0 \<longleftrightarrow> \<not> bit x 6"
  "drop_bit 4 x AND 0x02 = 0 \<longleftrightarrow> \<not> bit x 5" "drop_bit 4 x AND 0x01 = 0 \<longleftrightarrow> \<not> bit x 4" for x :: byte
  by (simp_all only: and_low_bits bit_drop_bit_eq o_apply) simp_all

section \<open>Properties\<close>

text \<open>
  C33: \<open>NewBitStringFromBits\<close> never panics and loses nothing: the result has as many bits as the
  list, bit \<open>i\<close> is the list's element \<open>i\<close> (and False outside, without a panic), it uses the least
  number of bytes, and its wire form decodes to the same value.
\<close>

theorem NewBitStringFromBits_roundtrip:
  "\<exists>b. NewBitStringFromBits bs = ret b \<and> BitString_Len b = len bs \<and>
     (\<forall>i. BitString_Bit b i = ret (0 \<le> i \<and> i < len bs \<and> bs ! nat i)) \<and>
     len (Bytes b) = (len bs + 7) div 8 \<and>
     DecodeBitString (EncodeBitString b) = ret (Ok b)"
proof -
  obtain b where b: "NewBitStringFromBits bs = ret b" "BitString_Len b = len bs" "UnusedBits b < 8"
    "Bytes b = [] \<longleftrightarrow> bs = []" "len (Bytes b) = (len bs + 7) div 8"
    "\<And>i. BitString_Bit b i = ret (0 \<le> i \<and> i < len bs \<and> bs ! nat i)" "bs = [] \<longrightarrow> UnusedBits b = 0"
    using NewBitStringFromBits_bits [of bs] by auto
  have "UnusedBits b \<le> 7" using b(3) by (simp add: word_less_nat_alt word_le_nat_alt)
  then have "bitstring_ok b" using b(4,7) by (simp add: bitstring_ok_def)
  then show ?thesis using b by (auto simp: DecodeBitString_iff)
qed

text \<open>
  C34: \<open>DecodeBitString\<close> accepts exactly the encodings of the values with at most seven unused bits,
  and no unused bits when there are no data bytes; every other payload is rejected with
  \<open>ErrInvalidResponse\<close>, and no payload makes it panic. So decoding and encoding are inverse to each
  other on the accepted payloads.
\<close>

theorem DecodeBitString_exact:
  "DecodeBitString p =
     (if p \<noteq> [] \<and> hd p \<le> 7 \<and> (tl p = [] \<longrightarrow> hd p = 0)
      then ret (Ok \<lparr>UnusedBits = hd p, Bytes = tl p\<rparr>) else ret (Err ErrInvalidResponse)) \<and>
   (DecodeBitString p = ret (Ok b) \<longleftrightarrow>
      (UnusedBits b \<le> 7 \<and> (Bytes b = [] \<longrightarrow> UnusedBits b = 0)) \<and> p = EncodeBitString b)"
  by (rule conjI, cases p)
     (simp_all add: DecodeBitString_iff [unfolded bitstring_ok_def] DecodeBitString_eq)

theorem DecodeBitString_exact_witness:
  "DecodeBitString [4, 0xA0] = ret (Ok \<lparr>UnusedBits = 4, Bytes = [0xA0]\<rparr>) \<and>
   DecodeBitString [3] = ret (Err ErrInvalidResponse) \<and> DecodeBitString [8, 1] = ret (Err ErrInvalidResponse)"
  using DecodeBitString_exact [of "[4, 0xA0]"] DecodeBitString_exact [of "[3]"]
    DecodeBitString_exact [of "[8, 1]"] by simp

text \<open>
  The four-bit status flags read from the wire are the flags the byte helper finds in the upper
  nibble: \<open>StatusFlags\<close> of the bit string with data byte \<open>x\<close> equals \<open>DecodeStatusFlags\<close> of \<open>x\<close> shifted
  right by four.
\<close>

theorem BitString_StatusFlags_upper_nibble:
  "BitString_StatusFlags \<lparr>UnusedBits = 4, Bytes = [x]\<rparr> = ret (DecodeStatusFlags (drop_bit 4 x))"
  by (simp only: DecodeStatusFlags_def shifted_low_bits not_not)
     (simp add: BitString_StatusFlags_def BitString_Bit_eq BitString_Len_def msb_bit_def)

end
