(* ===== verification/Date_Time.thy ===== *)
theory Date_Time
  imports Tag_Codec
begin

text \<open>
  The Date and Time values of \<open>datetime.go\<close>: four octets each on the wire, any of which may be the
  wildcard 0xFF; the year is sent as an offset from 1900.
\<close>

section \<open>Dates\<close>

record Date =
  Year :: uint16
  Month :: uint8
  Day :: uint8
  DayOfWeek :: uint8

abbreviation (input) DateWildcardYear :: uint16 where "DateWildcardYear \<equiv> 0xFFFF"
abbreviation (input) DateWildcardField :: uint8 where "DateWildcardField \<equiv> 0xFF"

definition DecodeDate :: "bytes \<Rightarrow> Date go" where
  "DecodeDate payload =
     do { p1 \<leftarrow> idx payload 1; p2 \<leftarrow> idx payload 2; p3 \<leftarrow> idx payload 3; p0 \<leftarrow> idx payload 0;
          ret \<lparr>Year = (if p0 = 0xFF then DateWildcardYear else ucast p0 + 1900),
               Month = p1, Day = p2, DayOfWeek = p3\<rparr> }"

definition EncodeDate :: "Date \<Rightarrow> bytes" where
  "EncodeDate d =
     (let yearByte = (if Year d = DateWildcardYear then 0xFF else ucast (Year d - 1900))
      in [yearByte, Month d, Day d, DayOfWeek d])"

definition EncodeDateTag :: "Date \<Rightarrow> bytes" where
  "EncodeDateTag d = (let data = EncodeDate d in EncodeTag TagDate TagClassApplication (len data) @ data)"

definition Date_String :: "Date \<Rightarrow> string" where
  "Date_String d =
     (let yr = (if Year d \<noteq> DateWildcardYear then fmt_0d 4 (unat (Year d)) else ''?'');
          mo = (if Month d \<noteq> DateWildcardField then fmt_0d 2 (unat (Month d)) else ''?'');
          dy = (if Day d \<noteq> DateWildcardField then fmt_0d 2 (unat (Day d)) else ''?'')
      in yr @ ''-'' @ mo @ ''-'' @ dy)"

section \<open>Times\<close>

record Time =
  Hour :: uint8
  Minute :: uint8
  Second :: uint8
  Hundredths :: uint8

abbreviation (input) TimeWildcardField :: uint8 where "TimeWildcardField \<equiv> 0xFF"

definition DecodeTime :: "bytes \<Rightarrow> Time go" where
  "DecodeTime payload =
     do { p0 \<leftarrow> idx payload 0; p1 \<leftarrow> idx payload 1; p2 \<leftarrow> idx payload 2; p3 \<leftarrow> idx payload 3;
          ret \<lparr>Hour = p0, Minute = p1, Second = p2, Hundredths = p3\<rparr> }"

definition EncodeTime :: "Time \<Rightarrow> bytes" where
  "EncodeTime t = [Hour t, Minute t, Second t, Hundredths t]"

definition EncodeTimeTag :: "Time \<Rightarrow> bytes" where
  "EncodeTimeTag t = (let data = EncodeTime t in EncodeTag TagTime TagClassApplication (len data) @ data)"

definition Time_field :: "uint8 \<Rightarrow> nat \<Rightarrow> string" where
  "Time_field v width = (if v = TimeWildcardField then ''?'' else fmt_0d width (unat v))"

definition Time_String :: "Time \<Rightarrow> string" where
  "Time_String t =
     Time_field (Hour t) 2 @ '':'' @ Time_field (Minute t) 2 @ '':'' @ Time_field (Second t) 2 @ ''.'' @
     Time_field (Hundredths t) 2"

section \<open>Lemmas\<close>

lemma four_octets: "len p = 4 \<longleftrightarrow> (\<exists>a b c d. p = [a, b, c, d])"
  by (auto simp: len_def numeral_eq_Suc length_Suc_conv)

lemma DecodeDate_total [no_panic]: "4 \<le> len p \<Longrightarrow> \<exists>d. DecodeDate p = ret d"
  by (simp add: DecodeDate_def idx_def)

lemma DecodeTime_total [no_panic]: "4 \<le> len p \<Longrightarrow> \<exists>t. DecodeTime p = ret t"
  by (simp add: DecodeTime_def idx_def)

lemma len_EncodeDateTime [wire_len, simp]: "len (EncodeDate d) = 4" "len (EncodeTime t) = 4"
  by (simp_all add: EncodeDate_def EncodeTime_def Let_def)

text \<open>The years a date can carry over the wire.\<close>

definition date_wire :: "Date \<Rightarrow> bool" where
  "date_wire d \<longleftrightarrow> Year d = DateWildcardYear \<or> (1900 \<le> Year d \<and> Year d \<le> 2154)"

lemma unat_byte_widen [simp]: "unat (ucast (x :: uint8) :: uint16) = unat x"
proof -
  have "unat x < 2 ^ LENGTH(8)" by (rule unsigned_less)
  then show ?thesis by (simp add: unsigned_ucast_eq take_bit_nat_eq_self)
qed

lemma byte_narrow_widen [simp]: "ucast (ucast (x :: uint8) :: uint16) = x"
  by (rule bit_word_eqI) (simp add: bit_simps)

lemma year_octet:
  fixes y :: uint16
  assumes "1900 \<le> y" and "y \<le> 2154"
  shows "ucast (ucast (y - 1900) :: uint8) + 1900 = y" and "(ucast (y - 1900) :: uint8) \<noteq> 0xFF"
proof -
  have u: "unat (y - 1900) = unat y - 1900" using assms(1) by (simp add: unat_sub)
  have le: "unat y - 1900 \<le> 254" using assms(2) by (simp add: word_le_nat_alt)
  have "unat (ucast (y - 1900) :: uint8) = unat y - 1900"
    using u le by (simp add: unsigned_ucast_eq take_bit_nat_eq_self)
  then have b: "unat (ucast (y - 1900) :: uint8) = unat (y - 1900)" using u by simp
  show "(ucast (y - 1900) :: uint8) \<noteq> 0xFF"
  proof
    assume "(ucast (y - 1900) :: uint8) = 0xFF"
    then have "unat (ucast (y - 1900) :: uint8) = 255" by simp
    with b u le show False by simp
  qed
  have "unat (ucast (ucast (y - 1900) :: uint8) :: uint16) = unat (y - 1900)"
    using b by (simp only: unat_byte_widen)
  then have "(ucast (ucast (y - 1900) :: uint8) :: uint16) = y - 1900" by (simp only: word_unat_eq_iff)
  then show "ucast (ucast (y - 1900) :: uint8) + 1900 = y" by simp
qed

lemma octet_year:
  fixes b :: uint8
  assumes "b \<noteq> 0xFF"
  shows "(ucast b + 1900 :: uint16) \<noteq> 0xFFFF" and "ucast (ucast b + 1900 - 1900 :: uint16) = b"
    and "(1900 :: uint16) \<le> ucast b + 1900" and "(ucast b + 1900 :: uint16) \<le> 2154"
proof -
  have "unat b < 2 ^ LENGTH(8)" by (rule unsigned_less)
  then have "unat b < 256" by simp
  moreover have "unat b \<noteq> 255" 
    using assms word_unat_eq_iff [of b "0xFF"] by simp
  ultimately have b: "unat b \<le> 254" by linarith
  then have u: "unat (ucast b + 1900 :: uint16) = unat b + 1900"
    by (simp add: unat_word_ariths)
  show "(ucast b + 1900 :: uint16) \<noteq> 0xFFFF"
    using u b word_unat_eq_iff [of "ucast b + 1900 :: uint16" "0xFFFF"] by simp
  show "ucast (ucast b + 1900 - 1900 :: uint16) = b" by simp
  show "(1900 :: uint16) \<le> ucast b + 1900" "(ucast b + 1900 :: uint16) \<le> 2154"
    using u b by (simp_all add: word_le_nat_alt)
qed

lemma DecodeDate_Encode: "date_wire d \<Longrightarrow> DecodeDate (EncodeDate d) = ret d"
  using year_octet [of "Year d"] by (auto simp: DecodeDate_def EncodeDate_def Let_def date_wire_def)

lemma EncodeDate_Decode:
  assumes "len p = 4"
  shows "\<exists>d. DecodeDate p = ret d \<and> EncodeDate d = p \<and> date_wire d"
proof -
  obtain a b c e where p: "p = [a, b, c, e]" using assms by (auto simp: four_octets)
  show ?thesis
    using octet_year [of a] by (simp add: p DecodeDate_def EncodeDate_def date_wire_def Let_def)
qed

interpretation date: payload_codec EncodeDate DecodeDate date_wire
  by unfold_locales (simp_all add: DecodeDate_Encode)

interpretation time: payload_codec EncodeTime DecodeTime "\<lambda>_. True"
  by unfold_locales (simp_all add: DecodeTime_def EncodeTime_def)

section \<open>Properties\<close>

text \<open>
  C35: Dates and times survive the wire in both directions. A date whose year is the wildcard or
  between 1900 and 2154 is decoded to itself, and so is every time; conversely each of the 2^32
  four-octet payloads decodes without a panic to a date in that range, whose encoding is the payload.
\<close>

theorem date_time_roundtrip:
  assumes "date_wire d" and "len p = 4"
  shows "DecodeDate (EncodeDate d) = ret d \<and> DecodeTime (EncodeTime t) = ret t \<and>
         (\<exists>e. DecodeDate p = ret e \<and> EncodeDate e = p \<and> date_wire e) \<and>
         (\<exists>u. DecodeTime p = ret u \<and> EncodeTime u = p)"
  using DecodeDate_Encode [OF assms(1)] EncodeDate_Decode [OF assms(2)] assms(2) time.dec_enc [of t]
  by (auto simp: four_octets DecodeTime_def EncodeTime_def)

theorem date_time_roundtrip_witness:
  "DecodeDate (EncodeDate \<lparr>Year = 2026, Month = 2, Day = 28, DayOfWeek = 6\<rparr>) =
     ret \<lparr>Year = 2026, Month = 2, Day = 28, DayOfWeek = 6\<rparr>"
  using date_time_roundtrip [of "\<lparr>Year = 2026, Month = 2, Day = 28, DayOfWeek = 6\<rparr>" "[0, 0, 0, 0]"]
  by (simp add: date_wire_def)

text \<open>
  The year 2155 (255 + 1900, the upper bound a comment of \<open>EncodeDate\<close> suggests) cannot be sent: it
  has the octets of a date with the wildcard year and comes back as that wildcard.
\<close>

theorem year_2155_becomes_wildcard:
  "DecodeDate (EncodeDate (d\<lparr>Year := 2155\<rparr>)) = ret (d\<lparr>Year := DateWildcardYear\<rparr>) \<and>
   EncodeDate (d\<lparr>Year := 2155\<rparr>) = EncodeDate (d\<lparr>Year := DateWildcardYear\<rparr>)"
  by (cases d) (simp add: DecodeDate_def EncodeDate_def)

end
