(* ===== verification/Char_String.thy ===== *)
theory Char_String
  imports Tag_Codec
begin

text \<open>
  Character strings of \<open>protocol.go\<close>: the encoder (always UTF-8) and the decoder for the character
  sets UTF-8, UCS-2, UCS-4 and ISO 8859-1, with what it uses of Go: the conversion of a rune slice
  to a string and \<open>utf16.Decode\<close>. A rune is an \<open>int32\<close>, given here by its value.
\<close>

section \<open>Runes\<close>

definition char_octet :: "int \<Rightarrow> char" where
  "char_octet n = char_of (nat n)"

text \<open>
  The UTF-8 encoding Go appends for one rune; a value that is no code point (negative, above
  U+10FFFF or a surrogate) gives the replacement character U+FFFD.
\<close>

definition utf8_EncodeRune :: "int \<Rightarrow> string" where
  "utf8_EncodeRune r =
     (if 0 \<le> r \<and> r \<le> 0x7F then [char_octet r]
      else if 0 \<le> r \<and> r \<le> 0x7FF then [char_octet (0xC0 + r div 64), char_octet (0x80 + r mod 64)]
      else if r < 0 \<or> r > 0x10FFFF \<or> (0xD800 \<le> r \<and> r \<le> 0xDFFF)
      then [char_octet 0xEF, char_octet 0xBF, char_octet 0xBD]
      else if r \<le> 0xFFFF
      then [char_octet (0xE0 + r div 4096), char_octet (0x80 + r div 64 mod 64), char_octet (0x80 + r mod 64)]
      else [char_octet (0xF0 + r div 262144), char_octet (0x80 + r div 4096 mod 64),
            char_octet (0x80 + r div 64 mod 64), char_octet (0x80 + r mod 64)])"

definition string_of_runes :: "int list \<Rightarrow> string" where
  "string_of_runes rs = concat (map utf8_EncodeRune rs)"

fun utf16_Decode :: "uint16 list \<Rightarrow> int list" where
  "utf16_Decode [] = []"
| "utf16_Decode [r] = [if r < 0xD800 \<or> 0xE000 \<le> r then uint r else 0xFFFD]"
| "utf16_Decode (r # r2 # rs) =
     (if r < 0xD800 \<or> 0xE000 \<le> r then uint r # utf16_Decode (r2 # rs)
      else if r < 0xDC00 \<and> 0xDC00 \<le> r2 \<and> r2 < 0xE000
      then ((uint r - 0xD800) * 1024 + (uint r2 - 0xDC00) + 0x10000) # utf16_Decode rs
      else 0xFFFD # utf16_Decode (r2 # rs))"

section \<open>The codec\<close>

abbreviation (input) CharSetUTF8 :: uint8 where "CharSetUTF8 \<equiv> 0"
abbreviation (input) CharSetUCS4 :: uint8 where "CharSetUCS4 \<equiv> 3"
abbreviation (input) CharSetUCS2 :: uint8 where "CharSetUCS2 \<equiv> 4"
abbreviation (input) CharSetISO88591 :: uint8 where "CharSetISO88591 \<equiv> 5"

definition EncodeCharacterString :: "string \<Rightarrow> bytes" where
  "EncodeCharacterString s = 0 # bytes_of_string s"

definition EncodeCharacterStringTag :: "string \<Rightarrow> bytes" where
  "EncodeCharacterStringTag s =
     (let data = EncodeCharacterString s
      in EncodeTag TagCharacterString TagClassApplication (len data) @ data)"

text \<open>The loops that fill \<open>u16\<close> and \<open>runes\<close>: the elements from index \<open>i\<close> on, \<open>n\<close> of them.\<close>

fun u16_loop :: "bytes \<Rightarrow> int \<Rightarrow> nat \<Rightarrow> uint16 list go" where
  "u16_loop payload i 0 = ret []"
| "u16_loop payload i (Suc n) =
     do { d \<leftarrow> slice_from payload (i * 2);
          u \<leftarrow> BigEndian_Uint16 d;
          rest \<leftarrow> u16_loop payload (i + 1) n;
          ret (u # rest) }"

fun rune_loop :: "bytes \<Rightarrow> int \<Rightarrow> nat \<Rightarrow> int list go" where
  "rune_loop trimmed i 0 = ret []"
| "rune_loop trimmed i (Suc n) =
     do { d \<leftarrow> slice_from trimmed (i * 4);
          u \<leftarrow> BigEndian_Uint32 d;
          rest \<leftarrow> rune_loop trimmed (i + 1) n;
          ret (sint u # rest) }"

definition DecodeCharacterString :: "bytes \<Rightarrow> string go" where
  "DecodeCharacterString data =
     (if len data < 1 then ret []
      else do {
        encoding \<leftarrow> idx data 0;
        payload \<leftarrow> slice_from data 1;
        if encoding = CharSetUTF8 then ret (string_of_bytes payload)
        else if encoding = CharSetUCS2 then do {
          payload \<leftarrow> (if len payload mod 2 = 1 then slice_to payload (len payload - 1) else ret payload);
          u16 \<leftarrow> u16_loop payload 0 (nat (len payload div 2));
          ret (string_of_runes (utf16_Decode u16)) }
        else if encoding = CharSetUCS4 then do {
          trimmed \<leftarrow> slice_to payload (len payload - len payload mod 4);
          runes \<leftarrow> rune_loop trimmed 0 (nat (len trimmed div 4));
          ret (string_of_runes runes) }
        else if encoding = CharSetISO88591 then ret (string_of_runes (map uint payload))
        else ret (string_of_bytes payload) })"

section \<open>Totality\<close>

lemma u16_loop_total: "0 \<le> i \<Longrightarrow> (i + int n) * 2 \<le> len p \<Longrightarrow> \<exists>us. u16_loop p i n = ret us"
proof (induction n arbitrary: i)
  case (Suc n)
  have "slice_from p (i * 2) = ret (drop (nat (i * 2)) p)"
    using Suc.prems by (intro slice_from_Some) simp_all
  moreover obtain u where "BigEndian_Uint16 (drop (nat (i * 2)) p) = ret u"
    using Suc.prems BigEndian_total(1) [of "drop (nat (i * 2)) p"] by auto
  moreover obtain us where "u16_loop p (i + 1) n = ret us"
    using Suc.IH [of "i + 1"] Suc.prems by (auto simp: algebra_simps)
  ultimately show ?case by simp
qed simp

lemma rune_loop_total: "0 \<le> i \<Longrightarrow> (i + int n) * 4 \<le> len p \<Longrightarrow> \<exists>rs. rune_loop p i n = ret rs"
proof (induction n arbitrary: i)
  case (Suc n)
  have "slice_from p (i * 4) = ret (drop (nat (i * 4)) p)"
    using Suc.prems by (intro slice_from_Some) simp_all
  moreover obtain u where "BigEndian_Uint32 (drop (nat (i * 4)) p) = ret u"
    using Suc.prems BigEndian_total(2) [of "drop (nat (i * 4)) p"] by auto
  moreover obtain rs where "rune_loop p (i + 1) n = ret rs"
    using Suc.IH [of "i + 1"] Suc.prems by (auto simp: algebra_simps)
  ultimately show ?case by simp
qed simp

lemma u16_loop_total0: "\<exists>us. u16_loop p 0 (nat (len p div 2)) = ret us"
  by (rule u16_loop_total) (simp_all add: pos_imp_zdiv_nonneg_iff)

lemma rune_loop_total0: "\<exists>rs. rune_loop p 0 (nat (len p div 4)) = ret rs"
  by (rule rune_loop_total) (simp_all add: pos_imp_zdiv_nonneg_iff)

lemma trim_total: "0 < k \<Longrightarrow> \<exists>q. slice_to p (len p - len p mod k) = ret q \<and> len q = len p - len p mod k"
  using zmod_le_nonneg_dividend [of "len p" k] pos_mod_sign [of k "len p"]
  by (simp add: slice_to_Some)

lemma DecodeCharacterString_total [no_panic]: "\<exists>s. DecodeCharacterString data = ret s"
proof (cases data)
  case (Cons e payload)
  define p where "p = (if len payload mod 2 = 1 then slice_to payload (len payload - 1) else ret payload)"
  obtain q where q: "p = ret q"
    using trim_total [of 2 payload] by (cases "len payload mod 2 = 1") (auto simp: p_def)
  obtain us where us: "u16_loop q 0 (nat (len q div 2)) = ret us" using u16_loop_total0 by blast
  obtain t where t: "slice_to payload (len payload - len payload mod 4) = ret t"
    using trim_total [of 4 payload] by auto
  obtain rs where rs: "rune_loop t 0 (nat (len t div 4)) = ret rs" using rune_loop_total0 by blast
  show ?thesis
    by (simp add: DecodeCharacterString_def Cons slice_from_Some p_def [symmetric] q us t rs)
qed (simp add: DecodeCharacterString_def)

section \<open>The character sets agree\<close>

definition scalar_value :: "int \<Rightarrow> bool" where
  "scalar_value r \<longleftrightarrow> 0 \<le> r \<and> r \<le> 0x10FFFF \<and> \<not> (0xD800 \<le> r \<and> r \<le> 0xDFFF)"

text \<open>The UTF-16 code units of a code point, as the Unicode standard defines them.\<close>

definition utf16_units :: "int \<Rightarrow> uint16 list" where
  "utf16_units r =
     (if r < 0x10000 then [word_of_int r]
      else [word_of_int (0xD800 + (r - 0x10000) div 1024), word_of_int (0xDC00 + (r - 0x10000) mod 1024)])"

lemma uint16_word_of_int: "0 \<le> n \<Longrightarrow> n < 65536 \<Longrightarrow> uint (word_of_int n :: uint16) = n"
  by (simp add: uint_word_of_int take_bit_int_eq_self)

lemma utf16_Decode_unit:
  assumes "r < 0xD800 \<or> 0xE000 \<le> r"
  shows "utf16_Decode (r # us) = uint r # utf16_Decode us"
  using assms by (cases us) simp_all

lemma utf16_Decode_units:
  assumes "scalar_value r"
  shows "utf16_Decode (utf16_units r @ us) = r # utf16_Decode us"
proof (cases "r < 0x10000")
  case True
  with assms have u: "uint (word_of_int r :: uint16) = r"
    by (intro uint16_word_of_int) (simp_all add: scalar_value_def)
  moreover have "(word_of_int r :: uint16) < 0xD800 \<or> 0xE000 \<le> (word_of_int r :: uint16)"
    using u assms by (auto simp: word_less_def word_le_def scalar_value_def)
  ultimately show ?thesis using True by (simp add: utf16_units_def utf16_Decode_unit)
next
  case False
  define h l where "h = (r - 0x10000) div 1024" and "l = (r - 0x10000) mod 1024"
  have hl: "0 \<le> h" "h < 1024" "0 \<le> l" "l < 1024" "h * 1024 + l = r - 0x10000"
    using assms False by (auto simp: h_def l_def scalar_value_def)
  have u: "uint (word_of_int (0xD800 + h) :: uint16) = 0xD800 + h"
    "uint (word_of_int (0xDC00 + l) :: uint16) = 0xDC00 + l"
    using hl by (intro uint16_word_of_int; simp)+
  show ?thesis
    using False hl u
    by (simp add: utf16_units_def word_less_def word_le_def del: of_int_add flip: h_def l_def)
qed

lemma utf16_roundtrip: "list_all scalar_value rs \<Longrightarrow> utf16_Decode (concat (map utf16_units rs)) = rs"
  by (induction rs) (simp_all add: utf16_Decode_units)

lemma u16_loop_PutUint16:
  "len pre = i * 2 \<Longrightarrow> u16_loop (pre @ concat (map PutUint16 us)) i (length us) = ret us"
proof (induction us arbitrary: pre i)
  case (Cons u us)
  have "slice_from (pre @ PutUint16 u @ concat (map PutUint16 us)) (i * 2) = ret (PutUint16 u @ concat (map PutUint16 us))"
    using Cons.prems by (intro slice_from_append) simp
  moreover have "u16_loop ((pre @ PutUint16 u) @ concat (map PutUint16 us)) (i + 1) (length us) = ret us"
    using Cons.prems by (intro Cons.IH) simp
  ultimately show ?case by simp
qed simp

lemma rune_loop_PutUint32:
  "len pre = i * 4 \<Longrightarrow> rune_loop (pre @ concat (map PutUint32 us)) i (length us) = ret (map sint us)"
proof (induction us arbitrary: pre i)
  case (Cons u us)
  have "slice_from (pre @ PutUint32 u @ concat (map PutUint32 us)) (i * 4) = ret (PutUint32 u @ concat (map PutUint32 us))"
    using Cons.prems by (intro slice_from_append) simp
  moreover have "rune_loop ((pre @ PutUint32 u) @ concat (map PutUint32 us)) (i + 1) (length us) = ret (map sint us)"
    using Cons.prems by (intro Cons.IH) simp
  ultimately show ?case by simp
qed simp

lemma len_units: "len (concat (map PutUint16 us)) = 2 * len us" "len (concat (map PutUint32 vs)) = 4 * len vs"
  by (induction us; simp) (induction vs; simp)

lemma sint_scalar: "scalar_value r \<Longrightarrow> sint (word_of_int r :: uint32) = r"
  by (simp add: scalar_value_def sint_sbintrunc' signed_take_bit_int_eq_self)

lemma map_sint_scalar: "list_all scalar_value rs \<Longrightarrow> map (sint \<circ> (word_of_int :: int \<Rightarrow> uint32)) rs = rs"
  by (induction rs) (simp_all add: sint_scalar)

lemma DecodeCharacterString_UCS2:
  "DecodeCharacterString (CharSetUCS2 # concat (map PutUint16 us)) = ret (string_of_runes (utf16_Decode us))"
  using u16_loop_PutUint16 [of "[]" 0 us]
  by (simp add: DecodeCharacterString_def slice_from_Some len_units)

lemma DecodeCharacterString_UCS4:
  "DecodeCharacterString (CharSetUCS4 # concat (map PutUint32 us)) = ret (string_of_runes (map sint us))"
proof -
  have "slice_to (concat (map PutUint32 us)) (4 * len us) = ret (concat (map PutUint32 us))"
    using len_units(2) [of us] by (simp add: slice_to_Some len_def)
  then show ?thesis
    using rune_loop_PutUint32 [of "[]" 0 us]
    by (simp add: DecodeCharacterString_def slice_from_Some len_units)
qed

lemma DecodeCharacterString_Encode [simp]: "DecodeCharacterString (EncodeCharacterString s) = ret s"
  by (simp add: DecodeCharacterString_def EncodeCharacterString_def slice_from_Some)

lemma len_EncodeCharacterString [wire_len, simp]: "len (EncodeCharacterString s) = 1 + len s"
  by (simp add: EncodeCharacterString_def)

interpretation characterString: payload_codec EncodeCharacterString DecodeCharacterString "\<lambda>s. len s < 2 ^ 32 - 1"
  by unfold_locales simp_all

lemma DecodeCharacterString_Latin1:
  "DecodeCharacterString (CharSetISO88591 # bs) = ret (string_of_runes (map uint bs))"
  by (simp add: DecodeCharacterString_def slice_from_Some)

lemma map_uint_latin1: "list_all (\<lambda>r. 0 \<le> r \<and> r < 256) rs \<Longrightarrow> map (uint \<circ> (word_of_int :: int \<Rightarrow> byte)) rs = rs"
  by (induction rs) (simp_all add: uint_word_of_int take_bit_int_eq_self)

section \<open>Properties\<close>

text \<open>
  C36: The same text decodes to the same Go string whatever Unicode character set carried it: for
  every list of Unicode scalar values, the UTF-8, UCS-2/UTF-16 (surrogate pairs included) and UCS-4
  payloads of \<open>DecodeCharacterString\<close> all give its UTF-8 string, and so does the ISO 8859-1 payload
  when all the characters are below U+0100.
\<close>

theorem character_sets_agree:
  assumes "list_all scalar_value rs"
  shows "DecodeCharacterString (CharSetUTF8 # bytes_of_string (string_of_runes rs)) = ret (string_of_runes rs) \<and>
         DecodeCharacterString (CharSetUCS2 # concat (map PutUint16 (concat (map utf16_units rs)))) = ret (string_of_runes rs) \<and>
         DecodeCharacterString (CharSetUCS4 # concat (map PutUint32 (map word_of_int rs))) = ret (string_of_runes rs) \<and>
         (list_all (\<lambda>r. r < 256) rs \<longrightarrow>
           DecodeCharacterString (CharSetISO88591 # map word_of_int rs) = ret (string_of_runes rs))"
proof (intro conjI impI)
  show "DecodeCharacterString (CharSetUTF8 # bytes_of_string (string_of_runes rs)) = ret (string_of_runes rs)"
    using DecodeCharacterString_Encode [of "string_of_runes rs"] by (simp add: EncodeCharacterString_def)
  show "DecodeCharacterString (CharSetUCS2 # concat (map PutUint16 (concat (map utf16_units rs)))) = ret (string_of_runes rs)"
    by (simp only: DecodeCharacterString_UCS2 utf16_roundtrip [OF assms])
  show "DecodeCharacterString (CharSetUCS4 # concat (map PutUint32 (map word_of_int rs))) = ret (string_of_runes rs)"
    using DecodeCharacterString_UCS4 [of "map word_of_int rs", unfolded map_map [of sint] map_sint_scalar [OF assms]] .
  assume "list_all (\<lambda>r. r < 256) rs"
  then have "list_all (\<lambda>r. 0 \<le> r \<and> r < 256) rs"
    using assms by (auto simp: list_all_iff scalar_value_def)
  then show "DecodeCharacterString (CharSetISO88591 # map word_of_int rs) = ret (string_of_runes rs)"
    by (simp only: DecodeCharacterString_Latin1 map_map map_uint_latin1)
qed

theorem character_sets_agree_witness:
  "DecodeCharacterString (CharSetUCS2 # concat (map PutUint16 (concat (map utf16_units [0x1F600, 0xE9])))) =
     ret (string_of_runes [0x1F600, 0xE9])"
  using character_sets_agree [of "[0x1F600, 0xE9]"] by (simp add: scalar_value_def)

text \<open>
  \<open>DecodeCharacterString\<close> returns a string for every payload, truncated multi-byte characters
  included, and gives back exactly what \<open>EncodeCharacterString\<close> wrote.
\<close>

theorem DecodeCharacterString_safe:
  "(\<exists>s. DecodeCharacterString data = ret s) \<and> DecodeCharacterString (EncodeCharacterString s) = ret s"
  by (simp add: DecodeCharacterString_total)

end
