(* ===== verification/Property_Value.thy ===== *)
theory Property_Value
  imports Framing Bit_String Date_Time Char_String
begin

text \<open>
  Property values between Go and the wire, from \<open>client.go\<close>: the dynamic values (\<open>interface{}\<close>) that
  the library produces and accepts, their encoder and decoder, the error decoder, and the decoders
  of the ReadProperty and ReadPropertyMultiple acknowledgements with their two nested loops.
\<close>

section \<open>Dynamic values\<close>

text \<open>
  The dynamic types the code produces or tests for. A Go \<open>int\<close> is a 64-bit integer, given by its
  value; \<open>VOther\<close> stands for a value of any further type, with the name that \<open>%T\<close> prints.
\<close>

datatype GoValue =
    VNil
  | VBool bool
  | VInt int
  | VInt32 "32 word"
  | VUint32 uint32
  | VFloat32 float32
  | VFloat64 float64
  | VString string
  | VBytes bytes
  | VBitString BitString
  | VDate Date
  | VTime Time
  | VObjectID ObjectIdentifier
  | VOther string

fun type_name :: "GoValue \<Rightarrow> string" where
  "type_name VNil = ''<nil>''"
| "type_name (VBool _) = ''bool''"
| "type_name (VInt _) = ''int''"
| "type_name (VInt32 _) = ''int32''"
| "type_name (VUint32 _) = ''uint32''"
| "type_name (VFloat32 _) = ''float32''"
| "type_name (VFloat64 _) = ''float64''"
| "type_name (VString _) = ''string''"
| "type_name (VBytes _) = ''[]uint8''"
| "type_name (VBitString _) = ''bacnet.BitString''"
| "type_name (VDate _) = ''bacnet.Date''"
| "type_name (VTime _) = ''bacnet.Time''"
| "type_name (VObjectID _) = ''bacnet.ObjectIdentifier''"
| "type_name (VOther t) = t"

record PropertyValue =
  PV_ObjectID :: ObjectIdentifier
  PV_PropertyID :: uint32
  PV_ArrayIndex :: "uint32 option"
  PV_Value :: GoValue
  PV_Priority :: "uint8 option"

section \<open>Reading a tagged unsigned integer\<close>

definition readUnsignedTag :: "bytes \<Rightarrow> int \<Rightarrow> (uint32 \<times> int) res go" where
  "readUnsignedTag data offset =
     (if offset < 0 \<or> len data < offset then ret (Err ErrInvalidResponse)
      else do {
        d \<leftarrow> slice_from data offset;
        call (DecodeTagNumber d) (\<lambda>e. ret (Err e)) (\<lambda>(_, _, lngth, headerLen).
          if lngth < 0 \<or> len data < offset + headerLen + lngth then ret (Err ErrInvalidResponse)
          else do {
            p \<leftarrow> slice data (offset + headerLen) (offset + headerLen + lngth);
            ret (Ok (DecodeUnsigned p, offset + headerLen + lngth)) }) })"

text \<open>\<open>decodeError\<close>; the conversions to \<open>ErrorClass\<close> and \<open>ErrorCode\<close> keep the low eight bits.\<close>

definition decodeError :: "bytes \<Rightarrow> goerror go" where
  "decodeError data =
     call (readUnsignedTag data 0) (\<lambda>_. ret ErrInvalidResponse) (\<lambda>(classVal, off).
     call (readUnsignedTag data off) (\<lambda>_. ret ErrInvalidResponse) (\<lambda>(codeVal, _).
       ret (NewBACnetError (ucast classVal) (ucast codeVal))))"

section \<open>One value\<close>

text \<open>
  The Go function returns a value and an error. Both components are kept, because the
  ReadPropertyMultiple decoder uses the value without looking at the error, and a malformed bit
  string comes with the zero \<open>BitString\<close> rather than with nil.
\<close>

definition invalid_value :: "(GoValue \<times> goerror option) go" where
  "invalid_value = ret (VNil, Some ErrInvalidResponse)"

definition decodeApplicationValue :: "uint8 \<Rightarrow> bytes \<Rightarrow> (GoValue \<times> goerror option) go" where
  "decodeApplicationValue tagNum valueData =
     (if tagNum = TagUnsignedInt then ret (VUint32 (DecodeUnsigned valueData), None)
      else if tagNum = TagSignedInt then ret (VInt32 (DecodeSigned valueData), None)
      else if tagNum = TagReal then
        (if len valueData \<noteq> 4 then invalid_value
         else do { f \<leftarrow> DecodeReal valueData; ret (VFloat32 f, None) })
      else if tagNum = TagDouble then
        (if len valueData \<noteq> 8 then invalid_value
         else do { f \<leftarrow> DecodeDouble valueData; ret (VFloat64 f, None) })
      else if tagNum = TagOctetString then ret (VBytes valueData, None)
      else if tagNum = TagCharacterString then
        do { s \<leftarrow> DecodeCharacterString valueData; ret (VString s, None) }
      else if tagNum = TagBitString then
        call (DecodeBitString valueData)
          (\<lambda>e. ret (VBitString \<lparr>UnusedBits = 0, Bytes = []\<rparr>, Some e)) (\<lambda>b. ret (VBitString b, None))
      else if tagNum = TagEnumerated then ret (VUint32 (DecodeUnsigned valueData), None)
      else if tagNum = TagDate then
        (if len valueData \<noteq> 4 then invalid_value
         else do { d \<leftarrow> DecodeDate valueData; ret (VDate d, None) })
      else if tagNum = TagTime then
        (if len valueData \<noteq> 4 then invalid_value
         else do { t \<leftarrow> DecodeTime valueData; ret (VTime t, None) })
      else if tagNum = TagObjectID then
        (if len valueData \<noteq> 4 then invalid_value
         else do { v \<leftarrow> BigEndian_Uint32 valueData; ret (VObjectID (DecodeObjectIdentifier v), None) })
      else ret (VBytes valueData, None))"

definition decodePropertyValue :: "bytes \<Rightarrow> (GoValue \<times> goerror option) go" where
  "decodePropertyValue data =
     (if len data < 1 then invalid_value
      else call (DecodeTagNumber data) (\<lambda>e. ret (VNil, Some e)) (\<lambda>(tagNum, class, lngth, headerLen).
        if lngth = -2 then ret (VNil, None)
        else if class = TagClassApplication then
          (if tagNum = TagNull then ret (VNil, None)
           else if tagNum = TagBoolean then ret (VBool (lngth = 1), None)
           else if len data < headerLen + lngth then invalid_value
           else do {
             valueData \<leftarrow> slice data headerLen (headerLen + lngth);
             decodeApplicationValue tagNum valueData })
        else if lngth < 0 \<or> len data < headerLen + lngth then invalid_value
        else do { out \<leftarrow> slice data headerLen (headerLen + lngth); ret (VBytes out, None) }))"

definition EncodeSignedTagged :: "32 word \<Rightarrow> bytes" where
  "EncodeSignedTagged v =
     (let data = EncodeSigned v in EncodeTag TagSignedInt TagClassApplication (len data) @ data)"

fun encodePropertyValue :: "GoValue \<Rightarrow> bytes res" where
  "encodePropertyValue VNil = Ok [0x00]"
| "encodePropertyValue (VBool v) = Ok (EncodeBooleanTag v)"
| "encodePropertyValue (VInt v) =
     Ok (if 0 \<le> v then EncodeUnsignedTag (word_of_int v) else EncodeSignedTagged (word_of_int v))"
| "encodePropertyValue (VInt32 v) =
     Ok (if 0 \<le> sint v then EncodeUnsignedTag v else EncodeSignedTagged v)"
| "encodePropertyValue (VUint32 v) = Ok (EncodeUnsignedTag v)"
| "encodePropertyValue (VFloat32 v) = Ok (EncodeRealTag v)"
| "encodePropertyValue (VFloat64 v) =
     Ok (let data = EncodeDouble v in EncodeTag TagDouble TagClassApplication (len data) @ data)"
| "encodePropertyValue (VString s) = Ok (EncodeCharacterStringTag s)"
| "encodePropertyValue (VObjectID oid) = Ok (EncodeObjectIdentifierTag oid)"
| "encodePropertyValue value = Err (Plain (''unsupported value type: '' @ type_name value))"

section \<open>The ReadProperty acknowledgement\<close>

text \<open>
  The two blocks that skip the object identifier [0] and the property identifier [1] differ only in
  the tag number; the block for the array index [2] skips the tag only when it is there.
\<close>

definition skipContextTag :: "bytes \<Rightarrow> int \<Rightarrow> uint8 \<Rightarrow> int res go" where
  "skipContextTag data offset want =
     do { d \<leftarrow> slice_from data offset;
          call (DecodeTagNumber d) (\<lambda>_. ret (Err ErrInvalidResponse)) (\<lambda>(tagNum, class, lngth, headerLen).
            if tagNum \<noteq> want \<or> class \<noteq> TagClassContext \<or> lngth < 0 then ret (Err ErrInvalidResponse)
            else if len data < offset + headerLen + lngth then ret (Err ErrInvalidResponse)
            else ret (Ok (offset + headerLen + lngth))) }"

definition skipOptionalTag :: "bytes \<Rightarrow> int \<Rightarrow> uint8 \<Rightarrow> int go" where
  "skipOptionalTag data offset want =
     (if offset < len data then
        do { d \<leftarrow> slice_from data offset;
             call (DecodeTagNumber d) (\<lambda>_. ret offset) (\<lambda>(tagNum, class, lngth, headerLen).
               if tagNum = want \<and> class = TagClassContext \<and> 0 \<le> lngth \<and> offset + headerLen + lngth \<le> len data
               then ret (offset + headerLen + lngth) else ret offset) }
      else ret offset)"

definition decodeReadPropertyResponse :: "bytes \<Rightarrow> (GoValue \<times> goerror option) go" where
  "decodeReadPropertyResponse data =
     (if len data < 8 then invalid_value
      else
        call (skipContextTag data 0 0) (\<lambda>e. ret (VNil, Some e)) (\<lambda>offset.
        call (skipContextTag data offset 1) (\<lambda>e. ret (VNil, Some e)) (\<lambda>offset.
        do {
          offset \<leftarrow> skipOptionalTag data offset 2;
          if len data \<le> offset then invalid_value
          else do {
            d \<leftarrow> slice_from data offset;
            call (DecodeTagNumber d) (\<lambda>_. invalid_value) (\<lambda>(tagNum, class, lngth, _).
              if tagNum \<noteq> 3 \<or> class \<noteq> TagClassContext \<or> lngth \<noteq> -1 then invalid_value
              else do { v \<leftarrow> slice_from data (offset + 1); decodePropertyValue v }) } })))"

section \<open>The ReadPropertyMultiple acknowledgement\<close>

lemma call_cong [fundef_cong]:
  assumes "m = m'" and "\<And>e. m' = ret (Err e) \<Longrightarrow> h e = h' e" and "\<And>x. m' = ret (Ok x) \<Longrightarrow> k x = k' x"
  shows "call m h k = call m' h' k'"
  using assms by (cases m'; cases "the m'") (auto simp: call_def)

function skipToContextClosingTag :: "bytes \<Rightarrow> int \<Rightarrow> uint8 \<Rightarrow> int go" where
  "skipToContextClosingTag data offset wantTag =
     (if offset < len data then
        do { d \<leftarrow> slice_from data offset;
             call (DecodeTagNumber d) (\<lambda>_. ret (len data)) (\<lambda>(tagNum, class, lngth, hdr).
               if lngth = -2 \<and> class = TagClassContext \<and> tagNum = wantTag then ret (offset + hdr)
               else if 0 < lngth then
                 (if len data < offset + hdr + lngth then ret (len data)
                  else skipToContextClosingTag data (offset + hdr + lngth) wantTag)
               else skipToContextClosingTag data (offset + hdr) wantTag) }
      else ret offset)"
  by pat_completeness auto
termination
  by (relation "measure (\<lambda>(data, offset, _). nat (len data - offset))")
     (auto dest!: DecodeTagNumber_bounds)

declare skipToContextClosingTag.simps [simp del]

text \<open>
  The bodies of the two loops, one iteration each: \<open>Break\<close> leaves the loop with the current offset
  and results, \<open>Continue\<close> starts the next iteration with them.
\<close>

datatype 'a control = Break 'a | Continue 'a

definition readOptionalIndex :: "bytes \<Rightarrow> int \<Rightarrow> (uint32 option \<times> int) go" where
  "readOptionalIndex data offset =
     (if offset < len data then
        do { d \<leftarrow> slice_from data offset;
             call (DecodeTagNumber d) (\<lambda>_. ret (None, offset)) (\<lambda>(peekTag, peekClass, peekLen, peekHdr).
               if peekTag = 3 \<and> peekClass = TagClassContext \<and> 0 \<le> peekLen \<and> offset + peekHdr + peekLen \<le> len data
               then do {
                 p \<leftarrow> slice data (offset + peekHdr) (offset + peekHdr + peekLen);
                 ret (Some (DecodeUnsigned p), offset + peekHdr + peekLen) }
               else ret (None, offset)) }
      else ret (None, offset))"

definition propertyResult :: "bytes \<Rightarrow> ObjectIdentifier \<Rightarrow> uint32 \<Rightarrow> uint32 option \<Rightarrow> int \<Rightarrow>
    PropertyValue list \<Rightarrow> (int \<times> PropertyValue list) control go" where
  "propertyResult data oid propID arrayIndex offset results =
     (if len data \<le> offset then ret (Break (offset, results))
      else do {
        d \<leftarrow> slice_from data offset;
        call (DecodeTagNumber d) (\<lambda>_. ret (Break (offset, results))) (\<lambda>(tagNum, class, lngth, _).
          if class \<noteq> TagClassContext \<or> lngth \<noteq> -1 then ret (Break (offset, results))
          else if tagNum = 4 then do {
            v \<leftarrow> slice_from data (offset + 1);
            value \<leftarrow> decodePropertyValue v;
            offset' \<leftarrow> skipToContextClosingTag data (offset + 1) 4;
            ret (Continue (offset', results @
              [\<lparr>PV_ObjectID = oid, PV_PropertyID = propID, PV_ArrayIndex = arrayIndex,
                PV_Value = fst value, PV_Priority = None\<rparr>])) }
          else if tagNum = 5 then do {
            offset' \<leftarrow> skipToContextClosingTag data (offset + 1) 5;
            ret (Continue (offset', results)) }
          else ret (Break (offset, results))) })"

definition propertyStep :: "bytes \<Rightarrow> ObjectIdentifier \<Rightarrow> int \<Rightarrow> PropertyValue list \<Rightarrow>
    (int \<times> PropertyValue list) control go" where
  "propertyStep data oid offset results =
     do { d \<leftarrow> slice_from data offset;
          call (DecodeTagNumber d) (\<lambda>_. ret (Break (offset, results))) (\<lambda>(tagNum, class, lngth, hdr).
            if lngth = -2 \<and> tagNum = 1 then ret (Break (offset + 1, results))
            else if tagNum \<noteq> 2 \<or> class \<noteq> TagClassContext then ret (Break (offset, results))
            else if lngth < 0 \<or> len data < offset + hdr + lngth then ret (Break (offset, results))
            else do {
              p \<leftarrow> slice data (offset + hdr) (offset + hdr + lngth);
              (arrayIndex, offset') \<leftarrow> readOptionalIndex data (offset + hdr + lngth);
              propertyResult data oid (DecodeUnsigned p) arrayIndex offset' results }) }"

text \<open>The header of the tag at a valid offset: either an error or bounded fields.\<close>

lemma tag_at_cases:
  assumes "0 \<le> offset" and "offset < len data"
  obtains (bad) d e where "slice_from data offset = ret d" "DecodeTagNumber d = ret (Err e)"
  | (good) d t c l h where "slice_from data offset = ret d" "DecodeTagNumber d = ret (Ok (t, c, l, h))"
      "1 \<le> h" "offset + h \<le> len data" "-2 \<le> l"
proof -
  obtain d where d: "slice_from data offset = ret d" "len d = len data - offset"
    using assms by (simp add: slice_from_Some)
  obtain r where r: "DecodeTagNumber d = ret r" using DecodeTagNumber_total by blast
  show ?thesis
  proof (cases r)
    case (Inl e)
    with d r bad show ?thesis by simp
  next
    case (Inr q)
    obtain t c l h where "q = (t, c, l, h)" by (cases q)
    with Inr r have "DecodeTagNumber d = ret (Ok (t, c, l, h))" by simp
    with DecodeTagNumber_bounds [OF this] d good show ?thesis by simp
  qed
qed

lemma skipToContextClosingTag_bounds:
  "0 \<le> offset \<Longrightarrow> offset \<le> len data \<Longrightarrow>
   \<exists>o'. skipToContextClosingTag data offset t = ret o' \<and> offset \<le> o' \<and> o' \<le> len data"
proof (induction data offset t rule: skipToContextClosingTag.induct)
  case (1 data offset t)
  show ?case
  proof (cases "offset < len data")
    case True
    from "1.prems"(1) True show ?thesis
    proof (cases rule: tag_at_cases)
      case bad
      with True show ?thesis by (simp add: skipToContextClosingTag.simps [of data offset])
    next
      case (good d t' c l h)
      note step = skipToContextClosingTag.simps [of data offset] good(1,2) True
      consider "l = -2 \<and> c = 1 \<and> t' = t" | "\<not> (l = -2 \<and> c = 1 \<and> t' = t)" "0 < l" "len data < offset + h + l"
        | "\<not> (l = -2 \<and> c = 1 \<and> t' = t)" "0 < l" "offset + h + l \<le> len data"
        | "\<not> (l = -2 \<and> c = 1 \<and> t' = t)" "l \<le> 0"
        by linarith
      then show ?thesis
      proof cases
        case 3
        then have "\<exists>o'. skipToContextClosingTag data (offset + h + l) t = ret o' \<and> offset + h + l \<le> o' \<and> o' \<le> len data"
          using "1.IH"(1) [OF True good(1,2)] "1.prems" good by simp
        with 3 good(3) show ?thesis by (auto simp: step)
      next
        case 4
        then have "\<exists>o'. skipToContextClosingTag data (offset + h) t = ret o' \<and> offset + h \<le> o' \<and> o' \<le> len data"
          using "1.IH"(2) [OF True good(1,2)] "1.prems" good by simp
        with 4 good(3) show ?thesis by (auto simp: step)
      qed (use good "1.prems" in \<open>auto simp: step\<close>)
    qed
  next
    case False
    then have "skipToContextClosingTag data offset t = ret offset"
      by (simp add: skipToContextClosingTag.simps [of data offset])
    with "1.prems" show ?thesis by simp
  qed
qed

lemma skipToContextClosingTag_ge:
  assumes "skipToContextClosingTag data offset t = ret o'"
  shows "offset \<le> o'"
proof (cases "0 \<le> offset \<and> offset < len data")
  case True
  then show ?thesis using skipToContextClosingTag_bounds [of offset data t] assms by simp
next
  case False
  then show ?thesis
    using assms by (subst (asm) skipToContextClosingTag.simps) (auto simp: bind_eq_Some_conv slice_from_eq_Some_iff split: if_splits)
qed

lemma readOptionalIndex_ge: "readOptionalIndex data offset = ret (i, o') \<Longrightarrow> offset \<le> o'"
  by (auto simp: readOptionalIndex_def call_iff split: if_splits dest!: DecodeTagNumber_bounds)

lemma propertyResult_ge:
  "propertyResult data oid p i offset rs = ret (Continue (o', rs')) \<Longrightarrow> offset < o'"
  "propertyResult data oid p i offset rs = ret (Break (o', rs')) \<Longrightarrow> offset \<le> o'"
  by (auto simp: propertyResult_def call_iff split: if_splits dest!: skipToContextClosingTag_ge)

lemma propertyStep_ge:
  "propertyStep data oid offset rs = ret (Continue (o', rs')) \<Longrightarrow> offset < o'"
  "propertyStep data oid offset rs = ret (Break (o', rs')) \<Longrightarrow> offset \<le> o'"
  by (auto simp: propertyStep_def call_iff split: if_splits
      dest!: DecodeTagNumber_bounds propertyResult_ge readOptionalIndex_ge)

function propertyLoop :: "bytes \<Rightarrow> ObjectIdentifier \<Rightarrow> int \<Rightarrow> PropertyValue list \<Rightarrow>
    (int \<times> PropertyValue list) go" where
  "propertyLoop data oid offset results =
     (if offset < len data then
        do { r \<leftarrow> propertyStep data oid offset results;
             (case r of Break s \<Rightarrow> ret s
              | Continue (offset', results') \<Rightarrow> propertyLoop data oid offset' results') }
      else ret (offset, results))"
  by pat_completeness auto
termination
  by (relation "measure (\<lambda>(data, _, offset, _). nat (len data - offset))")
     (auto dest!: propertyStep_ge)

declare propertyLoop.simps [simp del]

lemma propertyLoop_ge: "propertyLoop data oid offset rs = ret (o', rs') \<Longrightarrow> offset \<le> o'"
proof (induction data oid offset rs rule: propertyLoop.induct)
  case (1 data oid offset rs)
  show ?case
  proof (cases "offset < len data")
    case True
    with "1.prems" obtain r where r: "propertyStep data oid offset rs = ret r"
      and *: "(case r of Break s \<Rightarrow> ret s | Continue (o2, r2) \<Rightarrow> propertyLoop data oid o2 r2) = ret (o', rs')"
      by (subst (asm) propertyLoop.simps) (auto simp: call_iff)
    show ?thesis
    proof (cases r)
      case (Break s)
      with * r propertyStep_ge(2) show ?thesis by auto
    next
      case (Continue s)
      obtain o2 r2 where s: "s = (o2, r2)" by (cases s)
      with Continue * have "propertyLoop data oid o2 r2 = ret (o', rs')" by simp
      from "1.IH" [OF True r Continue s [symmetric] this] propertyStep_ge(1) [of data oid offset rs o2 r2] r Continue s
      show ?thesis by simp
    qed
  next
    case False
    with "1.prems" show ?thesis by (subst (asm) propertyLoop.simps) simp
  qed
qed

definition objectStep :: "bytes \<Rightarrow> int \<Rightarrow> PropertyValue list \<Rightarrow> (int \<times> PropertyValue list) control go" where
  "objectStep data offset results =
     do { d \<leftarrow> slice_from data offset;
          call (DecodeTagNumber d) (\<lambda>_. ret (Break (offset, results))) (\<lambda>(oidTagNum, oidClass, oidLen, oidHdr).
            if oidTagNum \<noteq> 0 \<or> oidClass \<noteq> TagClassContext \<or> oidLen \<noteq> 4 then ret (Break (offset, results))
            else if len data < offset + oidHdr + 4 then ret (Break (offset, results))
            else do {
              p \<leftarrow> slice data (offset + oidHdr) (offset + oidHdr + 4);
              oidValue \<leftarrow> BigEndian_Uint32 p;
              let oid = DecodeObjectIdentifier oidValue;
              let offset = offset + (oidHdr + 4);
              d \<leftarrow> slice_from data offset;
              call (DecodeTagNumber d) (\<lambda>_. ret (Break (offset, results))) (\<lambda>(tagNum, class, lngth, _).
                if tagNum \<noteq> 1 \<or> class \<noteq> TagClassContext \<or> lngth \<noteq> -1 then ret (Break (offset, results))
                else do {
                  s \<leftarrow> propertyLoop data oid (offset + 1) results;
                  ret (Continue s) }) }) }"

lemma objectStep_ge: "objectStep data offset rs = ret (Continue (o', rs')) \<Longrightarrow> offset < o'"
  by (auto simp: objectStep_def Let_def call_iff split: if_splits
      dest!: DecodeTagNumber_bounds propertyLoop_ge)

function objectLoop :: "bytes \<Rightarrow> int \<Rightarrow> PropertyValue list \<Rightarrow> PropertyValue list go" where
  "objectLoop data offset results =
     (if offset < len data then
        do { r \<leftarrow> objectStep data offset results;
             (case r of Break (_, results') \<Rightarrow> ret results'
              | Continue (offset', results') \<Rightarrow> objectLoop data offset' results') }
      else ret results)"
  by pat_completeness auto
termination
  by (relation "measure (\<lambda>(data, offset, _). nat (len data - offset))") (auto dest!: objectStep_ge)

declare objectLoop.simps [simp del]

definition decodeReadPropertyMultipleResponse :: "bytes \<Rightarrow> PropertyValue list go" where
  "decodeReadPropertyMultipleResponse data = objectLoop data 0 []"

section \<open>The decoders never panic\<close>

lemma readUnsignedTag_total [no_panic]: "\<exists>r. readUnsignedTag data off = ret r"
proof (cases "0 \<le> off \<and> off \<le> len data")
  case True
  then show ?thesis
    by (auto simp: readUnsignedTag_def slice_from_Some slice_Some
        intro!: call_total DecodeTagNumber_total dest: DecodeTagNumber_bounds)
qed (auto simp: readUnsignedTag_def)

lemma readUnsignedTag_bounds:
  assumes "readUnsignedTag data off = ret (Ok (v, off'))"
  shows "0 \<le> off \<and> off < off' \<and> off' \<le> len data"
  using assms by (auto simp: readUnsignedTag_def call_iff split: if_splits dest!: DecodeTagNumber_bounds)

lemma decodeError_total [no_panic]: "\<exists>e. decodeError data = ret e"
  by (auto simp: decodeError_def intro!: call_total readUnsignedTag_total)

lemma decodeApplicationValue_total [no_panic]: "\<exists>r. decodeApplicationValue t v = ret r"
proof -
  have four: "len v = 4 \<Longrightarrow> 4 \<le> len v" and eight: "len v = 8 \<Longrightarrow> 8 \<le> len v" by simp_all
  show ?thesis
    using BigEndian_total(2) [OF four] BigEndian_total(3) [OF eight] DecodeCharacterString_total [of v]
      DecodeDate_total [OF four] DecodeTime_total [OF four]
    by (auto simp: decodeApplicationValue_def invalid_value_def DecodeReal_def DecodeDouble_def
        simp del: split_paired_Ex intro!: call_total DecodeBitString_total)
qed

lemma decodePropertyValue_total [no_panic]: "\<exists>r. decodePropertyValue data = ret r"
  by (auto simp: decodePropertyValue_def invalid_value_def slice_Some simp del: split_paired_Ex
      intro!: call_total DecodeTagNumber_total decodeApplicationValue_total dest!: DecodeTagNumber_bounds)

lemma skipContextTag_bounds:
  assumes "0 \<le> off" and "off \<le> len data"
  shows "\<exists>r. skipContextTag data off w = ret r \<and> (\<forall>o'. r = Ok o' \<longrightarrow> off < o' \<and> o' \<le> len data)"
proof -
  have "\<exists>r. skipContextTag data off w = ret r"
    using assms by (auto simp: skipContextTag_def slice_from_Some intro!: call_total DecodeTagNumber_total)
  moreover have "off < o' \<and> o' \<le> len data" if "skipContextTag data off w = ret (Ok o')" for o'
    using that by (auto simp: skipContextTag_def call_iff split: if_splits dest!: DecodeTagNumber_bounds)
  ultimately show ?thesis by auto
qed

lemma skipOptionalTag_bounds:
  assumes "0 \<le> off" and "off \<le> len data"
  shows "\<exists>o'. skipOptionalTag data off w = ret o' \<and> off \<le> o' \<and> o' \<le> len data"
proof -
  have "\<exists>o'. skipOptionalTag data off w = ret o'"
    using assms by (auto simp: skipOptionalTag_def slice_from_Some intro!: call_total DecodeTagNumber_total)
  moreover have "off \<le> o' \<and> o' \<le> len data" if "skipOptionalTag data off w = ret o'" for o'
    using that assms(2)
    by (auto simp: skipOptionalTag_def call_iff split: if_splits dest!: DecodeTagNumber_bounds)
  ultimately show ?thesis by blast
qed

lemma decodeReadPropertyResponse_total [no_panic]: "\<exists>r. decodeReadPropertyResponse data = ret r"
proof -
  have value_part: "\<exists>r. (do { offset \<leftarrow> skipOptionalTag data off 2;
          if len data \<le> offset then invalid_value
          else do {
            d \<leftarrow> slice_from data offset;
            call (DecodeTagNumber d) (\<lambda>_. invalid_value) (\<lambda>(tagNum, class, lngth, _).
              if tagNum \<noteq> 3 \<or> class \<noteq> TagClassContext \<or> lngth \<noteq> -1 then invalid_value
              else do { v \<leftarrow> slice_from data (offset + 1); decodePropertyValue v }) } }) = ret r"
    if "0 \<le> off" "off \<le> len data" for off
  proof -
    note off = that
    obtain o' where o': "skipOptionalTag data off 2 = ret o'" "0 \<le> o'" "o' \<le> len data"
      using skipOptionalTag_bounds [OF off, of 2] off by auto
    then show ?thesis
      by (auto simp: invalid_value_def slice_from_Some simp del: split_paired_Ex
          intro!: call_total DecodeTagNumber_total decodePropertyValue_total)
  qed
  have second: "\<exists>r. skipContextTag data off w = ret r" if "0 \<le> off" "off \<le> len data" for off w
    using skipContextTag_bounds [OF that] by blast
  have bound: "0 \<le> o' \<and> o' \<le> len data" if "skipContextTag data off w = ret (Ok o')" "0 \<le> off" "off \<le> len data" for off o' w
    using skipContextTag_bounds [OF that(2,3), of w] that by auto
  show ?thesis
    by (auto simp: decodeReadPropertyResponse_def invalid_value_def simp del: split_paired_Ex
        intro!: call_total second value_part dest!: bound)
qed

lemma readOptionalIndex_bounds:
  assumes "0 \<le> off" and "off \<le> len data"
  shows "\<exists>i o'. readOptionalIndex data off = ret (i, o') \<and> off \<le> o' \<and> o' \<le> len data"
proof -
  have "\<exists>r. readOptionalIndex data off = ret r"
    using assms by (auto simp: readOptionalIndex_def slice_from_Some slice_Some simp del: split_paired_Ex
        intro!: call_total DecodeTagNumber_total dest: DecodeTagNumber_bounds)
  moreover have "off \<le> o' \<and> o' \<le> len data" if "readOptionalIndex data off = ret (i, o')" for i o'
    using that assms(2)
    by (auto simp: readOptionalIndex_def call_iff split: if_splits dest!: DecodeTagNumber_bounds)
  ultimately show ?thesis by fastforce
qed

lemma DecodeTagNumber_Nil: "DecodeTagNumber [] = ret (Err ErrInvalidAPDU)"
  by (simp add: DecodeTagNumber_def)

text \<open>Where a loop body may leave the offset: within the data, and further on if the loop goes on.\<close>

fun step_ok :: "bytes \<Rightarrow> int \<Rightarrow> (int \<times> 'a) control \<Rightarrow> bool" where
  "step_ok data off (Break (o', _)) = (off \<le> o' \<and> o' \<le> len data)"
| "step_ok data off (Continue (o', _)) = (off < o' \<and> o' \<le> len data)"

lemma propertyResult_ok:
  assumes "0 \<le> off" and "off \<le> len data"
  shows "\<exists>r. propertyResult data oid p i off rs = ret r \<and> step_ok data off r"
proof (cases "off < len data")
  case True
  from assms(1) True show ?thesis
  proof (cases rule: tag_at_cases)
    case bad
    with True show ?thesis by (auto simp: propertyResult_def simp del: split_paired_Ex)
  next
    case (good d t c l h)
    have next_off: "0 \<le> off + 1" "off + 1 \<le> len data" using assms True by simp_all
    obtain v where v: "slice_from data (off + 1) = ret v" using next_off by (simp add: slice_from_Some)
    obtain w where w: "decodePropertyValue v = ret w" using decodePropertyValue_total by blast
    obtain o4 where o4: "skipToContextClosingTag data (off + 1) 4 = ret o4" "off < o4" "o4 \<le> len data"
      using skipToContextClosingTag_bounds [OF next_off, of 4] by auto
    obtain o5 where o5: "skipToContextClosingTag data (off + 1) 5 = ret o5" "off < o5" "o5 \<le> len data"
      using skipToContextClosingTag_bounds [OF next_off, of 5] by auto
    show ?thesis
      using True good(1,2) v w o4 o5 by (simp add: propertyResult_def)
  qed
next
  case False
  with assms show ?thesis by (simp add: propertyResult_def)
qed

lemma propertyStep_ok:
  assumes "0 \<le> off" and "off < len data"
  shows "\<exists>r. propertyStep data oid off rs = ret r \<and> step_ok data off r"
  using assms
proof (cases rule: tag_at_cases)
  case bad
  with assms show ?thesis by (simp add: propertyStep_def)
next
  case (good d t c l h)
  show ?thesis
  proof (cases "t = 2 \<and> c = 1 \<and> 0 \<le> l \<and> off + h + l \<le> len data")
    case True
    then have "0 \<le> off + h + l" "off + h + l \<le> len data" using assms good(3) by simp_all
    then obtain i o' where i: "readOptionalIndex data (off + h + l) = ret (i, o')" "off + h + l \<le> o'" "o' \<le> len data"
      using readOptionalIndex_bounds by blast
    define p where "p = DecodeUnsigned (take (nat l) (drop (nat (off + h)) data))"
    obtain r where r: "propertyResult data oid p i o' rs = ret r" "step_ok data o' r"
      using propertyResult_ok [of o' data oid p i rs] i assms(1) True good(3) by auto
    have "step_ok data off r" using r(2) i(2) True good(3) by (cases r) auto
    with True good(1,2,3) assms i(1) r(1) show ?thesis
      by (simp add: propertyStep_def slice_Some p_def)
  qed (use good assms in \<open>auto simp: propertyStep_def\<close>)
qed

lemma propertyLoop_ok:
  "0 \<le> off \<Longrightarrow> off \<le> len data \<Longrightarrow>
   \<exists>o' rs'. propertyLoop data oid off rs = ret (o', rs') \<and> off \<le> o' \<and> o' \<le> len data"
proof (induction data oid off rs rule: propertyLoop.induct)
  case (1 data oid off rs)
  show ?case
  proof (cases "off < len data")
    case True
    obtain r where r: "propertyStep data oid off rs = ret r" "step_ok data off r"
      using propertyStep_ok [OF "1.prems"(1) True] by blast
    show ?thesis
    proof (cases r)
      case (Break s)
      with r True show ?thesis by (cases s) (simp add: propertyLoop.simps [of data oid off rs])
    next
      case (Continue s)
      obtain o2 r2 where s: "s = (o2, r2)" by (cases s)
      have o2: "off < o2" "o2 \<le> len data" using r(2) Continue s by simp_all
      obtain o' rs' where "propertyLoop data oid o2 r2 = ret (o', rs')" "o2 \<le> o'" "o' \<le> len data"
        using "1.IH" [OF True r(1) Continue s [symmetric]] "1.prems"(1) o2 by auto
      with True r(1) Continue s o2 show ?thesis by (simp add: propertyLoop.simps [of data oid off rs])
    qed
  next
    case False
    then have "propertyLoop data oid off rs = ret (off, rs)"
      by (simp add: propertyLoop.simps [of data oid off rs])
    with "1.prems" show ?thesis by simp
  qed
qed

lemma objectStep_ok:
  assumes "0 \<le> off" and "off < len data"
  shows "\<exists>r. objectStep data off rs = ret r \<and> step_ok data off r"
  using assms
proof (cases rule: tag_at_cases)
  case bad
  with assms show ?thesis by (simp add: objectStep_def)
next
  case (good d t c l h)
  show ?thesis
  proof (cases "t = 0 \<and> c = 1 \<and> l = 4 \<and> off + h + 4 \<le> len data")
    case True
    define p where "p = take 4 (drop (nat (off + h)) data)"
    have p: "slice data (off + h) (off + h + 4) = ret p"
      using True good(3) assms by (simp add: slice_Some p_def)
    then have "len p = 4" by (simp add: slice_len)
    then obtain v where v: "BigEndian_Uint32 p = ret v" using BigEndian_total(2) by fastforce
    define off2 where "off2 = off + (h + 4)"
    have off2: "0 \<le> off2" "off < off2" "off2 \<le> len data" using True good(3) assms by (simp_all add: off2_def)
    note step = objectStep_def Let_def good(1,2) p v off2_def [symmetric]
    show ?thesis
    proof (cases "off2 < len data")
      case True2: True
      from off2(1) True2 show ?thesis
      proof (cases rule: tag_at_cases)
        case bad
        with True off2 show ?thesis by (simp add: step)
      next
        case good2: (good d2 t2 c2 l2 h2)
        obtain o' rs' where "propertyLoop data (DecodeObjectIdentifier v) (off2 + 1) rs = ret (o', rs')"
          "off2 + 1 \<le> o'" "o' \<le> len data"
          using propertyLoop_ok [of "off2 + 1" data] off2 True2 by fastforce
        with True good2(1,2) off2 show ?thesis by (simp add: step)
      qed
    next
      case False
      then have "slice_from data off2 = ret []" using off2 by (simp add: slice_from_Some len_def)
      then show ?thesis using True off2 by (simp add: step DecodeTagNumber_Nil)
    qed
  qed (use good assms in \<open>auto simp: objectStep_def\<close>)
qed

lemma objectLoop_total: "0 \<le> off \<Longrightarrow> off \<le> len data \<Longrightarrow> \<exists>rs'. objectLoop data off rs = ret rs'"
proof (induction data off rs rule: objectLoop.induct)
  case (1 data off rs)
  show ?case
  proof (cases "off < len data")
    case True
    obtain r where r: "objectStep data off rs = ret r" "step_ok data off r"
      using objectStep_ok [OF "1.prems"(1) True] by blast
    show ?thesis
    proof (cases r)
      case (Break s)
      with r True show ?thesis by (cases s) (simp add: objectLoop.simps [of data off rs])
    next
      case (Continue s)
      obtain o2 r2 where s: "s = (o2, r2)" by (cases s)
      with "1.IH" [OF True r(1) Continue s [symmetric]] "1.prems"(1) r Continue True show ?thesis
        by (simp add: objectLoop.simps [of data off rs])
    qed
  qed (simp add: objectLoop.simps [of data off rs])
qed

lemma decodeReadPropertyMultipleResponse_total [no_panic]:
  "\<exists>rs. decodeReadPropertyMultipleResponse data = ret rs"
  by (simp add: decodeReadPropertyMultipleResponse_def objectLoop_total)

section \<open>Properties\<close>

text \<open>
  C5: No response from a peer can crash the caller: for every byte sequence the decoders of property
  values, of ReadProperty and ReadPropertyMultiple acknowledgements and of error PDUs terminate and
  return a result or an error, never with an index or slice panic.
\<close>

theorem response_decoders_never_panic:
  "(\<exists>r. decodePropertyValue data = ret r) \<and> (\<exists>r. decodeReadPropertyResponse data = ret r) \<and>
   (\<exists>rs. decodeReadPropertyMultipleResponse data = ret rs) \<and> (\<exists>e. decodeError data = ret e) \<and>
   (\<exists>r. readUnsignedTag data off = ret r)"
  by (intro conjI no_panic)

text \<open>
  C25: \<open>skipToContextClosingTag\<close>, started inside the data, terminates without a panic at an offset not
  before its start and not behind the end of the data, for every byte sequence and tag number.
\<close>

theorem skipToContextClosingTag_in_bounds:
  assumes "0 \<le> offset" and "offset \<le> len data"
  shows "\<exists>o'. skipToContextClosingTag data offset t = ret o' \<and> offset \<le> o' \<and> o' \<le> len data"
  using assms by (rule skipToContextClosingTag_bounds)

theorem skipToContextClosingTag_in_bounds_witness:
  "\<exists>o'. skipToContextClosingTag [0x21, 5, 0x4F, 0x29] 0 4 = ret o' \<and> 0 \<le> o' \<and> o' \<le> 4"
  using skipToContextClosingTag_in_bounds [of 0 "[0x21, 5, 0x4F, 0x29]" 4] by simp

end
