(* ===== verification/Services.thy ===== *)
theory Services
  imports Property_Value "HOL-Library.Multiset"
begin

text \<open>
  The service parameters the client builds, from the request part of \<open>ReadProperty\<close>,
  \<open>ReadPropertyMultiple\<close>, \<open>WriteProperty\<close>, \<open>SubscribeCOV\<close>, \<open>UnsubscribeCOV\<close> and \<open>WhoIs\<close> in
  \<open>client.go\<close>, the acknowledgements a conforming peer sends, and that the decoders read these back.
\<close>

section \<open>Requests\<close>

definition optional :: "('a \<Rightarrow> bytes) \<Rightarrow> 'a option \<Rightarrow> bytes" where
  "optional enc x = (case x of None \<Rightarrow> [] | Some v \<Rightarrow> enc v)"

definition ReadProperty_request :: "ObjectIdentifier \<Rightarrow> uint32 \<Rightarrow> uint32 option \<Rightarrow> bytes" where
  "ReadProperty_request objectID propertyID arrayIndex =
     EncodeContextObjectIdentifier 0 objectID @ EncodeContextEnumerated 1 propertyID @
     optional (EncodeContextUnsigned 2) arrayIndex"

definition WriteProperty_request ::
    "ObjectIdentifier \<Rightarrow> uint32 \<Rightarrow> GoValue \<Rightarrow> uint32 option \<Rightarrow> uint8 option \<Rightarrow> bytes res" where
  "WriteProperty_request objectID propertyID value arrayIndex priority =
     (case encodePropertyValue value of
        Inl err \<Rightarrow> Err (Wrapped (''encode value: '' @ Error err) err)
      | Inr encodedValue \<Rightarrow> Ok (
          EncodeContextObjectIdentifier 0 objectID @ EncodeContextEnumerated 1 propertyID @
          optional (EncodeContextUnsigned 2) arrayIndex @
          EncodeOpeningTag 3 @ encodedValue @ EncodeClosingTag 3 @
          optional (\<lambda>p. EncodeContextUnsigned 4 (ucast p)) priority))"

text \<open>
  \<open>ReadPropertyMultiple\<close> groups the requests by object in a map and ranges over it. Go leaves the
  order of that iteration open: it is the parameter \<open>order\<close>.
\<close>

definition objectRequests :: "ReadPropertyRequest list \<Rightarrow> ObjectIdentifier \<Rightarrow> ReadPropertyRequest list option" where
  "objectRequests requests =
     fold (\<lambda>req m. m(RPR_ObjectID req \<mapsto> (case m (RPR_ObjectID req) of None \<Rightarrow> [] | Some rs \<Rightarrow> rs) @ [req]))
       requests Map.empty"

definition propertyReference :: "ReadPropertyRequest \<Rightarrow> bytes" where
  "propertyReference req =
     EncodeContextEnumerated 0 (RPR_PropertyID req) @ optional (EncodeContextUnsigned 1) (RPR_ArrayIndex req)"

definition readAccessSpecification :: "ObjectIdentifier \<Rightarrow> ReadPropertyRequest list \<Rightarrow> bytes" where
  "readAccessSpecification oid reqs =
     EncodeContextObjectIdentifier 0 oid @ EncodeOpeningTag 1 @ concat (map propertyReference reqs) @
     EncodeClosingTag 1"

definition ReadPropertyMultiple_request :: "ObjectIdentifier list \<Rightarrow> ReadPropertyRequest list \<Rightarrow> bytes" where
  "ReadPropertyMultiple_request order requests =
     concat (map (\<lambda>oid. case objectRequests requests oid of
                          None \<Rightarrow> [] | Some reqs \<Rightarrow> readAccessSpecification oid reqs) order)"

definition SubscribeCOV_request :: "uint32 \<Rightarrow> ObjectIdentifier \<Rightarrow> bool \<Rightarrow> uint32 option \<Rightarrow> bytes" where
  "SubscribeCOV_request subID objectID confirmed lifetime =
     EncodeContextUnsigned 0 subID @ EncodeContextObjectIdentifier 1 objectID @
     (if confirmed then EncodeContextBoolean 2 True else []) @
     optional (EncodeContextUnsigned 3) lifetime"

definition UnsubscribeCOV_request :: "uint32 \<Rightarrow> ObjectIdentifier \<Rightarrow> bytes" where
  "UnsubscribeCOV_request subID objectID =
     EncodeContextUnsigned 0 subID @ EncodeContextObjectIdentifier 1 objectID"

definition WhoIs_request :: "uint32 option \<Rightarrow> uint32 option \<Rightarrow> bytes" where
  "WhoIs_request lowLimit highLimit =
     (case (lowLimit, highLimit) of
        (Some low, Some high) \<Rightarrow> EncodeContextUnsigned 0 low @ EncodeContextUnsigned 1 high
      | _ \<Rightarrow> [])"

section \<open>What a peer answers\<close>

text \<open>
  Reference encoders of the acknowledgements, as ASHRAE 135 lays them out; they are the
  specification the decoders are compared with, not code of the library.
\<close>

datatype access_result = AccessValue GoValue | AccessError uint32 uint32

definition value_bytes :: "GoValue \<Rightarrow> bytes" where
  "value_bytes v = (case encodePropertyValue v of Inl _ \<Rightarrow> [] | Inr bs \<Rightarrow> bs)"

definition readPropertyAck :: "ObjectIdentifier \<Rightarrow> uint32 \<Rightarrow> uint32 option \<Rightarrow> bytes \<Rightarrow> bytes" where
  "readPropertyAck oid pid i bs =
     EncodeContextObjectIdentifier 0 oid @ EncodeContextEnumerated 1 pid @
     optional (EncodeContextUnsigned 2) i @ EncodeOpeningTag 3 @ bs @ EncodeClosingTag 3"

fun accessResult :: "access_result \<Rightarrow> bytes" where
  "accessResult (AccessValue v) = EncodeOpeningTag 4 @ value_bytes v @ EncodeClosingTag 4"
| "accessResult (AccessError c e) =
     EncodeOpeningTag 5 @ EncodeEnumeratedTag c @ EncodeEnumeratedTag e @ EncodeClosingTag 5"

fun propertyAccess :: "uint32 \<times> uint32 option \<times> access_result \<Rightarrow> bytes" where
  "propertyAccess (pid, i, r) =
     EncodeContextEnumerated 2 pid @ optional (EncodeContextUnsigned 3) i @ accessResult r"

fun objectAccess :: "ObjectIdentifier \<times> (uint32 \<times> uint32 option \<times> access_result) list \<Rightarrow> bytes" where
  "objectAccess (oid, ps) =
     EncodeContextObjectIdentifier 0 oid @ EncodeOpeningTag 1 @ concat (map propertyAccess ps) @ EncodeClosingTag 1"

text \<open>The value a written value comes back as: integers are unsigned when not negative.\<close>

fun wire_value :: "GoValue \<Rightarrow> GoValue" where
  "wire_value (VInt v) = (if 0 \<le> v then VUint32 (word_of_int v) else VInt32 (word_of_int v))"
| "wire_value (VInt32 v) = (if 0 \<le> sint v then VUint32 v else VInt32 v)"
| "wire_value v = v"

text \<open>The values the encoder supports, of a size the wire can carry.\<close>

fun value_wire :: "GoValue \<Rightarrow> bool" where
  "value_wire (VString s) \<longleftrightarrow> len s < 2 ^ 32 - 1"
| "value_wire (VObjectID oid) \<longleftrightarrow> oid_wire oid"
| "value_wire (VBytes _) \<longleftrightarrow> False"
| "value_wire (VBitString _) \<longleftrightarrow> False"
| "value_wire (VDate _) \<longleftrightarrow> False"
| "value_wire (VTime _) \<longleftrightarrow> False"
| "value_wire (VOther _) \<longleftrightarrow> False"
| "value_wire _ \<longleftrightarrow> True"

section \<open>Values round trip\<close>

lemma decode_tagged_value:
  assumes "1 < t" and "t < 15" and "len p < 2 ^ 32"
  shows "decodePropertyValue (EncodeTag t TagClassApplication (len p) @ p @ rest) = decodeApplicationValue t p"
proof -
  define h where "h = len (EncodeTag t TagClassApplication (len p))"
  note d = tagged_decode [OF assms(2) _ assms(3) h_def, of rest]
  have "1 \<le> h" by (simp add: h_def len_EncodeTag_pos)
  then have "len p \<noteq> -2" "\<not> h + (len p + len rest) < 1"
    using len_nonneg [of p] len_nonneg [of rest] by linarith+
  moreover have "t \<noteq> 0" "t \<noteq> 1" using assms(1) by auto
  ultimately show ?thesis
    using d(1,2) by (simp add: decodePropertyValue_def flip: h_def)
qed

lemma decode_null_bool:
  "decodePropertyValue (0x00 # rest) = ret (VNil, None)"
  "decodePropertyValue (EncodeBooleanTag b @ rest) = ret (VBool b, None)"
  by (simp_all add: decodePropertyValue_def DecodeTagNumber_def EncodeBooleanTag_def)

lemma EncodeUnsigned_small: "len (EncodeUnsigned v) < 4294967296" "len (EncodeSigned w) < 4294967296"
  using len_EncodeUnsigned [of v] len_EncodeSigned [of w] by simp_all

lemmas encode_tag_defs = EncodeUnsignedTag_def EncodeSignedTagged_def EncodeRealTag_def
  EncodeCharacterStringTag_def EncodeObjectIdentifierTag_def Let_def

lemma decode_encode_value:
  assumes "value_wire v"
  shows "\<exists>bs. encodePropertyValue v = Ok bs \<and> decodePropertyValue (bs @ rest) = ret (wire_value v, None)"
proof -
  have real: "decodePropertyValue (EncodeTag 4 0 4 @ EncodeReal r @ rest) = ret (VFloat32 r, None)" for r
    using decode_tagged_value [of 4 "EncodeReal r" rest] by (simp add: decodeApplicationValue_def)
  have oid: "decodePropertyValue (EncodeTag 12 0 4 @ EncodeObjectIdentifier i @ rest) = ret (VObjectID i, None)"
    if "oid_wire i" for i
    using decode_tagged_value [of 12 "EncodeObjectIdentifier i" rest] that
    by (simp add: decodeApplicationValue_def DecodeObjectIdentifier_Encode)
  have double: "decodePropertyValue (EncodeTag 5 0 8 @ EncodeDouble d @ rest) = ret (VFloat64 d, None)" for d
    using decode_tagged_value [of 5 "EncodeDouble d" rest] by (simp add: decodeApplicationValue_def)
  have string: "decodePropertyValue (EncodeTag 7 0 (1 + len s) @ EncodeCharacterString s @ rest) = ret (VString s, None)"
    if "len s < 4294967295" for s
    using decode_tagged_value [of 7 "EncodeCharacterString s" rest] that by (simp add: decodeApplicationValue_def)
  show ?thesis
    using assms
    by (cases v)
       (simp_all add: encode_tag_defs decode_tagged_value EncodeUnsigned_small decodeApplicationValue_def
         decode_null_bool real double string oid)
qed

section \<open>Reading a tag behind a known prefix\<close>

lemma context_tag_at:
  assumes "off = len pre" and "t < 15" and "len p < 2 ^ 32"
    and "data = pre @ EncodeContextTag t p @ rest" and "h = len (EncodeTag t TagClassContext (len p))"
  shows "slice_from data off = ret (EncodeContextTag t p @ rest)"
    and "DecodeTagNumber (EncodeContextTag t p @ rest) = ret (Ok (t, TagClassContext, len p, h))"
    and "slice data (off + h) (off + h + len p) = ret p"
    and "off + h + len p \<le> len data" and "0 \<le> off" and "off < len data"
    and "off + h + len p = len (pre @ EncodeContextTag t p)"
proof -
  show "slice_from data off = ret (EncodeContextTag t p @ rest)"
    using assms(1,4) by (simp add: slice_from_append)
  show "DecodeTagNumber (EncodeContextTag t p @ rest) = ret (Ok (t, TagClassContext, len p, h))"
    using tagged_decode(1) [OF assms(2) _ assms(3,5)] by (simp add: EncodeContextTag_def)
  show "slice data (off + h) (off + h + len p) = ret p"
    using assms(1,4,5) slice_append [of "off + h" "pre @ EncodeTag t TagClassContext (len p)" "off + h + len p" p rest]
    by (simp add: EncodeContextTag_def)
  show "off + h + len p \<le> len data" "0 \<le> off" "off + h + len p = len (pre @ EncodeContextTag t p)"
    using assms(1,4,5) by (simp_all add: EncodeContextTag_def)
  show "off < len data"
    using assms(1,4) len_EncodeTag_pos [of t TagClassContext "len p"]
    by (simp add: EncodeContextTag_def add_pos_nonneg)
qed

lemma skipContextTag_at:
  assumes "off = len pre" and "t < 15" and "len p < 2 ^ 32" and "data = pre @ EncodeContextTag t p @ rest"
  shows "skipContextTag data off t = ret (Ok (len (pre @ EncodeContextTag t p)))"
proof -
  define h where "h = len (EncodeTag t TagClassContext (len p))"
  note at = context_tag_at [OF assms h_def]
  show ?thesis
    unfolding at(7) [symmetric] using at(1,2,4) by (simp add: skipContextTag_def)
qed

lemma skipOptionalTag_at:
  assumes "off = len pre" and "t < 15" and "len p < 2 ^ 32" and "data = pre @ EncodeContextTag t p @ rest"
  shows "skipOptionalTag data off t = ret (len (pre @ EncodeContextTag t p))"
proof -
  define h where "h = len (EncodeTag t TagClassContext (len p))"
  note at = context_tag_at [OF assms h_def]
  show ?thesis
    unfolding at(7) [symmetric] using at(1,2,4,6) by (simp add: skipOptionalTag_def)
qed

lemma readOptionalIndex_at:
  assumes "off = len pre" and "data = pre @ EncodeContextUnsigned 3 v @ rest"
  shows "readOptionalIndex data off = ret (Some v, len (pre @ EncodeContextUnsigned 3 v))"
proof -
  define h where "h = len (EncodeTag 3 TagClassContext (len (EncodeUnsigned v)))"
  have l: "len (EncodeUnsigned v) < 2 ^ 32" using EncodeUnsigned_small by simp
  have d: "data = pre @ EncodeContextTag 3 (EncodeUnsigned v) @ rest"
    using assms(2) by (simp add: EncodeContextUnsigned_def)
  have t: "3 < (15 :: uint8)" by simp
  note at = context_tag_at [OF assms(1) t l d h_def]
  show ?thesis
    unfolding EncodeContextUnsigned_def at(7) [symmetric]
    using at(1,2,3,4,6) by (simp add: readOptionalIndex_def)
qed

lemma opening_at:
  assumes "off = len pre" and "t < 15" and "data = pre @ EncodeOpeningTag t @ rest"
  shows "slice_from data off = ret (EncodeOpeningTag t @ rest)"
    and "DecodeTagNumber (EncodeOpeningTag t @ rest) = ret (Ok (t, TagClassContext, -1, 1))"
    and "slice_from data (off + 1) = ret rest" and "off < len data"
proof -
  show "slice_from data off = ret (EncodeOpeningTag t @ rest)"
    using assms(1,3) by (simp add: slice_from_append)
  show "DecodeTagNumber (EncodeOpeningTag t @ rest) = ret (Ok (t, TagClassContext, -1, 1))"
    using assms(2) by (rule DecodeTagNumber_Opening)
  show "slice_from data (off + 1) = ret rest"
    using assms slice_from_append [of "off + 1" "pre @ EncodeOpeningTag t" rest] by simp
  show "off < len data" using assms by simp
qed

lemma closing_at:
  assumes "off = len pre" and "t < 15" and "data = pre @ EncodeClosingTag t @ rest"
  shows "slice_from data off = ret (EncodeClosingTag t @ rest)"
    and "DecodeTagNumber (EncodeClosingTag t @ rest) = ret (Ok (t, TagClassContext, -2, 1))"
    and "off < len data"
  using assms DecodeTagNumber_Closing [OF assms(2)] by (simp_all add: slice_from_append)

lemma skipOptionalTag_opening:
  assumes "off = len pre" and "t < 15" and "data = pre @ EncodeOpeningTag t @ rest"
  shows "skipOptionalTag data off w = ret off"
  using opening_at [OF assms] by (simp add: skipOptionalTag_def)

lemma readOptionalIndex_opening:
  assumes "off = len pre" and "t < 15" and "data = pre @ EncodeOpeningTag t @ rest"
  shows "readOptionalIndex data off = ret (None, off)"
  using opening_at [OF assms] by (simp add: readOptionalIndex_def)

section \<open>The ReadProperty acknowledgement is read back\<close>

lemma skipOptionalTag_optional:
  assumes "data = pre @ optional (EncodeContextUnsigned 2) i @ EncodeOpeningTag 3 @ rest"
  shows "skipOptionalTag data (len pre) 2 = ret (len (pre @ optional (EncodeContextUnsigned 2) i))"
proof (cases i)
  case None
  then show ?thesis using skipOptionalTag_opening [of _ pre 3 data rest 2] assms by (simp add: optional_def)
next
  case (Some v)
  have "len (EncodeUnsigned v) < 2 ^ 32" using EncodeUnsigned_small by simp
  from skipOptionalTag_at [OF refl _ this, of 2 data pre "EncodeOpeningTag 3 @ rest"] Some assms
  show ?thesis by (simp add: optional_def EncodeContextUnsigned_def)
qed

lemma decodeReadPropertyResponse_layout:
  "decodeReadPropertyResponse
     (EncodeContextObjectIdentifier 0 oid @ EncodeContextEnumerated 1 pid @
      optional (EncodeContextUnsigned 2) i @ EncodeOpeningTag 3 @ rest) = decodePropertyValue rest"
proof -
  define A where "A = EncodeContextObjectIdentifier 0 oid"
  define B where "B = EncodeContextEnumerated 1 pid"
  define C where "C = optional (EncodeContextUnsigned 2) i"
  define data where "data = A @ B @ C @ EncodeOpeningTag 3 @ rest"
  have small: "len (EncodeObjectIdentifier oid) < 2 ^ 32" "len (EncodeEnumerated pid) < 2 ^ 32"
    using EncodeUnsigned_small by (simp_all add: EncodeEnumerated_def)
  have "1 \<le> len (EncodeEnumerated pid)" using len_EncodeUnsigned [of pid] by (simp add: EncodeEnumerated_def)
  then have lAB: "len A = 5" "2 \<le> len B"
    using len_EncodeTag_pos [of 1 1 "len (EncodeEnumerated pid)"]
    by (simp_all add: A_def B_def EncodeContextObjectIdentifier_def EncodeContextEnumerated_def
        EncodeContextTag_def wire_len)
  have first: "skipContextTag data 0 0 = ret (Ok (len A))"
    using skipContextTag_at [OF _ _ small(1), of 0 "[]" 0 data "B @ C @ EncodeOpeningTag 3 @ rest"]
    by (simp add: data_def A_def EncodeContextObjectIdentifier_def)
  have second: "skipContextTag data (len A) 1 = ret (Ok (len (A @ B)))"
    using skipContextTag_at [OF refl _ small(2), of 1 data A "C @ EncodeOpeningTag 3 @ rest"]
    by (simp add: data_def B_def EncodeContextEnumerated_def)
  have third: "skipOptionalTag data (len (A @ B)) 2 = ret (len (A @ B @ C))"
    using skipOptionalTag_optional [of data "A @ B" i rest] by (simp add: data_def C_def)
  have opn: "slice_from data (len (A @ B @ C)) = ret (EncodeOpeningTag 3 @ rest)"
    "DecodeTagNumber (EncodeOpeningTag 3 @ rest) = ret (Ok (3, TagClassContext, -1, 1))"
    "slice_from data (len (A @ B @ C) + 1) = ret rest" "len (A @ B @ C) < len data"
    using opening_at [of _ "A @ B @ C" 3 data rest] by (simp_all add: data_def)
  have "len data = 6 + len B + len C + len rest" using lAB by (simp add: data_def)
  then have "\<not> len data < 8"
    using lAB len_nonneg [of C] len_nonneg [of rest] by linarith
  then show ?thesis
    unfolding A_def [symmetric] B_def [symmetric] C_def [symmetric] data_def [symmetric]
    using first second third opn by (simp add: decodeReadPropertyResponse_def not_le)
qed

section \<open>The ReadPropertyMultiple acknowledgement is read back\<close>

text \<open>
  The results the decoder can step over: any access error, and any value except the Boolean True,
  whose tag octet carries the value where other tags carry a length.
\<close>

fun skippable :: "access_result \<Rightarrow> bool" where
  "skippable (AccessValue v) \<longleftrightarrow> value_wire v \<and> v \<noteq> VBool True"
| "skippable (AccessError _ _) \<longleftrightarrow> True"

fun expected_values :: "ObjectIdentifier \<Rightarrow> uint32 \<times> uint32 option \<times> access_result \<Rightarrow> PropertyValue list" where
  "expected_values oid (pid, i, AccessValue v) =
     [\<lparr>PV_ObjectID = oid, PV_PropertyID = pid, PV_ArrayIndex = i, PV_Value = wire_value v, PV_Priority = None\<rparr>]"
| "expected_values oid (pid, i, AccessError _ _) = []"

lemma skip_tagged:
  assumes "off = len pre" and "t < 15" and "c < 2" and "len p < 2 ^ 32"
    and "data = pre @ EncodeTag t c (len p) @ p @ rest"
  shows "skipToContextClosingTag data off w =
         skipToContextClosingTag data (len (pre @ EncodeTag t c (len p) @ p)) w"
proof -
  define h where "h = len (EncodeTag t c (len p))"
  have s: "slice_from data off = ret (EncodeTag t c (len p) @ p @ rest)"
    using assms(1,5) by (simp add: slice_from_append)
  note d = tagged_decode(1) [OF assms(2,3,4) h_def, of rest]
  have h: "1 \<le> h" by (simp add: h_def len_EncodeTag_pos)
  have l: "len data = off + h + len p + len rest" using assms(1,5) by (simp add: h_def)
  have "off < len data" "\<not> len data < off + h + len p" "len p \<noteq> -2"
    using h l len_nonneg [of p] len_nonneg [of rest] by linarith+
  moreover have "p = []" if "\<not> 0 < len p" using that by (simp add: len_pos_iff)
  ultimately have "skipToContextClosingTag data off w = skipToContextClosingTag data (off + h + len p) w"
    by (subst skipToContextClosingTag.simps) (auto simp: s d)
  then show ?thesis using assms(1) by (simp add: h_def add.assoc)
qed

lemma skip_closing:
  assumes "off = len pre" and "w < 15" and "data = pre @ EncodeClosingTag w @ rest"
  shows "skipToContextClosingTag data off w = ret (off + 1)"
  using closing_at [OF assms] by (subst skipToContextClosingTag.simps) simp

lemma EncodeTag_zero: "EncodeTag 0 0 0 = [0x00]" "EncodeTag 1 0 0 = [0x10]"
  by (simp_all add: EncodeTag_def)

lemma value_shape:
  assumes "value_wire v" and "v \<noteq> VBool True"
  shows "\<exists>t p. t < 15 \<and> len p < 2 ^ 32 \<and> value_bytes v = EncodeTag t 0 (len p) @ p"
proof -
  have shape: "\<exists>t p. t < 15 \<and> len p < 2 ^ 32 \<and> EncodeTag t' 0 (len p') @ p' = EncodeTag t 0 (len p) @ p"
    if "t' < 15" "len p' < 4294967296" for t' p'
    using that by auto
  show ?thesis
    using assms shape [of 0 "[]"] shape [of 1 "[]"] shape [OF _ EncodeUnsigned_small(1), of 2]
      shape [OF _ EncodeUnsigned_small(2), of 3] shape [of 4 "EncodeReal _"] shape [of 5 "EncodeDouble _"]
      shape [of 7 "EncodeCharacterString _"] shape [of 12 "EncodeObjectIdentifier _"]
    by (cases v)
       (simp_all add: value_bytes_def encode_tag_defs EncodeUnsigned_small shape EncodeBooleanTag_def EncodeTag_zero)
qed

lemma skip_value:
  assumes "value_wire v" and "v \<noteq> VBool True" and "data = pre @ value_bytes v @ EncodeClosingTag w @ rest" and "w < 15"
  shows "skipToContextClosingTag data (len pre) w = ret (len (pre @ value_bytes v @ EncodeClosingTag w))"
proof -
  obtain t p where tp: "t < 15" "len p < 2 ^ 32" "value_bytes v = EncodeTag t 0 (len p) @ p"
    using value_shape [OF assms(1,2)] by blast
  have "skipToContextClosingTag data (len pre) w = skipToContextClosingTag data (len (pre @ EncodeTag t 0 (len p) @ p)) w"
    by (rule skip_tagged [OF refl tp(1) _ tp(2)]) (simp_all add: assms(3) tp(3))
  also have "\<dots> = ret (len (pre @ value_bytes v) + 1)"
    unfolding tp(3) [symmetric] by (rule skip_closing [OF refl assms(4)]) (simp add: assms(3))
  finally show ?thesis using assms(4) by simp
qed

lemma skip_error:
  assumes "data = pre @ EncodeEnumeratedTag c @ EncodeEnumeratedTag e @ EncodeClosingTag w @ rest" and "w < 15"
  shows "skipToContextClosingTag data (len pre) w =
         ret (len (pre @ EncodeEnumeratedTag c @ EncodeEnumeratedTag e @ EncodeClosingTag w))"
proof -
  have tag: "EncodeEnumeratedTag x = EncodeTag 9 0 (len (EncodeUnsigned x)) @ EncodeUnsigned x" for x
    by (simp add: EncodeEnumeratedTag_def EncodeEnumerated_def Let_def)
  have l: "len (EncodeUnsigned x) < 2 ^ 32" for x using EncodeUnsigned_small by simp
  have step: "skipToContextClosingTag data (len p) w = skipToContextClosingTag data (len (p @ EncodeEnumeratedTag x)) w"
    if "data = p @ EncodeEnumeratedTag x @ r" for p x r
    unfolding tag by (rule skip_tagged [OF refl _ _ l]) (simp_all add: that tag)
  have "skipToContextClosingTag data (len pre) w =
        skipToContextClosingTag data (len ((pre @ EncodeEnumeratedTag c) @ EncodeEnumeratedTag e)) w"
    using step [of pre c] step [of "pre @ EncodeEnumeratedTag c" e] assms(1) by simp
  also have "\<dots> = ret (len ((pre @ EncodeEnumeratedTag c) @ EncodeEnumeratedTag e) + 1)"
    by (rule skip_closing [OF refl assms(2)]) (simp add: assms(1))
  finally show ?thesis using assms(2) by simp
qed

lemma propertyResult_at:
  assumes "skippable r" and "data = pre @ accessResult r @ rest"
  shows "propertyResult data oid pid i (len pre) rs =
         ret (Continue (len (pre @ accessResult r), rs @ expected_values oid (pid, i, r)))"
proof (cases r)
  case (AccessValue v)
  define X where "X = value_bytes v @ EncodeClosingTag 4"
  have d: "data = pre @ EncodeOpeningTag 4 @ X @ rest" using assms(2) AccessValue by (simp add: X_def)
  note at = opening_at [OF refl _ d, simplified]
  obtain bs where "encodePropertyValue v = Ok bs"
    "decodePropertyValue (bs @ EncodeClosingTag 4 @ rest) = ret (wire_value v, None)"
    using decode_encode_value [of v "EncodeClosingTag 4 @ rest"] assms(1) AccessValue by auto
  then have dec: "decodePropertyValue (X @ rest) = ret (wire_value v, None)" by (simp add: X_def value_bytes_def)
  have "skipToContextClosingTag data (len (pre @ EncodeOpeningTag 4)) 4 =
        ret (len ((pre @ EncodeOpeningTag 4) @ value_bytes v @ EncodeClosingTag 4))"
    using assms(1) AccessValue by (intro skip_value) (simp_all add: d X_def)
  then show ?thesis
    using at dec by (simp add: propertyResult_def AccessValue not_le add.assoc)
next
  case (AccessError c e)
  define X where "X = EncodeEnumeratedTag c @ EncodeEnumeratedTag e @ EncodeClosingTag 5"
  have d: "data = pre @ EncodeOpeningTag 5 @ X @ rest" using assms(2) AccessError by (simp add: X_def)
  note at = opening_at [OF refl _ d, simplified]
  have "skipToContextClosingTag data (len (pre @ EncodeOpeningTag 5)) 5 =
        ret (len ((pre @ EncodeOpeningTag 5) @ EncodeEnumeratedTag c @ EncodeEnumeratedTag e @ EncodeClosingTag 5))"
    by (rule skip_error [of _ _ _ _ _ rest]) (simp_all add: d X_def)
  then show ?thesis
    using at by (simp add: propertyResult_def AccessError not_le add.assoc)
qed

lemma accessResult_opening: "\<exists>t X. t < 15 \<and> accessResult r = EncodeOpeningTag t @ X"
proof (cases r)
  case (AccessValue v)
  then show ?thesis by (intro exI [of _ 4]) simp
next
  case (AccessError c e)
  then show ?thesis by (intro exI [of _ 5]) simp
qed

lemma readOptionalIndex_optional:
  assumes "data = pre @ optional (EncodeContextUnsigned 3) i @ accessResult r @ rest"
  shows "readOptionalIndex data (len pre) = ret (i, len (pre @ optional (EncodeContextUnsigned 3) i))"
proof (cases i)
  case None
  obtain t X where "t < 15" "accessResult r = EncodeOpeningTag t @ X" using accessResult_opening by blast
  then show ?thesis
    using readOptionalIndex_opening [of _ pre t data "X @ rest"] assms None by (simp add: optional_def)
next
  case (Some v)
  then show ?thesis
    using readOptionalIndex_at [OF refl, of data pre v "accessResult r @ rest"] assms by (simp add: optional_def)
qed

lemma propertyStep_at:
  assumes "skippable r" and "data = pre @ propertyAccess (pid, i, r) @ rest"
  shows "propertyStep data oid (len pre) rs =
         ret (Continue (len (pre @ propertyAccess (pid, i, r)), rs @ expected_values oid (pid, i, r)))"
proof -
  define A where "A = EncodeContextEnumerated 2 pid"
  define B where "B = optional (EncodeContextUnsigned 3) i"
  have small: "len (EncodeUnsigned pid) < 2 ^ 32" using EncodeUnsigned_small by simp
  have t: "2 < (15 :: uint8)" by simp
  have d: "data = pre @ EncodeContextTag 2 (EncodeUnsigned pid) @ B @ accessResult r @ rest"
    using assms(2) by (simp add: B_def EncodeContextEnumerated_def EncodeEnumerated_def)
  define h where "h = len (EncodeTag 2 TagClassContext (len (EncodeUnsigned pid)))"
  note at = context_tag_at [OF refl t small d h_def]
  have A: "A = EncodeContextTag 2 (EncodeUnsigned pid)"
    by (simp add: A_def EncodeContextEnumerated_def EncodeEnumerated_def)
  have index: "readOptionalIndex data (len (pre @ A)) = ret (i, len ((pre @ A) @ B))"
    using readOptionalIndex_optional [of data "pre @ A" i r rest] by (simp add: d A B_def)
  have res: "propertyResult data oid pid i (len ((pre @ A) @ B)) rs =
        ret (Continue (len (((pre @ A) @ B) @ accessResult r), rs @ expected_values oid (pid, i, r)))"
    by (rule propertyResult_at [OF assms(1), of _ _ rest]) (simp add: d A)
  have eq: "propertyAccess (pid, i, r) = A @ B @ accessResult r" by (simp add: A_def B_def)
  have off: "len pre + h + len (EncodeUnsigned pid) = len (pre @ A)" using at(7) A by simp
  show ?thesis
    using at(1,2) at(3,4) [unfolded off] index res unfolding eq
    by (simp add: propertyStep_def off del: len_simps(3))
qed

lemma propertyLoop_at:
  assumes "\<And>pid i r. (pid, i, r) \<in> set ps \<Longrightarrow> skippable r"
    and "data = pre @ concat (map propertyAccess ps) @ EncodeClosingTag 1 @ rest"
  shows "propertyLoop data oid (len pre) rs =
         ret (len (pre @ concat (map propertyAccess ps) @ EncodeClosingTag 1), rs @ concat (map (expected_values oid) ps))"
  using assms
proof (induction ps arbitrary: pre rs)
  case Nil
  then have d: "data = pre @ EncodeClosingTag 1 @ rest" by simp
  note at = closing_at [OF refl _ d, simplified]
  have "propertyStep data oid (len pre) rs = ret (Break (len pre + 1, rs))"
    using at by (simp add: propertyStep_def)
  with at(3) show ?case by (simp add: propertyLoop.simps [of data oid "len pre" rs])
next
  case (Cons q ps)
  obtain pid i r where q: "q = (pid, i, r)" by (cases q)
  have "skippable r" using Cons.prems(1) [of pid i r] q by simp
  then have step: "propertyStep data oid (len pre) rs =
      ret (Continue (len (pre @ propertyAccess q), rs @ expected_values oid q))"
    unfolding q by (rule propertyStep_at) (use Cons.prems(2) q in simp)
  from propertyStep_ge(1) [OF step] have "1 \<le> len (propertyAccess q)" by simp
  then have "len pre < len data" using Cons.prems(2) by (simp add: add_pos_nonneg)
  moreover have "propertyLoop data oid (len (pre @ propertyAccess q)) (rs @ expected_values oid q) =
      ret (len ((pre @ propertyAccess q) @ concat (map propertyAccess ps) @ EncodeClosingTag 1),
           (rs @ expected_values oid q) @ concat (map (expected_values oid) ps))"
    by (rule Cons.IH) (use Cons.prems in auto)
  ultimately show ?case using step by (simp add: propertyLoop.simps [of data oid "len pre" rs])
qed

lemma objectStep_at:
  assumes "\<And>pid i r. (pid, i, r) \<in> set ps \<Longrightarrow> skippable r" and "oid_wire oid"
    and "data = pre @ objectAccess (oid, ps) @ rest"
  shows "objectStep data (len pre) rs =
         ret (Continue (len (pre @ objectAccess (oid, ps)), rs @ concat (map (expected_values oid) ps)))"
proof -
  define P where "P = concat (map propertyAccess ps)"
  have d: "data = pre @ EncodeContextTag 0 (EncodeObjectIdentifier oid) @ EncodeOpeningTag 1 @ P @ EncodeClosingTag 1 @ rest"
    using assms(3) by (simp add: P_def EncodeContextObjectIdentifier_def)
  define A where "A = EncodeContextTag 0 (EncodeObjectIdentifier oid)"
  have small: "len (EncodeObjectIdentifier oid) < 2 ^ 32" by simp
  have t: "0 < (15 :: uint8)" by simp
  have "1 = len (EncodeTag 0 TagClassContext (len (EncodeObjectIdentifier oid)))" by (simp add: wire_len)
  note at = context_tag_at [OF refl t small d this]
  have la: "len A = 5" by (simp add: A_def EncodeContextTag_def wire_len)
  have t1: "1 < (15 :: uint8)" by simp
  note opn = opening_at [of "len (pre @ A)" "pre @ A" 1 data "P @ EncodeClosingTag 1 @ rest"]
  have dd: "data = (pre @ A) @ EncodeOpeningTag 1 @ P @ EncodeClosingTag 1 @ rest" by (simp add: d A_def)
  have loop: "propertyLoop data oid (len (pre @ A @ EncodeOpeningTag 1)) rs =
      ret (len ((pre @ A @ EncodeOpeningTag 1) @ P @ EncodeClosingTag 1), rs @ concat (map (expected_values oid) ps))"
    unfolding P_def by (rule propertyLoop_at [OF assms(1), of ps]) (simp_all add: dd P_def)
  then have "propertyLoop data oid (6 + len pre) rs =
      ret (len ((pre @ A @ EncodeOpeningTag 1) @ P @ EncodeClosingTag 1), rs @ concat (map (expected_values oid) ps))"
    by (simp add: la add.commute [of 6])
  note loop = loop this
  have eq: "objectAccess (oid, ps) = A @ EncodeOpeningTag 1 @ P @ EncodeClosingTag 1"
    by (simp add: A_def P_def EncodeContextObjectIdentifier_def)
  show ?thesis
    using at(1-4) opn(1,2) [OF refl t1 dd] loop assms(2)
    unfolding eq
    by (simp add: objectStep_def Let_def la DecodeObjectIdentifier_Encode)
qed

fun access_wire :: "ObjectIdentifier \<times> (uint32 \<times> uint32 option \<times> access_result) list \<Rightarrow> bool" where
  "access_wire (oid, ps) \<longleftrightarrow> oid_wire oid \<and> list_all (\<lambda>(pid, i, r). skippable r) ps"

lemma objectLoop_at:
  assumes "list_all access_wire os"
    and "data = pre @ concat (map objectAccess os)"
  shows "objectLoop data (len pre) rs = ret (rs @ concat (map (\<lambda>(oid, ps). concat (map (expected_values oid) ps)) os))"
  using assms
proof (induction os arbitrary: pre rs)
  case Nil
  then show ?case by (subst objectLoop.simps) simp
next
  case (Cons q os)
  obtain oid ps where q: "q = (oid, ps)" by (cases q)
  have ok: "oid_wire oid" "\<And>pid i r. (pid, i, r) \<in> set ps \<Longrightarrow> skippable r"
    using Cons.prems(1) q by (auto simp: list_all_iff)
  have step: "objectStep data (len pre) rs =
      ret (Continue (len (pre @ objectAccess q), rs @ concat (map (expected_values oid) ps)))"
    unfolding q by (rule objectStep_at [OF ok(2,1)]) (use Cons.prems(2) q in simp_all)
  from objectStep_ge [OF step] have "1 \<le> len (objectAccess q)" by simp
  then have "len pre < len data" using Cons.prems(2) by (simp add: add_pos_nonneg)
  moreover have "objectLoop data (len (pre @ objectAccess q)) (rs @ concat (map (expected_values oid) ps)) =
      ret ((rs @ concat (map (expected_values oid) ps)) @ concat (map (\<lambda>(oid, ps). concat (map (expected_values oid) ps)) os))"
    by (rule Cons.IH) (use Cons.prems in auto)
  ultimately show ?case using step q by (simp add: objectLoop.simps [of data "len pre" rs])
qed

section \<open>The Boolean True in a ReadPropertyMultiple acknowledgement\<close>

lemma skip_opening:
  assumes "off = len pre" and "t < 15" and "data = pre @ EncodeOpeningTag t @ rest"
  shows "skipToContextClosingTag data off w = skipToContextClosingTag data (off + 1) w"
  using opening_at [OF assms] by (subst skipToContextClosingTag.simps) simp

lemma skip_true:
  assumes "data = pre @ [0x11, 0x4F] @ rest"
  shows "skipToContextClosingTag data (len pre) 4 = skipToContextClosingTag data (len (pre @ [0x11, 0x4F])) 4"
proof -
  have e: "EncodeTag 1 0 (len [0x4F :: byte]) = [0x11]" by (simp add: EncodeTag_def)
  show ?thesis
    using skip_tagged [of "len pre" pre 1 0 "[0x4F]" data rest 4] assms unfolding e by simp
qed

lemma EncodeClosingTag_4: "EncodeClosingTag 4 = [0x4F]"
  by (simp add: EncodeClosingTag_def)

lemma skip_true_swallows:
  assumes "skippable (AccessValue v)"
    and "data = pre @ EncodeBooleanTag True @ EncodeClosingTag 4 @ propertyAccess (p2, None, AccessValue v) @ rest"
  shows "skipToContextClosingTag data (len pre) 4 =
         ret (len (pre @ EncodeBooleanTag True @ EncodeClosingTag 4 @ propertyAccess (p2, None, AccessValue v)))"
proof -
  define A where "A = pre @ [0x11, 0x4F :: byte]"
  define B where "B = EncodeTag 2 TagClassContext (len (EncodeUnsigned p2)) @ EncodeUnsigned p2"
  have l: "len (EncodeUnsigned p2) < 2 ^ 32" using EncodeUnsigned_small by simp
  have acc: "propertyAccess (p2, None, AccessValue v) = B @ EncodeOpeningTag 4 @ value_bytes v @ EncodeClosingTag 4"
    by (simp add: optional_def B_def EncodeContextEnumerated_def EncodeEnumerated_def EncodeContextTag_def)
  have d: "data = A @ B @ EncodeOpeningTag 4 @ value_bytes v @ EncodeClosingTag 4 @ rest"
    using assms(2) unfolding acc by (simp add: A_def EncodeBooleanTag_def EncodeClosingTag_4)
  have "skipToContextClosingTag data (len pre) 4 = skipToContextClosingTag data (len A) 4"
    unfolding A_def by (rule skip_true) (simp add: d A_def)
  also have "\<dots> = skipToContextClosingTag data (len (A @ B)) 4"
    unfolding B_def by (rule skip_tagged [OF refl _ _ l]) (simp_all add: d B_def)
  also have "\<dots> = skipToContextClosingTag data (len (A @ B) + 1) 4"
    by (rule skip_opening [OF refl, of 4]) (simp_all add: d)
  also have "\<dots> = skipToContextClosingTag data (len (A @ B @ EncodeOpeningTag 4)) 4"
    by (simp add: add.assoc)
  also have "\<dots> = ret (len ((A @ B @ EncodeOpeningTag 4) @ value_bytes v @ EncodeClosingTag 4))"
    using assms(1) by (intro skip_value) (simp_all add: d)
  finally show ?thesis
    unfolding acc by (simp add: A_def EncodeBooleanTag_def EncodeClosingTag_4)
qed

lemma propertyStep_true_swallows:
  assumes "skippable (AccessValue v)"
    and "data = pre @ propertyAccess (p1, None, AccessValue (VBool True)) @ propertyAccess (p2, None, AccessValue v) @
           EncodeClosingTag 1 @ rest"
  shows "propertyStep data oid (len pre) rs =
    ret (Continue (len (pre @ propertyAccess (p1, None, AccessValue (VBool True)) @ propertyAccess (p2, None, AccessValue v)),
      rs @ expected_values oid (p1, None, AccessValue (VBool True))))"
proof -
  define A where "A = EncodeContextEnumerated 2 p1"
  define X where "X = EncodeBooleanTag True @ EncodeClosingTag 4 @ propertyAccess (p2, None, AccessValue v) @ EncodeClosingTag 1 @ rest"
  have small: "len (EncodeUnsigned p1) < 2 ^ 32" using EncodeUnsigned_small by simp
  have t: "2 < (15 :: uint8)" by simp
  have A: "A = EncodeContextTag 2 (EncodeUnsigned p1)"
    by (simp add: A_def EncodeContextEnumerated_def EncodeEnumerated_def)
  have d: "data = pre @ EncodeContextTag 2 (EncodeUnsigned p1) @ EncodeOpeningTag 4 @ X"
    using assms(2) by (simp add: X_def optional_def value_bytes_def EncodeContextEnumerated_def EncodeEnumerated_def)
  have dA: "data = (pre @ A) @ EncodeOpeningTag 4 @ X" using d A by simp
  define h where "h = len (EncodeTag 2 TagClassContext (len (EncodeUnsigned p1)))"
  note at = context_tag_at [OF refl t small d h_def]
  have off: "len pre + h + len (EncodeUnsigned p1) = len (pre @ A)" using at(7) A by simp
  have index: "readOptionalIndex data (len (pre @ A)) = ret (None, len (pre @ A))"
    by (rule readOptionalIndex_opening [OF refl _ dA]) simp
  note opn = opening_at [OF refl _ dA, simplified]
  have skip: "skipToContextClosingTag data (len (pre @ A @ EncodeOpeningTag 4)) 4 =
      ret (len ((pre @ A @ EncodeOpeningTag 4) @ EncodeBooleanTag True @ EncodeClosingTag 4 @ propertyAccess (p2, None, AccessValue v)))"
    by (rule skip_true_swallows [OF assms(1)]) (simp add: dA X_def)
  have res: "propertyResult data oid p1 None (len (pre @ A)) rs =
      ret (Continue (len (pre @ propertyAccess (p1, None, AccessValue (VBool True)) @ propertyAccess (p2, None, AccessValue v)),
        rs @ expected_values oid (p1, None, AccessValue (VBool True))))"
    using opn skip decode_null_bool(2) [of True]
    by (simp add: propertyResult_def not_le add.assoc X_def A_def optional_def value_bytes_def
        del: propertyAccess.simps(1) add: propertyAccess.simps(1) [of p1])
  show ?thesis
    using at(1,2) at(3,4) [unfolded off] index res
    by (simp add: propertyStep_def off del: len_simps(3) propertyAccess.simps)
qed

lemma objectStep_true_swallows:
  assumes "skippable (AccessValue v)" and "oid_wire oid"
    and "data = objectAccess (oid, [(p1, None, AccessValue (VBool True)), (p2, None, AccessValue v)])"
  shows "objectStep data 0 [] = ret (Continue (len data, expected_values oid (p1, None, AccessValue (VBool True))))"
proof -
  define A where "A = EncodeContextTag 0 (EncodeObjectIdentifier oid)"
  define P where "P = propertyAccess (p1, None, AccessValue (VBool True)) @ propertyAccess (p2, None, AccessValue v)"
  have d: "data = [] @ EncodeContextTag 0 (EncodeObjectIdentifier oid) @ EncodeOpeningTag 1 @ P @ EncodeClosingTag 1"
    using assms(3) by (simp add: P_def EncodeContextObjectIdentifier_def)
  have dA: "data = A @ EncodeOpeningTag 1 @ P @ EncodeClosingTag 1" by (simp add: d A_def)
  have "1 = len (EncodeTag 0 TagClassContext (len (EncodeObjectIdentifier oid)))" by (simp add: wire_len)
  note at = context_tag_at [OF _ _ _ d this, of 0, simplified]
  have la: "len A = 5" by (simp add: A_def EncodeContextTag_def wire_len)
  note opn = opening_at [OF refl _ dA, simplified]
  have step: "propertyStep data oid (len (A @ EncodeOpeningTag 1)) [] =
      ret (Continue (len ((A @ EncodeOpeningTag 1) @ P), [] @ expected_values oid (p1, None, AccessValue (VBool True))))"
    using propertyStep_true_swallows [OF assms(1), of data "A @ EncodeOpeningTag 1" p1 p2 "[]" oid "[]"]
    by (simp add: dA P_def)
  have rest: "propertyLoop data oid (len (A @ EncodeOpeningTag 1 @ P)) rs = ret (len data, rs)" for rs
    using propertyLoop_at [of "[]" data "A @ EncodeOpeningTag 1 @ P" "[]" oid rs] by (simp add: dA)
  have lt: "len (A @ EncodeOpeningTag 1) < len data"
    using propertyStep_ge(1) [OF step] by (simp add: dA)
  have loop: "propertyLoop data oid 6 [] = ret (len data, expected_values oid (p1, None, AccessValue (VBool True)))"
    using lt step rest by (simp add: propertyLoop.simps [of data oid 6] la)
  show ?thesis
    using at opn loop assms(2)
    by (simp add: objectStep_def Let_def la A_def DecodeObjectIdentifier_Encode)
qed

lemma objectRequests_filter:
  "objectRequests requests oid =
     (if oid \<in> RPR_ObjectID ` set requests then Some (filter (\<lambda>r. RPR_ObjectID r = oid) requests) else None)"
proof -
  define f where "f = (\<lambda>(req :: ReadPropertyRequest) m. m(RPR_ObjectID req \<mapsto> (case m (RPR_ObjectID req) of None \<Rightarrow> [] | Some rs \<Rightarrow> rs) @ [req]))"
  have "fold f requests m oid =
      (if oid \<in> RPR_ObjectID ` set requests
       then Some ((case m oid of None \<Rightarrow> [] | Some rs \<Rightarrow> rs) @ filter (\<lambda>r. RPR_ObjectID r = oid) requests)
       else m oid)" for m
  proof (induction requests arbitrary: m)
    case (Cons r rs)
    have "oid \<notin> RPR_ObjectID ` set rs \<Longrightarrow> filter (\<lambda>r. RPR_ObjectID r = oid) rs = []"
      by (auto simp: filter_empty_conv)
    with Cons show ?case by (auto simp: f_def)
  qed simp
  from this [of Map.empty] show ?thesis by (simp add: objectRequests_def f_def)
qed

lemma readUnsignedTag_at:
  assumes "t < 15" and "c < 2"
  shows "readUnsignedTag (pre @ EncodeTag t c (len (EncodeUnsigned x)) @ EncodeUnsigned x @ r) (len pre) =
         ret (Ok (x, len (pre @ EncodeTag t c (len (EncodeUnsigned x)) @ EncodeUnsigned x)))"
proof -
  define h where "h = len (EncodeTag t c (len (EncodeUnsigned x)))"
  have l: "len (EncodeUnsigned x) < 2 ^ 32" using EncodeUnsigned_small by simp
  note d = tagged_decode(1) [OF assms l h_def, of r]
  have "slice (pre @ EncodeTag t c (len (EncodeUnsigned x)) @ EncodeUnsigned x @ r)
      (len pre + h) (len pre + h + len (EncodeUnsigned x)) = ret (EncodeUnsigned x)"
    using slice_append [of "len pre + h" "pre @ EncodeTag t c (len (EncodeUnsigned x))" _ "EncodeUnsigned x" r]
    by (simp add: h_def)
  then show ?thesis
    using d by (simp add: readUnsignedTag_def slice_from_append h_def add.assoc not_less add_nonneg_nonneg)
qed

section \<open>Properties\<close>

text \<open>
  C15: A value written is the value read: every supported dynamic value of a size the wire can carry
  is encoded, and decoding the bytes, whatever follows them, gives the value back without an error
  (a non-negative integer comes back as \<open>uint32\<close>, a negative one as \<open>int32\<close>).
\<close>

theorem property_value_roundtrip:
  assumes "value_wire v"
  shows "\<exists>bs. encodePropertyValue v = Ok bs \<and> decodePropertyValue (bs @ rest) = ret (wire_value v, None)"
  using assms by (rule decode_encode_value)

theorem property_value_roundtrip_witness:
  "\<exists>bs. encodePropertyValue (VInt (-200)) = Ok bs \<and> decodePropertyValue (bs @ [0x3F]) = ret (VInt32 (-200), None)"
  using property_value_roundtrip [of "VInt (-200)" "[0x3F]"] by simp

text \<open>
  C16: A ReadProperty acknowledgement in the standard layout, with or without an array index, is
  decoded to the value it carries; and the parameters \<open>WriteProperty\<close> sends have that layout, so that
  reading them gives the written value.
\<close>

theorem read_write_property_roundtrip:
  assumes "value_wire v" and "WriteProperty_request oid pid v i prio = Ok data"
  shows "decodeReadPropertyResponse (readPropertyAck oid pid i (value_bytes v)) = ret (wire_value v, None) \<and>
         decodeReadPropertyResponse data = ret (wire_value v, None)"
proof -
  obtain bs where bs: "encodePropertyValue v = Ok bs" "value_bytes v = bs"
    using decode_encode_value [OF assms(1), of "[]"] by (auto simp: value_bytes_def)
  have dec: "decodePropertyValue (bs @ rest) = ret (wire_value v, None)" for rest
    using decode_encode_value [OF assms(1), of rest] bs(1) by auto
  show ?thesis
    using assms(2) bs dec
    by (auto simp: WriteProperty_request_def readPropertyAck_def decodeReadPropertyResponse_layout)
qed

theorem read_write_property_roundtrip_witness:
  "\<exists>data. WriteProperty_request \<lparr>OID_Type = 2, OID_Instance = 1\<rparr> 85 (VUint32 300) None (Some 8) = Ok data \<and>
     decodeReadPropertyResponse data = ret (VUint32 300, None)"
proof -
  obtain data where d: "WriteProperty_request \<lparr>OID_Type = 2, OID_Instance = 1\<rparr> 85 (VUint32 300) None (Some 8) = Ok data"
    by (simp add: WriteProperty_request_def)
  with read_write_property_roundtrip [OF _ d] show ?thesis by simp
qed

text \<open>
  C7: A ReadPropertyMultiple acknowledgement is decoded completely and in order: for every list of
  objects, each with any number of values and access errors, the decoder returns exactly one entry
  per value, with its object, property, array index and value, and passes over the errors. The
  values are those the encoder supports, other than the Boolean True.
\<close>

theorem read_property_multiple_roundtrip:
  assumes "list_all access_wire os"
  shows "decodeReadPropertyMultipleResponse (concat (map objectAccess os)) =
         ret (concat (map (\<lambda>(oid, ps). concat (map (expected_values oid) ps)) os))"
  using objectLoop_at [OF assms, of _ "[]" "[]"] by (simp add: decodeReadPropertyMultipleResponse_def)

theorem read_property_multiple_roundtrip_witness:
  "decodeReadPropertyMultipleResponse
     (objectAccess (\<lparr>OID_Type = 0, OID_Instance = 7\<rparr>,
        [(85, None, AccessValue (VUint32 5)), (28, Some 1, AccessError 2 32), (77, None, AccessValue (VString ''x''))])) =
   ret [\<lparr>PV_ObjectID = \<lparr>OID_Type = 0, OID_Instance = 7\<rparr>, PV_PropertyID = 85, PV_ArrayIndex = None,
          PV_Value = VUint32 5, PV_Priority = None\<rparr>,
        \<lparr>PV_ObjectID = \<lparr>OID_Type = 0, OID_Instance = 7\<rparr>, PV_PropertyID = 77, PV_ArrayIndex = None,
          PV_Value = VString ''x'', PV_Priority = None\<rparr>]"
  using read_property_multiple_roundtrip [of "[(\<lparr>OID_Type = 0, OID_Instance = 7\<rparr>,
        [(85, None, AccessValue (VUint32 5)), (28, Some 1, AccessError 2 32), (77, None, AccessValue (VString ''x''))])]"]
  by (simp add: oid_wire_def del: objectAccess.simps)

text \<open>
  C23: A Boolean property that is True makes the decoder lose the next property: the tag octet of
  True is read as announcing one octet of payload, which swallows the closing tag, and the search
  for the closing tag ends only behind the following property. The acknowledgement carries two
  values and the result has one, without an error.
\<close>

theorem true_value_hides_next_property:
  assumes "oid_wire oid" and "value_wire v" and "v \<noteq> VBool True"
  shows "decodeReadPropertyMultipleResponse
           (objectAccess (oid, [(p1, None, AccessValue (VBool True)), (p2, None, AccessValue v)])) =
         ret [\<lparr>PV_ObjectID = oid, PV_PropertyID = p1, PV_ArrayIndex = None, PV_Value = VBool True, PV_Priority = None\<rparr>]"
proof -
  define data where "data = objectAccess (oid, [(p1, None, AccessValue (VBool True)), (p2, None, AccessValue v)])"
  have step: "objectStep data 0 [] = ret (Continue (len data, expected_values oid (p1, None, AccessValue (VBool True))))"
    by (rule objectStep_true_swallows [OF _ assms(1) data_def]) (simp add: assms)
  have pos: "0 < len data" using objectStep_ge [OF step] by simp
  show ?thesis
    unfolding data_def [symmetric]
    using step pos objectLoop.simps [of data "len data"]
    by (simp add: decodeReadPropertyMultipleResponse_def objectLoop.simps [of data 0 "[]"])
qed

theorem true_value_hides_next_property_witness:
  "decodeReadPropertyMultipleResponse
     (objectAccess (\<lparr>OID_Type = 5, OID_Instance = 1\<rparr>,
        [(81, None, AccessValue (VBool True)), (85, None, AccessValue (VUint32 3))])) =
   ret [\<lparr>PV_ObjectID = \<lparr>OID_Type = 5, OID_Instance = 1\<rparr>, PV_PropertyID = 81, PV_ArrayIndex = None,
          PV_Value = VBool True, PV_Priority = None\<rparr>]"
  by (rule true_value_hides_next_property) (simp_all add: oid_wire_def)

text \<open>
  C24: The ReadPropertyMultiple request asks for every requested property exactly once, under its own
  object and in the given order, whatever order the iteration over the map of objects takes.
\<close>

theorem read_property_multiple_request_groups:
  assumes "distinct order" and "set order = RPR_ObjectID ` set requests"
  shows "ReadPropertyMultiple_request order requests =
           concat (map (\<lambda>oid. readAccessSpecification oid (filter (\<lambda>r. RPR_ObjectID r = oid) requests)) order) \<and>
         mset (concat (map (\<lambda>oid. the (objectRequests requests oid)) order)) = mset requests"
proof
  show "ReadPropertyMultiple_request order requests =
      concat (map (\<lambda>oid. readAccessSpecification oid (filter (\<lambda>r. RPR_ObjectID r = oid) requests)) order)"
    unfolding ReadPropertyMultiple_request_def
    by (rule arg_cong [where f = concat], rule map_cong [OF refl]) (simp add: objectRequests_filter flip: assms(2))
  have eq: "map (\<lambda>oid. the (objectRequests requests oid)) order =
      map (\<lambda>oid. filter (\<lambda>r. RPR_ObjectID r = oid) requests) order"
    by (rule map_cong [OF refl]) (simp add: objectRequests_filter flip: assms(2))
  have "mset (concat (map (\<lambda>oid. filter (\<lambda>r. RPR_ObjectID r = oid) requests) order)) =
      mset (filter (\<lambda>r. RPR_ObjectID r \<in> set order) requests)"
    using assms(1)
  proof (induction order)
    case (Cons oid order)
    have "mset (filter (\<lambda>r. RPR_ObjectID r = oid) requests) + mset (filter (\<lambda>r. RPR_ObjectID r \<in> set order) requests) =
        mset (filter (\<lambda>r. RPR_ObjectID r = oid \<or> RPR_ObjectID r \<in> set order) requests)"
      using Cons.prems by (induction requests) auto
    with Cons show ?case by simp
  qed simp
  also have "filter (\<lambda>r. RPR_ObjectID r \<in> set order) requests = requests"
    using assms(2) by (simp add: filter_id_conv)
  finally show "mset (concat (map (\<lambda>oid. the (objectRequests requests oid)) order)) = mset requests"
    unfolding eq .
qed

theorem read_property_multiple_request_groups_witness:
  "ReadPropertyMultiple_request [\<lparr>OID_Type = 0, OID_Instance = 1\<rparr>]
     [\<lparr>RPR_ObjectID = \<lparr>OID_Type = 0, OID_Instance = 1\<rparr>, RPR_PropertyID = 85, RPR_ArrayIndex = None\<rparr>] =
   readAccessSpecification \<lparr>OID_Type = 0, OID_Instance = 1\<rparr>
     [\<lparr>RPR_ObjectID = \<lparr>OID_Type = 0, OID_Instance = 1\<rparr>, RPR_PropertyID = 85, RPR_ArrayIndex = None\<rparr>]"
  using read_property_multiple_request_groups [of "[\<lparr>OID_Type = 0, OID_Instance = 1\<rparr>]"
    "[\<lparr>RPR_ObjectID = \<lparr>OID_Type = 0, OID_Instance = 1\<rparr>, RPR_PropertyID = 85, RPR_ArrayIndex = None\<rparr>]"]
  by simp

text \<open>
  \<open>SubscribeCOV\<close> with its default options (unconfirmed, no lifetime) sends the very parameters with
  which \<open>UnsubscribeCOV\<close> cancels the subscription; it is an actual subscription only when a
  lifetime or confirmed notifications are asked for.
\<close>

theorem default_subscription_is_cancellation:
  "SubscribeCOV_request subID oid confirmed lifetime = UnsubscribeCOV_request subID oid \<longleftrightarrow>
     confirmed = False \<and> lifetime = None"
proof -
  have "EncodeContextUnsigned 3 l \<noteq> []" for l
    using len_EncodeTag_pos [of 3 1 "len (EncodeUnsigned l)"]
    by (auto simp: EncodeContextUnsigned_def EncodeContextTag_def)
  moreover have "EncodeContextBoolean 2 True \<noteq> []" by (simp add: EncodeContextBoolean_def EncodeContextTag_def)
  ultimately show ?thesis
    by (simp add: SubscribeCOV_request_def UnsubscribeCOV_request_def optional_def split: option.splits)
qed

text \<open>
  C31: An error PDU with an error class and an error code becomes the BACnet error of exactly these,
  reduced to the eight bits the library keeps of each; so classes and codes below 256 are reported
  as sent, and proprietary codes above are folded onto the standard ones.
\<close>

theorem decodeError_exact:
  "decodeError (EncodeEnumeratedTag c @ EncodeEnumeratedTag e @ rest) =
     ret (BACnetErr \<lparr>Class = ucast c, Code = ucast e\<rparr>)"
proof -
  have tag: "EncodeEnumeratedTag x = EncodeTag 9 0 (len (EncodeUnsigned x)) @ EncodeUnsigned x" for x
    by (simp add: EncodeEnumeratedTag_def EncodeEnumerated_def Let_def)
  have read: "readUnsignedTag (pre @ EncodeEnumeratedTag x @ r) (len pre) = ret (Ok (x, len (pre @ EncodeEnumeratedTag x)))"
    for pre x r
    using readUnsignedTag_at [of 9 0 pre x r] by (simp add: tag)
  show ?thesis
    using read [of "[]" c "EncodeEnumeratedTag e @ rest"] read [of "EncodeEnumeratedTag c" e rest]
    by (simp add: decodeError_def NewBACnetError_def)
qed

end
