(* ===== verification/Client_Metrics.thy ===== *)
theory Client_Metrics
  imports Go_Prelude "HOL-Library.Signed_Division" "HOL-Library.Multiset"
begin

text \<open>
  The client metrics of \<open>metrics.go\<close>: counters and gauges (64-bit integers that wrap), the latency
  histogram, the metrics record with reset and snapshot. The operations are atomic in the source
  (\<open>sync/atomic\<close> or the histogram's mutex), so each is one step here; the clock is a parameter.
  The histogram is shown to refine the list of recorded durations.
\<close>

type_synonym int64 = "64 word"

section \<open>Counters and gauges\<close>

record Counter =
  counter_value :: int64

definition Counter_Add :: "int64 \<Rightarrow> Counter \<Rightarrow> Counter" where
  "Counter_Add delta c = c\<lparr>counter_value := counter_value c + delta\<rparr>"

definition Counter_Inc :: "Counter \<Rightarrow> Counter" where
  "Counter_Inc c = Counter_Add 1 c"

definition Counter_Value :: "Counter \<Rightarrow> int64" where
  "Counter_Value c = counter_value c"

definition Counter_Reset :: "Counter \<Rightarrow> Counter" where
  "Counter_Reset c = c\<lparr>counter_value := 0\<rparr>"

definition Counter_zero :: Counter where
  "Counter_zero = \<lparr>counter_value = 0\<rparr>"

record Gauge =
  gauge_value :: int64

definition Gauge_Set :: "int64 \<Rightarrow> Gauge \<Rightarrow> Gauge" where
  "Gauge_Set v g = g\<lparr>gauge_value := v\<rparr>"

definition Gauge_Add :: "int64 \<Rightarrow> Gauge \<Rightarrow> Gauge" where
  "Gauge_Add delta g = g\<lparr>gauge_value := gauge_value g + delta\<rparr>"

definition Gauge_Inc :: "Gauge \<Rightarrow> Gauge" where
  "Gauge_Inc g = Gauge_Add 1 g"

definition Gauge_Dec :: "Gauge \<Rightarrow> Gauge" where
  "Gauge_Dec g = Gauge_Add (-1) g"

definition Gauge_Value :: "Gauge \<Rightarrow> int64" where
  "Gauge_Value g = gauge_value g"

definition Gauge_zero :: Gauge where
  "Gauge_zero = \<lparr>gauge_value = 0\<rparr>"

section \<open>The latency histogram\<close>

record LatencyHistogram =
  h_count :: int64
  h_sum :: int64
  h_min :: int64
  h_max :: int64
  h_buckets :: "int64 list"

definition NewLatencyHistogram :: LatencyHistogram where
  "NewLatencyHistogram = \<lparr>h_count = 0, h_sum = 0, h_min = -1, h_max = 0, h_buckets = replicate 10 0\<rparr>"

text \<open>The bucket chosen by the switch of \<open>Record\<close>, for a duration in milliseconds.\<close>

definition latency_bucket :: "int \<Rightarrow> nat" where
  "latency_bucket ms =
     (if ms < 1 then 0 else if ms < 5 then 1 else if ms < 10 then 2 else if ms < 25 then 3
      else if ms < 50 then 4 else if ms < 100 then 5 else if ms < 250 then 6 else if ms < 500 then 7
      else if ms < 1000 then 8 else 9)"

definition LatencyHistogram_Record :: "int64 \<Rightarrow> LatencyHistogram \<Rightarrow> LatencyHistogram go" where
  "LatencyHistogram_Record d h =
     (let ns = d;
          h = h\<lparr>h_count := h_count h + 1\<rparr>;
          h = h\<lparr>h_sum := h_sum h + ns\<rparr>;
          h = (if sint (h_min h) < 0 \<or> sint ns < sint (h_min h) then h\<lparr>h_min := ns\<rparr> else h);
          h = (if sint (h_max h) < sint ns then h\<lparr>h_max := ns\<rparr> else h);
          ms = sint d sdiv 1000000;
          i = latency_bucket ms
      in do { b \<leftarrow> idx (h_buckets h) (int i);
              ret (h\<lparr>h_buckets := (h_buckets h)[i := b + 1]\<rparr>) })"

record LatencyStats =
  ls_Count :: int64
  ls_Min :: int64
  ls_Max :: int64
  ls_Avg :: int64
  ls_Buckets :: "int64 list"

definition LatencyHistogram_Stats :: "LatencyHistogram \<Rightarrow> LatencyStats" where
  "LatencyHistogram_Stats h =
     (let stats = \<lparr>ls_Count = h_count h, ls_Min = 0, ls_Max = 0, ls_Avg = 0, ls_Buckets = h_buckets h\<rparr>
      in if 0 < sint (h_count h)
         then stats\<lparr>ls_Min := h_min h, ls_Max := h_max h,
                    ls_Avg := word_of_int (sint (h_sum h) sdiv sint (h_count h))\<rparr>
         else stats)"

definition LatencyHistogram_Reset :: "LatencyHistogram \<Rightarrow> LatencyHistogram" where
  "LatencyHistogram_Reset h =
     h\<lparr>h_count := 0, h_sum := 0, h_min := -1, h_max := 0, h_buckets := map (\<lambda>_. 0) (h_buckets h)\<rparr>"

section \<open>The metrics record\<close>

record Metrics =
  ConnectAttempts :: Counter
  ConnectSuccesses :: Counter
  ConnectFailures :: Counter
  Disconnects :: Counter
  RequestsSent :: Counter
  RequestsSucceeded :: Counter
  RequestsFailed :: Counter
  RequestsTimedOut :: Counter
  ResponsesReceived :: Counter
  ErrorsReceived :: Counter
  RejectsReceived :: Counter
  AbortsReceived :: Counter
  WhoIsSent :: Counter
  IAmReceived :: Counter
  DevicesDiscovered :: Counter
  COVSubscriptions :: Counter
  COVNotifications :: Counter
  PanicsRecovered :: Counter
  RequestLatency :: LatencyHistogram
  BytesSent :: Counter
  BytesReceived :: Counter
  ActiveRequests :: Gauge
  ActiveSubscriptions :: Gauge
  startTime :: int
  lastActivity :: int64

text \<open>Times are nanoseconds since the epoch; \<open>now\<close> is what \<open>time.Now()\<close> returns.\<close>

definition NewMetrics :: "int \<Rightarrow> Metrics" where
  "NewMetrics now =
     \<lparr>ConnectAttempts = Counter_zero, ConnectSuccesses = Counter_zero, ConnectFailures = Counter_zero,
      Disconnects = Counter_zero, RequestsSent = Counter_zero, RequestsSucceeded = Counter_zero,
      RequestsFailed = Counter_zero, RequestsTimedOut = Counter_zero, ResponsesReceived = Counter_zero,
      ErrorsReceived = Counter_zero, RejectsReceived = Counter_zero, AbortsReceived = Counter_zero,
      WhoIsSent = Counter_zero, IAmReceived = Counter_zero, DevicesDiscovered = Counter_zero,
      COVSubscriptions = Counter_zero, COVNotifications = Counter_zero, PanicsRecovered = Counter_zero,
      RequestLatency = NewLatencyHistogram, BytesSent = Counter_zero, BytesReceived = Counter_zero,
      ActiveRequests = Gauge_zero, ActiveSubscriptions = Gauge_zero, startTime = now, lastActivity = 0\<rparr>"

definition RecordActivity :: "int \<Rightarrow> Metrics \<Rightarrow> Metrics" where
  "RecordActivity now m = m\<lparr>lastActivity := word_of_int now\<rparr>"

definition LastActivity :: "Metrics \<Rightarrow> int" where
  "LastActivity m = (let ns = lastActivity m in if ns = 0 then startTime m else sint ns)"

definition Uptime :: "int \<Rightarrow> Metrics \<Rightarrow> int" where
  "Uptime now m = now - startTime m"

definition Metrics_Reset :: "int \<Rightarrow> Metrics \<Rightarrow> Metrics" where
  "Metrics_Reset now m =
     m\<lparr>ConnectAttempts := Counter_Reset (ConnectAttempts m),
       ConnectSuccesses := Counter_Reset (ConnectSuccesses m),
       ConnectFailures := Counter_Reset (ConnectFailures m),
       Disconnects := Counter_Reset (Disconnects m),
       RequestsSent := Counter_Reset (RequestsSent m),
       RequestsSucceeded := Counter_Reset (RequestsSucceeded m),
       RequestsFailed := Counter_Reset (RequestsFailed m),
       RequestsTimedOut := Counter_Reset (RequestsTimedOut m),
       ResponsesReceived := Counter_Reset (ResponsesReceived m),
       ErrorsReceived := Counter_Reset (ErrorsReceived m),
       RejectsReceived := Counter_Reset (RejectsReceived m),
       AbortsReceived := Counter_Reset (AbortsReceived m),
       WhoIsSent := Counter_Reset (WhoIsSent m),
       IAmReceived := Counter_Reset (IAmReceived m),
       DevicesDiscovered := Counter_Reset (DevicesDiscovered m),
       COVSubscriptions := Counter_Reset (COVSubscriptions m),
       COVNotifications := Counter_Reset (COVNotifications m),
       PanicsRecovered := Counter_Reset (PanicsRecovered m),
       RequestLatency := LatencyHistogram_Reset (RequestLatency m),
       BytesSent := Counter_Reset (BytesSent m),
       BytesReceived := Counter_Reset (BytesReceived m),
       ActiveRequests := Gauge_Set 0 (ActiveRequests m),
       ActiveSubscriptions := Gauge_Set 0 (ActiveSubscriptions m),
       startTime := now,
       lastActivity := 0\<rparr>"

record MetricsSnapshot =
  snap_Uptime :: int
  snap_ConnectAttempts :: int64
  snap_ConnectSuccesses :: int64
  snap_ConnectFailures :: int64
  snap_Disconnects :: int64
  snap_RequestsSent :: int64
  snap_RequestsSucceeded :: int64
  snap_RequestsFailed :: int64
  snap_RequestsTimedOut :: int64
  snap_ResponsesReceived :: int64
  snap_ErrorsReceived :: int64
  snap_RejectsReceived :: int64
  snap_AbortsReceived :: int64
  snap_WhoIsSent :: int64
  snap_IAmReceived :: int64
  snap_DevicesDiscovered :: int64
  snap_COVSubscriptions :: int64
  snap_COVNotifications :: int64
  snap_LatencyStats :: LatencyStats
  snap_BytesSent :: int64
  snap_BytesReceived :: int64
  snap_ActiveRequests :: int64
  snap_ActiveSubscriptions :: int64
  snap_LastActivity :: int

definition Snapshot :: "int \<Rightarrow> Metrics \<Rightarrow> MetricsSnapshot" where
  "Snapshot now m =
     \<lparr>snap_Uptime = Uptime now m,
      snap_ConnectAttempts = Counter_Value (ConnectAttempts m),
      snap_ConnectSuccesses = Counter_Value (ConnectSuccesses m),
      snap_ConnectFailures = Counter_Value (ConnectFailures m),
      snap_Disconnects = Counter_Value (Disconnects m),
      snap_RequestsSent = Counter_Value (RequestsSent m),
      snap_RequestsSucceeded = Counter_Value (RequestsSucceeded m),
      snap_RequestsFailed = Counter_Value (RequestsFailed m),
      snap_RequestsTimedOut = Counter_Value (RequestsTimedOut m),
      snap_ResponsesReceived = Counter_Value (ResponsesReceived m),
      snap_ErrorsReceived = Counter_Value (ErrorsReceived m),
      snap_RejectsReceived = Counter_Value (RejectsReceived m),
      snap_AbortsReceived = Counter_Value (AbortsReceived m),
      snap_WhoIsSent = Counter_Value (WhoIsSent m),
      snap_IAmReceived = Counter_Value (IAmReceived m),
      snap_DevicesDiscovered = Counter_Value (DevicesDiscovered m),
      snap_COVSubscriptions = Counter_Value (COVSubscriptions m),
      snap_COVNotifications = Counter_Value (COVNotifications m),
      snap_LatencyStats = LatencyHistogram_Stats (RequestLatency m),
      snap_BytesSent = Counter_Value (BytesSent m),
      snap_BytesReceived = Counter_Value (BytesReceived m),
      snap_ActiveRequests = Gauge_Value (ActiveRequests m),
      snap_ActiveSubscriptions = Gauge_Value (ActiveSubscriptions m),
      snap_LastActivity = LastActivity m\<rparr>"

section \<open>The histogram refines the list of recorded durations\<close>

text \<open>The durations that were recorded, the latest first, and the histogram they stand for.\<close>

definition duration_ok :: "int \<Rightarrow> bool" where
  "duration_ok d \<longleftrightarrow> 0 \<le> d \<and> d < 2 ^ 63"

definition bucket_count :: "int list \<Rightarrow> nat \<Rightarrow> nat" where
  "bucket_count ds i = length (filter (\<lambda>d. latency_bucket (d sdiv 1000000) = i) ds)"

definition histogram_of :: "int list \<Rightarrow> LatencyHistogram" where
  "histogram_of ds =
     \<lparr>h_count = word_of_nat (length ds), h_sum = word_of_int (sum_list ds),
      h_min = (if ds = [] then -1 else word_of_int (Min (set ds))),
      h_max = word_of_int (Max (insert 0 (set ds))),
      h_buckets = map (\<lambda>i. word_of_nat (bucket_count ds i)) [0..<10]\<rparr>"

lemma latency_bucket_less: "latency_bucket ms < 10"
  by (simp add: latency_bucket_def)

lemma sint_int64: "duration_ok d \<Longrightarrow> sint (word_of_int d :: int64) = d"
  by (simp add: duration_ok_def sint_sbintrunc' signed_take_bit_int_eq_self)

lemma Min_ok: "ds \<noteq> [] \<Longrightarrow> list_all duration_ok ds \<Longrightarrow> duration_ok (Min (set ds))"
  using Min_in [of "set ds"] by (simp add: list_all_iff)

lemma Max_ok: "list_all duration_ok ds \<Longrightarrow> duration_ok (Max (insert 0 (set ds)))"
  using Max_in [of "insert 0 (set ds)"] by (auto simp: list_all_iff duration_ok_def)

lemma buckets_update:
  assumes "b = latency_bucket (d sdiv 1000000)"
  shows "(map (\<lambda>i. word_of_nat (bucket_count ds i)) [0..<10])[b := word_of_nat (bucket_count ds b) + (1 :: int64)] =
         map (\<lambda>i. word_of_nat (bucket_count (d # ds) i)) [0..<10]"
  using assms latency_bucket_less [of "d sdiv 1000000"]
  by (intro nth_equalityI) (auto simp: nth_list_update bucket_count_def)

lemma Record_histogram_of:
  assumes "list_all duration_ok ds" and "duration_ok d"
  shows "LatencyHistogram_Record (word_of_int d) (histogram_of ds) = ret (histogram_of (d # ds))"
proof -
  have b: "idx (map (\<lambda>i. word_of_nat (bucket_count ds i) :: int64) [0..<10]) (int (latency_bucket (d sdiv 1000000))) =
      ret (word_of_nat (bucket_count ds (latency_bucket (d sdiv 1000000))))"
    using latency_bucket_less [of "d sdiv 1000000"] by (simp add: idx_def len_def)
  have mx: "Max (insert 0 (set (d # ds))) = max d (Max (insert 0 (set ds)))"
    by (simp add: insert_commute [of 0 d])
  show ?thesis
  proof (cases "ds = []")
    case True
    with b assms show ?thesis
      by (cases "d = 0") (simp_all add: LatencyHistogram_Record_def histogram_of_def Let_def sint_int64
          buckets_update duration_ok_def max_def)
  next
    case False
    have mn: "Min (set (d # ds)) = min d (Min (set ds))" using False by simp
    have bounds: "duration_ok (Min (set ds))" "duration_ok (Max (insert 0 (set ds)))"
      using Min_ok [OF False assms(1)] Max_ok [OF assms(1)] by simp_all
    define m M where "m = Min (set ds)" and "M = Max (insert 0 (set ds))"
    have s: "sint (word_of_int m :: int64) = m" "sint (word_of_int M :: int64) = M"
      "sint (word_of_int d :: int64) = d" "\<not> m < 0"
      using bounds assms(2) by (simp_all only: m_def M_def sint_int64) (simp add: duration_ok_def)
    have mm: "min d m = (if d < m then d else m)" "max d M = (if M < d then d else M)"
      by (simp_all add: min_def max_def)
    show ?thesis
      using False b s(4)
      unfolding LatencyHistogram_Record_def histogram_of_def mn mx m_def [symmetric] M_def [symmetric]
      by (simp add: Let_def s(1-3) buckets_update [OF refl, unfolded add.commute [of _ 1]] mm add.commute)
  qed
qed

interpretation histogram: simulation "\<lambda>ds h. list_all duration_ok ds \<and> h = histogram_of ds" "(#)"
    "\<lambda>d. LatencyHistogram_Record (word_of_int d)" duration_ok
  by unfold_locales (simp add: Record_histogram_of)

lemma histogram_of_Nil: "histogram_of [] = NewLatencyHistogram"
  by (simp add: histogram_of_def NewLatencyHistogram_def bucket_count_def map_replicate_const)

section \<open>Properties\<close>

text \<open>The buckets by their limits, in milliseconds; durations are in nanoseconds.\<close>

definition bucket_limits :: "int list" where
  "bucket_limits = [0, 1, 5, 10, 25, 50, 100, 250, 500, 1000]"

definition in_bucket :: "nat \<Rightarrow> int \<Rightarrow> bool" where
  "in_bucket i d \<longleftrightarrow> bucket_limits ! i * 1000000 \<le> d \<and> (i < 9 \<longrightarrow> d < bucket_limits ! (i + 1) * 1000000)"

lemma latency_bucket_limits:
  assumes "0 \<le> d" and "i < 10"
  shows "latency_bucket (d sdiv 1000000) = i \<longleftrightarrow> in_bucket i d"
proof -
  have "d sdiv 1000000 = d div 1000000" using assms(1) by (cases "d = 0") (simp_all add: signed_divide_int_def)
  moreover have "i \<in> {0, 1, 2, 3, 4, 5, 6, 7, 8, 9}" using assms(2) by auto
  ultimately show ?thesis using assms(1) by (auto simp: in_bucket_def bucket_limits_def latency_bucket_def)
qed

lemma bucket_count_limits:
  assumes "list_all duration_ok ds" and "i < 10"
  shows "bucket_count ds i = length (filter (in_bucket i) ds)"
proof -
  have "filter (\<lambda>d. latency_bucket (d sdiv 1000000) = i) ds = filter (in_bucket i) ds"
    by (rule filter_cong) (use assms latency_bucket_limits in \<open>auto simp: list_all_iff duration_ok_def\<close>)
  then show ?thesis by (simp add: bucket_count_def)
qed

text \<open>
  C37: After any sequence of recorded durations (non-negative, their number and their sum within 63
  bits), recorded without a panic, \<open>Stats\<close> reports what the durations determine: their number,
  minimum, maximum, integer mean, and for each of the ten buckets how many durations fall in it,
  the buckets being delimited by 1, 5, 10, 25, 50, 100, 250, 500 and 1000 milliseconds.
\<close>

theorem latency_stats_exact:
  assumes "list_all duration_ok ds" and "ds \<noteq> []" and "int (length ds) < 2 ^ 63" and "sum_list ds < 2 ^ 63"
  shows "\<exists>h. run_ops (\<lambda>d. LatencyHistogram_Record (word_of_int d)) ds NewLatencyHistogram = ret h \<and>
           LatencyHistogram_Stats h =
             \<lparr>ls_Count = word_of_nat (length ds), ls_Min = word_of_int (Min (set ds)),
              ls_Max = word_of_int (Max (set ds)), ls_Avg = word_of_int (sum_list ds sdiv int (length ds)),
              ls_Buckets = map (\<lambda>i. word_of_nat (length (filter (in_bucket i) ds))) [0..<10]\<rparr>"
proof -
  have rev: "fold (#) ds [] = rev ds" by (simp add: fold_Cons_rev)
  obtain h where h: "run_ops (\<lambda>d. LatencyHistogram_Record (word_of_int d)) ds NewLatencyHistogram = ret h"
    "h = histogram_of (rev ds)"
    using histogram.run_sim [of "[]" NewLatencyHistogram ds] assms(1)
    by (auto simp: histogram_of_Nil rev)
  have nonneg: "\<And>d. d \<in> set ds \<Longrightarrow> 0 \<le> d" using assms(1) by (auto simp: list_all_iff duration_ok_def)
  then have "duration_ok (sum_list ds)" using assms(4) by (simp add: duration_ok_def sum_list_nonneg)
  then have s: "sint (word_of_int (sum_list ds) :: int64) = sum_list ds" by (rule sint_int64)
  have "duration_ok (int (length ds))" using assms(3) by (simp add: duration_ok_def)
  from sint_int64 [OF this] have c: "sint (word_of_nat (length ds) :: int64) = int (length ds)" by simp
  have "Max (insert 0 (set ds)) = max 0 (Max (set ds))" using assms(2) by simp
  moreover have "0 \<le> Max (set ds)" using nonneg assms(2) Max_in [of "set ds"] by auto
  ultimately have mx: "Max (insert 0 (set ds)) = Max (set ds)" by (simp only: max_def if_True)
  have "bucket_count (rev ds) i = length (filter (in_bucket i) ds)" if "i < 10" for i
    using bucket_count_limits [OF assms(1) that] by (simp add: bucket_count_def rev_filter [symmetric])
  then have b: "map (\<lambda>i. word_of_nat (bucket_count (rev ds) i)) [0..<10] = map (\<lambda>i. word_of_nat (length (filter (in_bucket i) ds)) :: int64) [0..<10]"
    by simp
  show ?thesis
    using h assms(2) s c mx b
    by (simp add: LatencyHistogram_Stats_def histogram_of_def Let_def sum_list_rev del: upt_Suc)
qed

theorem latency_stats_exact_witness:
  "\<exists>h. run_ops (\<lambda>d. LatencyHistogram_Record (word_of_int d)) [2000000, 400000, 30000000] NewLatencyHistogram = ret h \<and>
     ls_Min (LatencyHistogram_Stats h) = 400000 \<and> ls_Avg (LatencyHistogram_Stats h) = 10800000 \<and>
     ls_Buckets (LatencyHistogram_Stats h) = [1, 1, 0, 0, 1, 0, 0, 0, 0, 0]"
proof -
  have b: "map (\<lambda>i. word_of_nat (length (filter (in_bucket i) [2000000, 400000, 30000000]))) [0..<10] =
      [1, 1, 0, 0, 1, 0, 0, 0, 0, 0 :: int64]"
    by (simp add: in_bucket_def bucket_limits_def upt_rec)
  show ?thesis
    using latency_stats_exact [of "[2000000, 400000, 30000000]"] unfolding b
    by (auto simp: duration_ok_def signed_divide_int_def)
qed

text \<open>
  C38: \<open>Reset\<close> leaves nothing behind: whatever was counted before, the metrics are those of a new
  instance created at the time of the reset, histogram and timestamps included (the histogram has
  the ten buckets every histogram of the library has).
\<close>

theorem reset_is_new:
  assumes "length (h_buckets (RequestLatency m)) = 10"
  shows "Metrics_Reset now m = NewMetrics now"
proof -
  have "map (\<lambda>_. 0 :: int64) (h_buckets (RequestLatency m)) = replicate 10 0"
    using assms by (simp add: map_replicate_const)
  then show ?thesis
    by (simp add: Metrics_Reset_def NewMetrics_def Counter_Reset_def Counter_zero_def Gauge_Set_def
        Gauge_zero_def LatencyHistogram_Reset_def NewLatencyHistogram_def)
qed

theorem reset_is_new_witness:
  "Metrics_Reset 9 (RequestsSent_update Counter_Inc (NewMetrics 5)) = NewMetrics 9"
  by (rule reset_is_new) (simp add: NewMetrics_def NewLatencyHistogram_def)

end
