(* ===== verification/Options.thy ===== *)
theory Options
  imports Bacnet_Types
begin

text \<open>
  The functional options of \<open>options.go\<close>: the option records with their defaults, one function per
  option, and their application in order. Durations are nanoseconds, as in \<open>time.Duration\<close>.
\<close>

abbreviation (input) Millisecond :: int where "Millisecond \<equiv> 1000000"
abbreviation (input) SecondNs :: int where "SecondNs \<equiv> 1000000000"

text \<open>A logger is only written to; the default one and the ones a caller supplies are told apart.\<close>

datatype Logger = SlogDefault | CustomLogger nat

record clientOptions =
  localDeviceID :: uint32
  localAddress :: string
  networkNumber :: uint16
  bbmdAddress :: string
  bbmdPort :: int
  foreignDeviceTTL :: int
  timeout :: int
  retries :: int
  retryDelay :: int
  opt_maxAPDULength :: uint16
  segmentation :: uint8
  proposedWindowSize :: uint8
  autoDiscover :: bool
  discoverTimeout :: int
  opt_logger :: Logger

definition defaultOptions :: clientOptions where
  "defaultOptions =
     \<lparr>localDeviceID = 0xFFFFFFFF, localAddress = [], networkNumber = 0, bbmdAddress = [], bbmdPort = 0,
      foreignDeviceTTL = 0, timeout = 3 * SecondNs, retries = 3, retryDelay = 500 * Millisecond,
      opt_maxAPDULength = MaxAPDULength, segmentation = SegmentationNone, proposedWindowSize = 1,
      autoDiscover = False, discoverTimeout = 5 * SecondNs, opt_logger = SlogDefault\<rparr>"

type_synonym Option = "clientOptions \<Rightarrow> clientOptions"

definition WithDeviceID :: "uint32 \<Rightarrow> Option" where
  "WithDeviceID devID o' = o'\<lparr>localDeviceID := devID\<rparr>"

definition WithLocalAddress :: "string \<Rightarrow> Option" where
  "WithLocalAddress addr o' = o'\<lparr>localAddress := addr\<rparr>"

definition WithNetworkNumber :: "uint16 \<Rightarrow> Option" where
  "WithNetworkNumber net o' = o'\<lparr>networkNumber := net\<rparr>"

definition WithBBMD :: "string \<Rightarrow> int \<Rightarrow> int \<Rightarrow> Option" where
  "WithBBMD addr port ttl o' = o'\<lparr>bbmdAddress := addr, bbmdPort := port, foreignDeviceTTL := ttl\<rparr>"

definition WithTimeout :: "int \<Rightarrow> Option" where
  "WithTimeout d o' = o'\<lparr>timeout := d\<rparr>"

definition WithRetries :: "int \<Rightarrow> Option" where
  "WithRetries n o' = o'\<lparr>retries := n\<rparr>"

definition WithRetryDelay :: "int \<Rightarrow> Option" where
  "WithRetryDelay d o' = o'\<lparr>retryDelay := d\<rparr>"

definition WithMaxAPDULength :: "uint16 \<Rightarrow> Option" where
  "WithMaxAPDULength l o' = o'\<lparr>opt_maxAPDULength := l\<rparr>"

definition WithSegmentation :: "uint8 \<Rightarrow> Option" where
  "WithSegmentation seg o' = o'\<lparr>segmentation := seg\<rparr>"

definition WithProposedWindowSize :: "uint8 \<Rightarrow> Option" where
  "WithProposedWindowSize sz o' = o'\<lparr>proposedWindowSize := sz\<rparr>"

definition WithAutoDiscover :: "bool \<Rightarrow> Option" where
  "WithAutoDiscover enable o' = o'\<lparr>autoDiscover := enable\<rparr>"

definition WithDiscoverTimeout :: "int \<Rightarrow> Option" where
  "WithDiscoverTimeout d o' = o'\<lparr>discoverTimeout := d\<rparr>"

definition WithLogger :: "Logger \<Rightarrow> Option" where
  "WithLogger l o' = o'\<lparr>opt_logger := l\<rparr>"

text \<open>The loop \<open>for _, opt := range opts { opt(options) }\<close> of every function that takes options.\<close>

definition apply_options :: "('o \<Rightarrow> 'o) list \<Rightarrow> 'o \<Rightarrow> 'o" where
  "apply_options os o' = fold (\<lambda>opt. opt) os o'"

record DiscoverOptions =
  LowLimit :: "uint32 option"
  HighLimit :: "uint32 option"
  DiscTimeout :: int
  Network :: uint16

definition defaultDiscoverOptions :: DiscoverOptions where
  "defaultDiscoverOptions = \<lparr>LowLimit = None, HighLimit = None, DiscTimeout = 5 * SecondNs, Network = 0\<rparr>"

definition WithDeviceRange :: "uint32 \<Rightarrow> uint32 \<Rightarrow> DiscoverOptions \<Rightarrow> DiscoverOptions" where
  "WithDeviceRange low high o' = o'\<lparr>LowLimit := Some low, HighLimit := Some high\<rparr>"

definition WithDiscoveryTimeout :: "int \<Rightarrow> DiscoverOptions \<Rightarrow> DiscoverOptions" where
  "WithDiscoveryTimeout d o' = o'\<lparr>DiscTimeout := d\<rparr>"

definition WithTargetNetwork :: "uint16 \<Rightarrow> DiscoverOptions \<Rightarrow> DiscoverOptions" where
  "WithTargetNetwork net o' = o'\<lparr>Network := net\<rparr>"

record ReadOptions =
  ArrayIndex :: "uint32 option"

definition WithArrayIndex :: "uint32 \<Rightarrow> ReadOptions \<Rightarrow> ReadOptions" where
  "WithArrayIndex i o' = o'\<lparr>ArrayIndex := Some i\<rparr>"

record WriteOptions =
  WArrayIndex :: "uint32 option"
  Priority :: "uint8 option"

definition WithWriteArrayIndex :: "uint32 \<Rightarrow> WriteOptions \<Rightarrow> WriteOptions" where
  "WithWriteArrayIndex i o' = o'\<lparr>WArrayIndex := Some i\<rparr>"

definition WithPriority :: "uint8 \<Rightarrow> WriteOptions \<Rightarrow> WriteOptions" where
  "WithPriority p o' = (if p \<ge> 1 \<and> p \<le> 16 then o'\<lparr>Priority := Some p\<rparr> else o')"

record SubscribeOptions =
  Lifetime :: "uint32 option"
  COVIncrement :: "uint32 option"
  Confirmed :: bool

definition WithSubscriptionLifetime :: "uint32 \<Rightarrow> SubscribeOptions \<Rightarrow> SubscribeOptions" where
  "WithSubscriptionLifetime seconds o' = o'\<lparr>Lifetime := Some seconds\<rparr>"

definition WithCOVIncrement :: "uint32 \<Rightarrow> SubscribeOptions \<Rightarrow> SubscribeOptions" where
  "WithCOVIncrement increment o' = o'\<lparr>COVIncrement := Some increment\<rparr>"

definition WithConfirmedNotifications :: "bool \<Rightarrow> SubscribeOptions \<Rightarrow> SubscribeOptions" where
  "WithConfirmedNotifications confirmed o' = o'\<lparr>Confirmed := confirmed\<rparr>"

section \<open>Properties\<close>

lemma apply_options_Nil [simp]: "apply_options [] o' = o'"
  by (simp add: apply_options_def)

lemma apply_options_Cons [simp]: "apply_options (opt # os) o' = apply_options os (opt o')"
  by (simp add: apply_options_def)

lemma apply_options_append: "apply_options (os @ os') o' = apply_options os' (apply_options os o')"
  by (simp add: apply_options_def)

lemma apply_options_inv:
  "(\<And>opt s. opt \<in> set os \<Longrightarrow> P s \<Longrightarrow> P (opt s)) \<Longrightarrow> P s \<Longrightarrow> P (apply_options os s)"
  by (induction os arbitrary: s) auto

text \<open>
  Whatever write options a caller combines, in any number and order, a priority outside 1 to 16
  never reaches the request: the resulting priority is absent or between 1 and 16.
\<close>

theorem write_priority_valid:
  assumes "set os \<subseteq> range WithPriority \<union> range WithWriteArrayIndex"
    and "apply_options os \<lparr>WArrayIndex = None, Priority = None\<rparr> = w" and "Priority w = Some p"
  shows "1 \<le> p \<and> p \<le> 16"
proof -
  have "\<forall>p. Priority (apply_options os \<lparr>WArrayIndex = None, Priority = None\<rparr>) = Some p \<longrightarrow> 1 \<le> p \<and> p \<le> 16"
    by (rule apply_options_inv [where P = "\<lambda>s. \<forall>p. Priority s = Some p \<longrightarrow> 1 \<le> p \<and> p \<le> 16"])
       (use assms(1) in \<open>auto simp: WithPriority_def WithWriteArrayIndex_def split: if_splits\<close>)
  with assms(2,3) show ?thesis by simp
qed

theorem write_priority_valid_witness:
  "apply_options [WithPriority 8, WithPriority 17] \<lparr>WArrayIndex = None, Priority = None\<rparr> =
     \<lparr>WArrayIndex = None, Priority = Some 8\<rparr> \<and> 1 \<le> (8 :: uint8) \<and> (8 :: uint8) \<le> 16"
proof -
  have e: "apply_options [WithPriority 8, WithPriority 17] \<lparr>WArrayIndex = None, Priority = None\<rparr> =
      \<lparr>WArrayIndex = None, Priority = Some 8\<rparr>"
    by (simp add: WithPriority_def)
  have "1 \<le> (8 :: uint8) \<and> (8 :: uint8) \<le> 16"
    by (rule write_priority_valid [OF _ e]) simp_all
  with e show ?thesis by blast
qed

end
