(* ===== verification/Transport.thy ===== *)
theory Transport
  imports Bacnet_Errors
begin

text \<open>
  The UDP transport of \<open>internal/transport/udp.go\<close>. The sockets of the operating system are a
  parameter: the record \<open>NetOps\<close> gives the answers of the package \<open>net\<close> at the time of a call.
  Every method runs under the transport's mutex or copies the fields it needs under it, so each is
  one step on the transport state.
\<close>

section \<open>Addresses and the network\<close>

record UDPAddr =
  IP :: bytes
  Port :: int

text \<open>\<open>net.IP.To4\<close>: a four-byte address, or the last four bytes of an IPv4-in-IPv6 address.\<close>

definition IP_To4 :: "bytes \<Rightarrow> bytes option" where
  "IP_To4 ip =
     (if len ip = 4 then Some ip
      else if len ip = 16 \<and> take 10 ip = replicate 10 0 \<and> ip ! 10 = 0xFF \<and> ip ! 11 = 0xFF
      then Some (drop 12 ip) else None)"

definition IPv4bcast :: bytes where
  "IPv4bcast = replicate 10 0 @ [0xFF, 0xFF, 255, 255, 255, 255]"

type_synonym Conn = nat

record NetOps =
  net_ResolveUDPAddr :: "string \<Rightarrow> UDPAddr res"
  net_ListenUDP :: "UDPAddr option \<Rightarrow> Conn res"
  net_SetDeadline :: "Conn \<Rightarrow> int \<Rightarrow> goerror option"
  net_WriteToUDP :: "Conn \<Rightarrow> bytes \<Rightarrow> UDPAddr \<Rightarrow> int res"
  net_ReadFromUDP :: "Conn \<Rightarrow> (bytes \<times> UDPAddr) res"
  net_Close :: "Conn \<Rightarrow> goerror option"

definition wrap_error :: "string \<Rightarrow> goerror \<Rightarrow> goerror" where
  "wrap_error msg e = Wrapped (msg @ '': '' @ Error e) e"

section \<open>The transport\<close>

record UDPTransport =
  localAddr :: string
  conn :: "Conn option"
  readTimeout :: int
  writeTimeout :: int
  closed :: bool

definition NewUDPTransport :: "string \<Rightarrow> UDPTransport" where
  "NewUDPTransport addr =
     \<lparr>localAddr = addr, conn = None, readTimeout = 3000000000, writeTimeout = 3000000000, closed = False\<rparr>"

definition SetReadTimeout :: "int \<Rightarrow> UDPTransport \<Rightarrow> UDPTransport" where
  "SetReadTimeout d t = t\<lparr>readTimeout := d\<rparr>"

definition SetWriteTimeout :: "int \<Rightarrow> UDPTransport \<Rightarrow> UDPTransport" where
  "SetWriteTimeout d t = t\<lparr>writeTimeout := d\<rparr>"

definition transport_Open :: "NetOps \<Rightarrow> UDPTransport \<Rightarrow> goerror option \<times> UDPTransport" where
  "transport_Open net t =
     (if conn t \<noteq> None then (None, t)
      else
        let addr = (if localAddr t \<noteq> [] then map_sum (\<lambda>e. e) Some (net_ResolveUDPAddr net (localAddr t)) else Ok None)
        in case addr of
             Inl err \<Rightarrow> (Some (wrap_error ''resolve local address'' err), t)
           | Inr a \<Rightarrow>
               (case net_ListenUDP net a of
                  Inl err \<Rightarrow> (Some (wrap_error ''listen UDP'' err), t)
                | Inr c \<Rightarrow> (None, t\<lparr>conn := Some c, closed := False\<rparr>)))"

definition transport_Close :: "NetOps \<Rightarrow> UDPTransport \<Rightarrow> goerror option \<times> UDPTransport" where
  "transport_Close net t =
     (case conn t of
        None \<Rightarrow> (None, t)
      | Some c \<Rightarrow> (if closed t then (None, t) else (net_Close net c, t\<lparr>closed := True\<rparr>)))"

text \<open>\<open>deadline\<close> is the context's deadline, \<open>now\<close> the clock; both are only handed to the socket.\<close>

definition transport_Send ::
    "NetOps \<Rightarrow> int option \<Rightarrow> int \<Rightarrow> UDPAddr \<Rightarrow> bytes \<Rightarrow> UDPTransport \<Rightarrow> goerror option" where
  "transport_Send net deadline now addr data t =
     (case conn t of
        None \<Rightarrow> Some (Plain ''transport not open'')
      | Some c \<Rightarrow>
          let d = (case deadline of Some d \<Rightarrow> d | None \<Rightarrow> now + writeTimeout t)
          in case net_SetDeadline net c d of
               Some err \<Rightarrow> Some (wrap_error ''set write deadline'' err)
             | None \<Rightarrow>
                 (case net_WriteToUDP net c data addr of
                    Inl err \<Rightarrow> Some (wrap_error ''write UDP'' err)
                  | Inr n \<Rightarrow>
                      if n \<noteq> len data
                      then Some (Plain (''partial write: '' @ fmt_d (nat n) @ '' of '' @ fmt_d (length data) @ '' bytes''))
                      else None))"

definition transport_Broadcast ::
    "NetOps \<Rightarrow> int option \<Rightarrow> int \<Rightarrow> int \<Rightarrow> bytes \<Rightarrow> UDPTransport \<Rightarrow> goerror option" where
  "transport_Broadcast net deadline now port data t =
     transport_Send net deadline now \<lparr>IP = IPv4bcast, Port = port\<rparr> data t"

text \<open>A datagram longer than the buffer of 1500 bytes is cut off by the socket.\<close>

definition transport_Receive :: "NetOps \<Rightarrow> int option \<Rightarrow> int \<Rightarrow> UDPTransport \<Rightarrow> (bytes \<times> UDPAddr) res" where
  "transport_Receive net deadline now t =
     (case conn t of
        None \<Rightarrow> Err (Plain ''transport not open'')
      | Some c \<Rightarrow>
          let d = (case deadline of Some d \<Rightarrow> d | None \<Rightarrow> now + readTimeout t)
          in case net_SetDeadline net c d of
               Some err \<Rightarrow> Err (wrap_error ''set read deadline'' err)
             | None \<Rightarrow>
                 (case net_ReadFromUDP net c of
                    Inl err \<Rightarrow> Err err
                  | Inr (datagram, addr) \<Rightarrow> Ok (take 1500 datagram, addr)))"

definition transport_ReceiveWithTimeout :: "NetOps \<Rightarrow> int \<Rightarrow> int \<Rightarrow> UDPTransport \<Rightarrow> (bytes \<times> UDPAddr) res" where
  "transport_ReceiveWithTimeout net d now t = transport_Receive net (Some (now + d)) now t"

definition transport_IsClosed :: "UDPTransport \<Rightarrow> bool" where
  "transport_IsClosed t = closed t"

section \<open>Properties\<close>

text \<open>
  A network on which every operation succeeds, for the witnesses, and one on which the connection
  \<open>c\<close> has been closed: the package \<open>net\<close> then fails every operation on it.
\<close>

definition good_net :: "NetOps" where
  "good_net = \<lparr>net_ResolveUDPAddr = (\<lambda>_. Ok \<lparr>IP = [0, 0, 0, 0], Port = 0\<rparr>), net_ListenUDP = (\<lambda>_. Ok 7),
     net_SetDeadline = (\<lambda>_ _. None), net_WriteToUDP = (\<lambda>_ d _. Ok (len d)),
     net_ReadFromUDP = (\<lambda>_. Ok ([], \<lparr>IP = [0, 0, 0, 0], Port = 0\<rparr>)), net_Close = (\<lambda>_. None)\<rparr>"

definition closed_conn_fails :: "NetOps \<Rightarrow> Conn \<Rightarrow> bool" where
  "closed_conn_fails net c \<longleftrightarrow> (\<forall>d. net_SetDeadline net c d \<noteq> None)"

lemma transport_Open_result:
  assumes "transport_Open net t = (None, t')"
  shows "\<exists>c. conn t' = Some c \<and> (conn t = None \<longrightarrow> \<not> closed t') \<and> (conn t \<noteq> None \<longrightarrow> t' = t)"
  using assms by (auto simp: transport_Open_def Let_def split: if_splits sum.splits option.splits)

lemma transport_Send_None_iff:
  "transport_Send net deadline now addr data t = None \<longleftrightarrow>
     (\<exists>c. conn t = Some c \<and>
        net_SetDeadline net c (case deadline of Some d \<Rightarrow> d | None \<Rightarrow> now + writeTimeout t) = None \<and>
        net_WriteToUDP net c data addr = Ok (len data))"
  by (auto simp: transport_Send_def Let_def split: option.splits sum.splits)

text \<open>
  A transport cannot be opened a second time: after \<open>Open\<close> and \<open>Close\<close>, a second \<open>Open\<close> reports
  success without asking the system for a socket and leaves the transport with the closed one, so
  that every later \<open>Send\<close> fails (a closed connection fails every operation) and the transport still
  says it is closed.
\<close>

theorem reopened_transport_is_dead:
  assumes "conn t = None" and "transport_Open net1 t = (None, t1)" and "transport_Close net2 t1 = (e, t2)"
    and "conn t1 = Some c" and "closed_conn_fails net4 c"
  shows "transport_Open net3 t2 = (None, t2) \<and> transport_IsClosed t2 \<and>
         transport_Send net4 deadline now addr data t2 \<noteq> None"
proof -
  have "\<not> closed t1" using transport_Open_result [OF assms(2)] assms(1) by auto
  with assms(3,4) have t2: "conn t2 = Some c" "closed t2" by (auto simp: transport_Close_def)
  then have "transport_Send net4 deadline now addr data t2 \<noteq> None"
    using assms(5) by (simp add: transport_Send_None_iff closed_conn_fails_def)
  with t2 show ?thesis by (simp add: transport_Open_def transport_IsClosed_def)
qed

theorem reopened_transport_is_dead_witness:
  "transport_Send (good_net\<lparr>net_SetDeadline := (\<lambda>_ _. Some (Plain ''use of closed network connection''))\<rparr>)
     None 0 \<lparr>IP = [10, 0, 0, 1], Port = 47808\<rparr> [1]
     (snd (transport_Close good_net (snd (transport_Open good_net (NewUDPTransport []))))) \<noteq> None"
proof -
  define t1 where "t1 = snd (transport_Open good_net (NewUDPTransport []))"
  have o1: "transport_Open good_net (NewUDPTransport []) = (None, t1)" and c: "conn t1 = Some 7"
    by (simp_all add: t1_def transport_Open_def NewUDPTransport_def good_net_def)
  have n: "conn (NewUDPTransport []) = None" by (simp add: NewUDPTransport_def)
  have f: "closed_conn_fails (good_net\<lparr>net_SetDeadline := (\<lambda>_ _. Some (Plain ''use of closed network connection''))\<rparr>) 7"
    by (simp add: closed_conn_fails_def)
  show ?thesis
    using reopened_transport_is_dead [OF n o1 surjective_pairing c f, of good_net good_net None 0
        "\<lparr>IP = [10, 0, 0, 1], Port = 47808\<rparr>" "[1]"]
    by (simp add: t1_def)
qed

end
