(* ===== verification/Client.thy ===== *)
theory Client
  imports Services Client_Metrics Options Transport
begin

text \<open>
  The client of \<open>client.go\<close> and \<open>device.go\<close>: its state, the handling of received packets, and the
  requests. A response channel is an entry of an explicit store, because the map of pending
  requests, the requesting goroutine and a packet handler share it. Logging is left out. The clock,
  the network and the packets that arrive while a call waits are parameters of the operations.
\<close>

section \<open>State\<close>

datatype ConnectionState = StateDisconnected | StateConnecting | StateConnected

text \<open>The numbers \<open>iota\<close> gives the states, which are what the atomic variable holds, and the order they induce.\<close>

fun ConnectionState_num :: "ConnectionState \<Rightarrow> nat" where
  "ConnectionState_num StateDisconnected = 0"
| "ConnectionState_num StateConnecting = 1"
| "ConnectionState_num StateConnected = 2"

text \<open>\<open>String\<close> is a method of the number, which may be none of the three.\<close>

definition ConnectionState_String :: "int \<Rightarrow> string" where
  "ConnectionState_String n =
     (if n = int (ConnectionState_num StateDisconnected) then ''disconnected''
      else if n = int (ConnectionState_num StateConnecting) then ''connecting''
      else if n = int (ConnectionState_num StateConnected) then ''connected''
      else ''unknown'')"

lemma ConnectionState_num_inject: "ConnectionState_num s = ConnectionState_num t \<Longrightarrow> s = t"
  by (cases s; cases t) simp_all

instantiation ConnectionState :: linorder
begin

definition less_eq_ConnectionState :: "ConnectionState \<Rightarrow> ConnectionState \<Rightarrow> bool" where
  "less_eq_ConnectionState s t = (ConnectionState_num s \<le> ConnectionState_num t)"

definition less_ConnectionState :: "ConnectionState \<Rightarrow> ConnectionState \<Rightarrow> bool" where
  "less_ConnectionState s t = (ConnectionState_num s < ConnectionState_num t)"

instance
  by standard (auto simp: less_eq_ConnectionState_def less_ConnectionState_def intro: ConnectionState_num_inject)

end

lemma StateDisconnected_least [simp]: "StateDisconnected \<le> s"
  by (simp add: less_eq_ConnectionState_def)

text \<open>A channel of capacity one: the buffered APDU, if any, and whether it has been closed.\<close>

record Chan =
  buffered :: "APDU option"
  chan_closed :: bool

type_synonym COVHandler = nat

record Client =
  opts :: clientOptions
  transport :: UDPTransport
  state :: ConnectionState
  invokeID :: uint32
  pending :: "uint8 \<rightharpoonup> nat"
  chans :: "nat \<rightharpoonup> Chan"
  devices :: "uint32 \<rightharpoonup> DeviceInfo"
  covSubs :: "uint32 \<rightharpoonup> COVHandler"
  metrics :: Metrics
  nextChan :: nat

definition incMetric :: "((Counter \<Rightarrow> Counter) \<Rightarrow> Metrics \<Rightarrow> Metrics) \<Rightarrow> Client \<Rightarrow> Client" where
  "incMetric field c = c\<lparr>metrics := field Counter_Inc (metrics c)\<rparr>"

definition NewClient :: "int \<Rightarrow> Option list \<Rightarrow> Client" where
  "NewClient now os =
     (let options = apply_options os defaultOptions
      in \<lparr>opts = options,
          transport = SetWriteTimeout (timeout options) (SetReadTimeout (timeout options)
                        (NewUDPTransport (localAddress options))),
          state = StateDisconnected, invokeID = 0, pending = Map.empty, chans = Map.empty,
          devices = Map.empty, covSubs = Map.empty, metrics = NewMetrics now, nextChan = 0\<rparr>)"

definition nextInvokeID :: "Client \<Rightarrow> uint8 \<times> Client" where
  "nextInvokeID c =
     (let n = invokeID c + 1 in (ucast (n AND 0xFF), c\<lparr>invokeID := n\<rparr>))"

section \<open>Received packets\<close>

text \<open>The parameters of an I-Am, read in order; any malformed or foreign one drops the packet.\<close>

definition decodeIAm :: "bytes \<Rightarrow> (ObjectIdentifier \<times> uint32 \<times> uint32 \<times> uint32) option go" where
  "decodeIAm data =
     call (DecodeTagNumber data) (\<lambda>_. ret None) (\<lambda>(tagNum, _, lngth, headerLen).
       if tagNum \<noteq> TagObjectID \<or> lngth \<noteq> 4 then ret None
       else if len data < headerLen + 4 then ret None
       else do {
         p \<leftarrow> slice data headerLen (headerLen + 4);
         oidValue \<leftarrow> BigEndian_Uint32 p;
         let oid = DecodeObjectIdentifier oidValue;
         if OID_Type oid \<noteq> ObjectTypeDevice then ret None
         else
           call (readUnsignedTag data (headerLen + 4)) (\<lambda>_. ret None) (\<lambda>(maxAPDU32, offset).
           call (readUnsignedTag data offset) (\<lambda>_. ret None) (\<lambda>(segVal, offset).
           call (readUnsignedTag data offset) (\<lambda>_. ret None) (\<lambda>(vendorID32, _).
             ret (Some (oid, maxAPDU32, segVal, vendorID32))))) })"

definition handleIAm :: "bytes \<Rightarrow> UDPAddr \<Rightarrow> NPDU \<Rightarrow> Client \<Rightarrow> Client go" where
  "handleIAm data addr npdu c =
     (let c = incMetric IAmReceived_update c in
      do { r \<leftarrow> decodeIAm data;
           case r of
             None \<Rightarrow> ret c
           | Some (oid, maxAPDU32, segVal, vendorID32) \<Rightarrow>
               let deviceAddr =
                     (if Control npdu AND NPDUControlSourceSpecifier \<noteq> 0
                      then \<lparr>Net = SrcNet npdu, Addr = SrcAddr npdu\<rparr>
                      else \<lparr>Net = 0, Addr = (case IP_To4 (IP addr) of Some a \<Rightarrow> a | None \<Rightarrow> [])\<rparr>);
                   device = DeviceInfo_lit oid deviceAddr (ucast maxAPDU32) (ucast segVal) (ucast vendorID32);
                   known = (devices c (OID_Instance oid) \<noteq> None);
                   c = c\<lparr>devices := (devices c)(OID_Instance oid \<mapsto> device)\<rparr>
               in ret (if known then c else incMetric DevicesDiscovered_update c) })"

definition handleCOVNotification :: "bytes \<Rightarrow> Client \<Rightarrow> Client" where
  "handleCOVNotification data c = incMetric COVNotifications_update c"

definition handleUnconfirmedRequest :: "APDU \<Rightarrow> UDPAddr \<Rightarrow> NPDU \<Rightarrow> Client \<Rightarrow> Client go" where
  "handleUnconfirmedRequest apdu addr npdu c =
     (if Service apdu = ServiceIAm then handleIAm (APDU_Data apdu) addr npdu c
      else if Service apdu = ServiceUnconfirmedCOVNotification
      then ret (handleCOVNotification (APDU_Data apdu) c)
      else ret c)"

text \<open>
  The statement \<open>select { case ch <- apdu: default: }\<close>: a send on a closed channel panics, on a full
  one it is dropped.
\<close>

definition chan_send :: "nat \<Rightarrow> APDU \<Rightarrow> Client \<Rightarrow> Client go" where
  "chan_send ch apdu c =
     (case chans c ch of
        None \<Rightarrow> ret c
      | Some q \<Rightarrow>
          if chan_closed q then panic
          else if buffered q = None then ret (c\<lparr>chans := (chans c)(ch \<mapsto> q\<lparr>buffered := Some apdu\<rparr>)\<rparr>)
          else ret c)"

definition handleResponse :: "APDU \<Rightarrow> Client \<Rightarrow> Client go" where
  "handleResponse apdu c =
     (case pending c (InvokeID apdu) of None \<Rightarrow> ret c | Some ch \<Rightarrow> chan_send ch apdu c)"

definition dispatchAPDU :: "APDU \<Rightarrow> UDPAddr \<Rightarrow> NPDU \<Rightarrow> Client \<Rightarrow> Client go" where
  "dispatchAPDU apdu addr npdu c =
     (if APDU_Type apdu = PDUTypeUnconfirmedRequest then handleUnconfirmedRequest apdu addr npdu c
      else if APDU_Type apdu = PDUTypeSimpleAck \<or> APDU_Type apdu = PDUTypeComplexAck then handleResponse apdu c
      else if APDU_Type apdu = PDUTypeError then handleResponse apdu (incMetric ErrorsReceived_update c)
      else if APDU_Type apdu = PDUTypeReject then handleResponse apdu (incMetric RejectsReceived_update c)
      else if APDU_Type apdu = PDUTypeAbort then handleResponse apdu (incMetric AbortsReceived_update c)
      else ret c)"

text \<open>\<open>handlePacket\<close> up to the dispatch: the APDU and NPDU of a packet that is not dropped.\<close>

definition decodePacket :: "bytes \<Rightarrow> (APDU \<times> NPDU) option go" where
  "decodePacket data =
     call (DecodeBVLC data) (\<lambda>_. ret None) (\<lambda>bvlc. do {
       npduData \<leftarrow> slice_from data 4;
       if BVLC_Function bvlc = BVLCForwardedNPDU \<and> len npduData < 6 then ret None
       else do {
         npduData \<leftarrow> (if BVLC_Function bvlc = BVLCForwardedNPDU then slice_from npduData 6 else ret npduData);
         call (DecodeNPDU npduData) (\<lambda>_. ret None) (\<lambda>(npdu, offset).
           if Control npdu AND NPDUControlNetworkLayerMessage \<noteq> 0 then ret None
           else do {
             apduData \<leftarrow> slice_from npduData offset;
             call (DecodeAPDU apduData) (\<lambda>_. ret None) (\<lambda>apdu. ret (Some (apdu, npdu))) }) } })"

definition handlePacket :: "bytes \<Rightarrow> UDPAddr \<Rightarrow> Client \<Rightarrow> Client go" where
  "handlePacket data addr c =
     do { r \<leftarrow> decodePacket data;
          case r of
            None \<Rightarrow> ret c
          | Some (apdu, npdu) \<Rightarrow> dispatchAPDU apdu addr npdu (incMetric ResponsesReceived_update c) }"

definition countReceived :: "int \<Rightarrow> bytes \<Rightarrow> Client \<Rightarrow> Client" where
  "countReceived tm data c =
     c\<lparr>metrics := RecordActivity tm (BytesReceived_update (Counter_Add (word_of_int (len data))) (metrics c))\<rparr>"

text \<open>
  One iteration of the receiver with a packet: the counters, then the handler with its recover, which
  turns a panic into a count and drops the packet. (After a panic the counters the handler had
  already incremented would keep their new values; here they are dropped with the packet. No packet
  makes the handler panic, so the case does not arise.)
\<close>

definition receivePacket :: "int \<Rightarrow> bytes \<Rightarrow> UDPAddr \<Rightarrow> Client \<Rightarrow> Client" where
  "receivePacket now data addr c =
     (let c = countReceived now data c
      in case handlePacket data addr c of
           Some c' \<Rightarrow> c'
         | None \<Rightarrow> incMetric PanicsRecovered_update c)"

text \<open>
  The loop of the receiver goroutine. Each iteration gets whether the context is done, the answers of the
  network and the clock; the result tells whether the loop has returned. A read that times out and
  any other error are skipped, unless the transport has been closed. Only an error that itself is a
  \<open>net.Error\<close> counts as a timeout, not one that wraps it.
\<close>

fun is_net_timeout :: "goerror \<Rightarrow> bool" where
  "is_net_timeout (NetErr _ tmo) = tmo"
| "is_net_timeout _ = False"

fun receiver :: "(bool \<times> NetOps \<times> int) list \<Rightarrow> Client \<Rightarrow> bool \<times> Client" where
  "receiver [] c = (False, c)"
| "receiver ((ctxDone, nt, now) # rest) c =
     (if ctxDone then (True, c)
      else
        case transport_ReceiveWithTimeout nt (100 * Millisecond) now (transport c) of
          Inl err \<Rightarrow>
            if is_net_timeout err then receiver rest c
            else if transport_IsClosed (transport c) then (True, c)
            else receiver rest c
        | Inr (data, addr) \<Rightarrow> receiver rest (receivePacket now data addr c))"

section \<open>Sending\<close>

text \<open>
  What the surroundings of one call contribute: the answers of the network, the context's deadline,
  the clock at the start and at the end, the packets received while the call waits, whether another
  goroutine closes the client while it waits (after those packets: none is received once \<open>Close\<close> has
  stopped the receiver), and whether the \<open>select\<close> takes the branch of the finished context although a
  response may be there.

  An \<open>Env\<close> describes everything up to the return of the call. So when neither a response arrives nor
  the client is closed, it stands for surroundings in which the context ends: with a context that never
  ends and no response the code waits for ever, and there is no \<open>Env\<close> for that. The waiting itself is
  part of the interleaved model, where a request goes on only when its \<open>select\<close> can.
\<close>

record Env =
  net :: NetOps
  deadline :: "int option"
  now :: int
  later :: int
  arrivals :: "(bytes \<times> UDPAddr) list"
  closes :: bool
  ctxFirst :: bool

definition receiveAll :: "Env \<Rightarrow> Client \<Rightarrow> Client" where
  "receiveAll env c = fold (\<lambda>(data, addr). receivePacket (later env) data addr) (arrivals env) c"

text \<open>The pending channels are closed and the map is replaced by an empty one.\<close>

definition closePending :: "Client \<Rightarrow> Client" where
  "closePending c =
     c\<lparr>chans := (\<lambda>ch. if ch \<in> ran (pending c) then map_option (chan_closed_update (\<lambda>_. True)) (chans c ch)
                     else chans c ch),
       pending := Map.empty\<rparr>"

text \<open>
  \<open>Close\<close>, when the receiver has stopped and no packet handler is running any more, which the source
  waits for before it closes the channels; the waiting is part of the interleaved model.
\<close>

definition Close :: "Env \<Rightarrow> Client \<Rightarrow> goerror option \<times> Client" where
  "Close env c =
     (if state c = StateDisconnected then (None, c)
      else
        let c = incMetric Disconnects_update (c\<lparr>state := StateDisconnected\<rparr>);
            c = closePending c;
            (err, t) = transport_Close (net env) (transport c)
        in (map_option (wrap_error ''close transport'') err, c\<lparr>transport := t\<rparr>))"

text \<open>What the other goroutines do to the client while a call waits.\<close>

definition meanwhile :: "Env \<Rightarrow> Client \<Rightarrow> Client" where
  "meanwhile env c = (let c = receiveAll env c in if closes env then snd (Close env c) else c)"

definition buildPacket :: "uint8 \<Rightarrow> bytes \<Rightarrow> bytes \<Rightarrow> bytes" where
  "buildPacket bvlcFunc npdu apdu = EncodeBVLC bvlcFunc (len npdu + len apdu) @ npdu @ apdu"

definition requestPacket :: "uint8 \<Rightarrow> uint8 \<Rightarrow> bytes \<Rightarrow> bytes" where
  "requestPacket iid service data =
     buildPacket BVLCOriginalUnicastNPDU (EncodeNPDU True NPDUControlPriorityNormal)
       (EncodeConfirmedRequest iid service data 0 5)"

text \<open>
  The parts of \<open>sendRequest\<close>: registration, the counters before and after the transmission, the deferred removal,
  and the reading of a response.
\<close>

definition beginRequest :: "Client \<Rightarrow> uint8 \<times> nat \<times> Client" where
  "beginRequest c =
     (let (iid, c) = nextInvokeID c;
          ch = nextChan c
      in (iid, ch, c\<lparr>nextChan := ch + 1, chans := (chans c)(ch \<mapsto> \<lparr>buffered = None, chan_closed = False\<rparr>),
                     pending := (pending c)(iid \<mapsto> ch)\<rparr>))"

definition countRequest :: "Client \<Rightarrow> Client" where
  "countRequest c =
     (let c = incMetric RequestsSent_update c in c\<lparr>metrics := ActiveRequests_update Gauge_Inc (metrics c)\<rparr>)"

definition countSent :: "bytes \<Rightarrow> Client \<Rightarrow> Client" where
  "countSent packet c = c\<lparr>metrics := BytesSent_update (Counter_Add (word_of_int (len packet))) (metrics c)\<rparr>"

definition endRequest :: "uint8 \<Rightarrow> Client \<Rightarrow> Client" where
  "endRequest iid c =
     c\<lparr>metrics := ActiveRequests_update Gauge_Dec (metrics c), pending := (pending c)(iid := None)\<rparr>"

definition responseResult :: "APDU \<Rightarrow> Client \<Rightarrow> (APDU res \<times> Client) go" where
  "responseResult resp c =
     (if APDU_Type resp = PDUTypeSimpleAck \<or> APDU_Type resp = PDUTypeComplexAck
      then ret (Ok resp, incMetric RequestsSucceeded_update c)
      else if APDU_Type resp = PDUTypeError then do {
        e \<leftarrow> decodeError (APDU_Data resp);
        ret (Err e, incMetric RequestsFailed_update c) }
      else if APDU_Type resp = PDUTypeReject
      then ret (Err (RejectErr \<lparr>Rej_InvokeID = InvokeID resp, Rej_Reason = Service resp\<rparr>), incMetric RequestsFailed_update c)
      else if APDU_Type resp = PDUTypeAbort
      then ret (Err (AbortErr \<lparr>Abt_InvokeID = InvokeID resp, Abt_Server = False, Abt_Reason = Service resp\<rparr>),
                incMetric RequestsFailed_update c)
      else ret (Err (Wrapped (Error ErrInvalidResponse @ '': unexpected PDU type '' @ fmt_02x (APDU_Type resp))
                       ErrInvalidResponse), c))"

text \<open>
  The \<open>select\<close> on the context and the response channel, at the moment one of its branches is taken:
  the channel's when it holds a response or has been closed, the context's when it is preferred or
  nothing else is ready.
\<close>

definition awaitResponse :: "Env \<Rightarrow> nat \<Rightarrow> Client \<Rightarrow> (APDU res \<times> Client) go" where
  "awaitResponse env ch c =
     (let q = (case chans c ch of Some q \<Rightarrow> q | None \<Rightarrow> \<lparr>buffered = None, chan_closed = False\<rparr>)
      in if ctxFirst env \<or> (buffered q = None \<and> \<not> chan_closed q)
         then ret (Err ErrTimeout, incMetric RequestsTimedOut_update c)
         else do {
           h \<leftarrow> LatencyHistogram_Record (word_of_int (later env - now env)) (RequestLatency (metrics c));
           let c = c\<lparr>metrics := (metrics c)\<lparr>RequestLatency := h\<rparr>\<rparr>;
           (case buffered q of
              None \<Rightarrow> ret (Err ErrConnectionClosed, c)
            | Some resp \<Rightarrow> responseResult resp (c\<lparr>chans := (chans c)(ch \<mapsto> q\<lparr>buffered := None\<rparr>)\<rparr>)) })"

definition sendRequest :: "Env \<Rightarrow> UDPAddr \<Rightarrow> uint8 \<Rightarrow> bytes \<Rightarrow> Client \<Rightarrow> (APDU res \<times> Client) go" where
  "sendRequest env addr service data c =
     (if state c \<noteq> StateConnected then ret (Err ErrNotConnected, c)
      else
        let (iid, ch, c) = beginRequest c;
            packet = requestPacket iid service data;
            c = countRequest c
        in case transport_Send (net env) (deadline env) (now env) addr packet (transport c) of
             Some err \<Rightarrow> ret (Err (wrap_error ''send request'' err), endRequest iid (incMetric RequestsFailed_update c))
           | None \<Rightarrow> do {
               (r, c') \<leftarrow> awaitResponse env ch (meanwhile env (countSent packet c));
               ret (r, endRequest iid c') })"

definition sendUnconfirmedRequest ::
    "Env \<Rightarrow> UDPAddr \<Rightarrow> bool \<Rightarrow> uint8 \<Rightarrow> bytes \<Rightarrow> Client \<Rightarrow> goerror option \<times> Client" where
  "sendUnconfirmedRequest env addr broadcast service data c =
     (if state c \<noteq> StateConnected then (Some ErrNotConnected, c)
      else
        let bvlcFunc = (if broadcast then BVLCOriginalBroadcastNPDU else BVLCOriginalUnicastNPDU);
            packet = buildPacket bvlcFunc (EncodeNPDU False NPDUControlPriorityNormal)
                       (EncodeUnconfirmedRequest service data);
            c = incMetric RequestsSent_update c;
            err = (if broadcast
                   then transport_Broadcast (net env) (deadline env) (now env) DefaultPort packet (transport c)
                   else transport_Send (net env) (deadline env) (now env) addr packet (transport c))
        in case err of
             Some e \<Rightarrow> (Some (wrap_error ''send unconfirmed request'' e), incMetric RequestsFailed_update c)
           | None \<Rightarrow> (None, incMetric RequestsSucceeded_update (countSent packet c)))"

text \<open>
  \<open>uint16(ttl.Seconds())\<close> passes through \<open>float64\<close>; for durations from 0 up to 65535 seconds, the
  ones the conversion is defined for, it is the integer part.
\<close>

definition fmt_i :: "int \<Rightarrow> string" where
  "fmt_i n = (if n < 0 then ''-'' @ fmt_d (nat (- n)) else fmt_d (nat n))"

definition registerForeignDevice :: "Env \<Rightarrow> Client \<Rightarrow> goerror option" where
  "registerForeignDevice env c =
     (case net_ResolveUDPAddr (net env) (bbmdAddress (opts c) @ '':'' @ fmt_i (bbmdPort (opts c))) of
        Inl err \<Rightarrow> Some (wrap_error ''resolve BBMD address'' err)
      | Inr addr \<Rightarrow>
          let ttl = word_of_int (foreignDeviceTTL (opts c) div SecondNs);
              data = [BVLCTypeBACnetIP, BVLCRegisterForeignDevice] @ PutUint16 6 @ PutUint16 ttl
          in case transport_Send (net env) (deadline env) (now env) addr data (transport c) of
               Some err \<Rightarrow> Some (wrap_error ''send registration'' err)
             | None \<Rightarrow> None)"

section \<open>Discovery and addresses\<close>

definition WhoIs :: "Env \<Rightarrow> (DiscoverOptions \<Rightarrow> DiscoverOptions) list \<Rightarrow> Client \<Rightarrow>
    (uint32 \<rightharpoonup> DeviceInfo) res \<times> Client" where
  "WhoIs env os c =
     (let options = apply_options os defaultDiscoverOptions;
          data = WhoIs_request (LowLimit options) (HighLimit options);
          (err, c) = sendUnconfirmedRequest env \<lparr>IP = [], Port = 0\<rparr> True ServiceWhoIs data c
      in case err of
           Some e \<Rightarrow> (Err e, c)
         | None \<Rightarrow> (let c = meanwhile env (incMetric WhoIsSent_update c) in (Ok (devices c), c)))"

definition GetDevice :: "uint32 \<Rightarrow> Client \<Rightarrow> DeviceInfo option" where
  "GetDevice deviceID c = devices c deviceID"

text \<open>The conversion of a device address to a UDP address at the end of \<open>resolveDevice\<close>.\<close>

definition deviceUDPAddr :: "DeviceInfo \<Rightarrow> UDPAddr res go" where
  "deviceUDPAddr dev =
     (let a = Addr (DevAddress dev)
      in if len a = 4 then ret (Ok \<lparr>IP = a, Port = DefaultPort\<rparr>)
         else if len a = 6 then do {
           ip \<leftarrow> slice_to a 4;
           q \<leftarrow> slice_from a 4;
           p \<leftarrow> BigEndian_Uint16 q;
           ret (Ok \<lparr>IP = ip, Port = uint p\<rparr>) }
         else ret (Err (Plain ''invalid device address format'')))"

definition resolveDevice :: "Env \<Rightarrow> uint32 \<Rightarrow> Client \<Rightarrow> (UDPAddr res \<times> Client) go" where
  "resolveDevice env deviceID c =
     (case devices c deviceID of
        Some dev \<Rightarrow> do { a \<leftarrow> deviceUDPAddr dev; ret (a, c) }
      | None \<Rightarrow>
          (case WhoIs env [WithDeviceRange deviceID deviceID, WithDiscoveryTimeout (2 * SecondNs)] c of
             (Inl err, c) \<Rightarrow> ret (Err err, c)
           | (Inr _, c) \<Rightarrow>
               (case devices c deviceID of
                  None \<Rightarrow> ret (Err ErrDeviceNotFound, c)
                | Some dev \<Rightarrow> do { a \<leftarrow> deviceUDPAddr dev; ret (a, c) })))"

definition NewRemoteDevice :: "uint32 \<Rightarrow> bytes \<Rightarrow> int \<Rightarrow> DeviceInfo" where
  "NewRemoteDevice deviceID ip port =
     (let addr = (case IP_To4 ip of
                    None \<Rightarrow> \<lparr>Net = 0, Addr = []\<rparr>
                  | Some ip4 \<Rightarrow>
                      if port = DefaultPort then \<lparr>Net = 0, Addr = ip4\<rparr>
                      else \<lparr>Net = 0, Addr = ip4 @ [int_byte_at 8 port, int_byte_at 0 port]\<rparr>)
      in DeviceInfo_lit \<lparr>OID_Type = ObjectTypeDevice, OID_Instance = deviceID\<rparr> addr MaxAPDULength 0 0)"

definition RegisterDevice :: "DeviceInfo \<Rightarrow> Client \<Rightarrow> Client" where
  "RegisterDevice device c = c\<lparr>devices := (devices c)(OID_Instance (ObjectID device) \<mapsto> device)\<rparr>"

section \<open>Connecting\<close>

text \<open>
  \<open>Connect\<close> returns its error; a failed registration with the BBMD is only logged, which is the
  second component. The receiver it starts is what \<open>receivePacket\<close> does with each packet.
\<close>

definition Connect :: "Env \<Rightarrow> Client \<Rightarrow> goerror option \<times> goerror option \<times> Client" where
  "Connect env c =
     (if state c \<noteq> StateDisconnected then (Some ErrAlreadyConnected, None, c)
      else
        let c = incMetric ConnectAttempts_update (c\<lparr>state := StateConnecting\<rparr>);
            (err, t) = transport_Open (net env) (transport c);
            c = c\<lparr>transport := t\<rparr>
        in case err of
             Some e \<Rightarrow> (Some (wrap_error ''open transport'' e), None,
                        incMetric ConnectFailures_update (c\<lparr>state := StateDisconnected\<rparr>))
           | None \<Rightarrow>
               let c = incMetric ConnectSuccesses_update (c\<lparr>state := StateConnected\<rparr>)
               in (None, if bbmdAddress (opts c) \<noteq> [] then registerForeignDevice env c else None, c))"

section \<open>Services\<close>

text \<open>
  Each service resolves the device (\<open>env1\<close>, with the packets that arrive during a discovery) and
  then sends its request (\<open>env2\<close>).
\<close>

definition withDevice :: "Env \<Rightarrow> uint32 \<Rightarrow> Client \<Rightarrow> (goerror \<Rightarrow> 'a) \<Rightarrow> (UDPAddr \<Rightarrow> Client \<Rightarrow> ('a \<times> Client) go) \<Rightarrow>
    ('a \<times> Client) go" where
  "withDevice env deviceID c onErr k =
     do { (r, c) \<leftarrow> resolveDevice env deviceID c;
          case r of Inl err \<Rightarrow> ret (onErr err, c) | Inr addr \<Rightarrow> k addr c }"

definition ReadProperty :: "Env \<Rightarrow> Env \<Rightarrow> uint32 \<Rightarrow> ObjectIdentifier \<Rightarrow> uint32 \<Rightarrow> (ReadOptions \<Rightarrow> ReadOptions) list \<Rightarrow>
    Client \<Rightarrow> ((GoValue \<times> goerror option) \<times> Client) go" where
  "ReadProperty env1 env2 deviceID objectID propertyID os c =
     (let options = apply_options os \<lparr>ArrayIndex = None\<rparr>
      in withDevice env1 deviceID c (\<lambda>err. (VNil, Some err)) (\<lambda>addr c. do {
           (r, c) \<leftarrow> sendRequest env2 addr ServiceReadProperty
                       (ReadProperty_request objectID propertyID (ArrayIndex options)) c;
           case r of
             Inl err \<Rightarrow> ret ((VNil, Some err), c)
           | Inr resp \<Rightarrow> do { v \<leftarrow> decodeReadPropertyResponse (APDU_Data resp); ret (v, c) } }))"

definition WriteProperty :: "Env \<Rightarrow> Env \<Rightarrow> uint32 \<Rightarrow> ObjectIdentifier \<Rightarrow> uint32 \<Rightarrow> GoValue \<Rightarrow>
    (WriteOptions \<Rightarrow> WriteOptions) list \<Rightarrow> Client \<Rightarrow> (goerror option \<times> Client) go" where
  "WriteProperty env1 env2 deviceID objectID propertyID value os c =
     (let options = apply_options os \<lparr>WArrayIndex = None, Priority = None\<rparr>
      in withDevice env1 deviceID c Some (\<lambda>addr c.
           case WriteProperty_request objectID propertyID value (WArrayIndex options) (Priority options) of
             Inl err \<Rightarrow> ret (Some err, c)
           | Inr data \<Rightarrow> do {
               (r, c) \<leftarrow> sendRequest env2 addr ServiceWriteProperty data c;
               ret (case r of Inl err \<Rightarrow> Some err | Inr _ \<Rightarrow> None, c) }))"

definition ReadPropertyMultiple :: "Env \<Rightarrow> Env \<Rightarrow> ObjectIdentifier list \<Rightarrow> uint32 \<Rightarrow> ReadPropertyRequest list \<Rightarrow>
    Client \<Rightarrow> (PropertyValue list res \<times> Client) go" where
  "ReadPropertyMultiple env1 env2 order deviceID requests c =
     withDevice env1 deviceID c Err (\<lambda>addr c. do {
       (r, c) \<leftarrow> sendRequest env2 addr ServiceReadPropertyMultiple (ReadPropertyMultiple_request order requests) c;
       case r of
         Inl err \<Rightarrow> ret (Err err, c)
       | Inr resp \<Rightarrow> do { vs \<leftarrow> decodeReadPropertyMultipleResponse (APDU_Data resp); ret (Ok vs, c) } })"

definition SubscribeCOV :: "Env \<Rightarrow> Env \<Rightarrow> uint32 \<Rightarrow> ObjectIdentifier \<Rightarrow> COVHandler \<Rightarrow>
    (SubscribeOptions \<Rightarrow> SubscribeOptions) list \<Rightarrow> Client \<Rightarrow> (uint32 res \<times> Client) go" where
  "SubscribeCOV env1 env2 deviceID objectID handler os c =
     (let options = apply_options os \<lparr>Lifetime = None, COVIncrement = None, Confirmed = False\<rparr>
      in withDevice env1 deviceID c Err (\<lambda>addr c. do {
           let (iid, c) = nextInvokeID c;
           let subID = ucast iid;
           (r, c) \<leftarrow> sendRequest env2 addr ServiceSubscribeCOV
                       (SubscribeCOV_request subID objectID (Confirmed options) (Lifetime options)) c;
           case r of
             Inl err \<Rightarrow> ret (Err err, c)
           | Inr _ \<Rightarrow> ret (Ok subID, incMetric COVSubscriptions_update (c\<lparr>covSubs := (covSubs c)(subID \<mapsto> handler)\<rparr>)) }))"

definition UnsubscribeCOV :: "Env \<Rightarrow> Env \<Rightarrow> uint32 \<Rightarrow> ObjectIdentifier \<Rightarrow> uint32 \<Rightarrow> Client \<Rightarrow>
    (goerror option \<times> Client) go" where
  "UnsubscribeCOV env1 env2 deviceID objectID subID c =
     withDevice env1 deviceID c Some (\<lambda>addr c. do {
       (r, c) \<leftarrow> sendRequest env2 addr ServiceSubscribeCOV (UnsubscribeCOV_request subID objectID) c;
       case r of
         Inl err \<Rightarrow> ret (Some err, c)
       | Inr _ \<Rightarrow> ret (None, c\<lparr>covSubs := (covSubs c)(subID := None)\<rparr>) })"

text \<open>
  \<open>GetObjectList\<close>: the loop counter is a \<open>uint32\<close> and wraps, so the loop may not end; \<open>fuel\<close> bounds the
  number of iterations and the outer option tells whether it sufficed. \<open>read\<close> is \<open>ReadProperty\<close> of the
  object list at an index.
\<close>

fun GetObjectList_loop :: "nat \<Rightarrow> (uint32 \<Rightarrow> Client \<Rightarrow> ((GoValue \<times> goerror option) \<times> Client) go) \<Rightarrow> uint32 \<Rightarrow> uint32 \<Rightarrow>
    ObjectIdentifier list \<Rightarrow> Client \<Rightarrow> (ObjectIdentifier list \<times> Client) go option" where
  "GetObjectList_loop 0 read i lngth objects c = None"
| "GetObjectList_loop (Suc fuel) read i lngth objects c =
     (if i \<le> lngth then
        (case read i c of
           None \<Rightarrow> Some panic
         | Some ((v, err), c') \<Rightarrow>
             GetObjectList_loop fuel read (i + 1) lngth
               (if err \<noteq> None then objects else (case v of VObjectID oid \<Rightarrow> objects @ [oid] | _ \<Rightarrow> objects)) c')
      else Some (ret (objects, c)))"

definition GetObjectList :: "nat \<Rightarrow> (uint32 \<Rightarrow> Env \<times> Env) \<Rightarrow> uint32 \<Rightarrow> Client \<Rightarrow>
    (ObjectIdentifier list res \<times> Client) go option" where
  "GetObjectList fuel envs deviceID c =
     (let read = (\<lambda>i c. ReadProperty (fst (envs i)) (snd (envs i)) deviceID
                          (NewObjectIdentifier ObjectTypeDevice deviceID) PropertyObjectList [WithArrayIndex i] c)
      in case read 0 c of
           None \<Rightarrow> Some panic
         | Some ((lengthVal, Some err), c) \<Rightarrow> Some (ret (Err err, c))
         | Some ((lengthVal, None), c) \<Rightarrow>
             (case lengthVal of
                VUint32 lngth \<Rightarrow>
                  map_option (map_option (\<lambda>(objects, c). (Ok objects, c))) (GetObjectList_loop fuel read 1 lngth [] c)
              | _ \<Rightarrow> Some (ret (Err (Plain (''unexpected object-list length type: '' @ type_name lengthVal)), c))))"

end
