(* ===== verification/Client_Invariant.thy ===== *)
theory Client_Invariant
  imports Client
begin

text \<open>
  The invariant of the client state and that every operation of \<open>client.go\<close> keeps it: each pending
  invoke identifier has its own open channel, and a buffered response carries the identifier under
  which the channel is registered. Under the invariant no received packet and no call panics.
\<close>

section \<open>The invariant\<close>

definition table_ok :: "(uint8 \<rightharpoonup> nat) \<Rightarrow> (nat \<rightharpoonup> Chan) \<Rightarrow> nat \<Rightarrow> bool" where
  "table_ok p ch n \<longleftrightarrow>
     (\<forall>i k. p i = Some k \<longrightarrow> (\<exists>q. ch k = Some q \<and> \<not> chan_closed q \<and> (\<forall>a. buffered q = Some a \<longrightarrow> InvokeID a = i))) \<and>
     (\<forall>i j k. p i = Some k \<longrightarrow> p j = Some k \<longrightarrow> i = j) \<and>
     (\<forall>k. ch k \<noteq> None \<longrightarrow> k < n)"

definition client_ok :: "Client \<Rightarrow> bool" where
  "client_ok c \<longleftrightarrow> table_ok (pending c) (chans c) (nextChan c) \<and> length (h_buckets (RequestLatency (metrics c))) = 10"

text \<open>What packet handling and bookkeeping leave alone.\<close>

definition same_control :: "Client \<Rightarrow> Client \<Rightarrow> bool" where
  "same_control c c' \<longleftrightarrow>
     opts c' = opts c \<and> transport c' = transport c \<and> state c' = state c \<and> invokeID c' = invokeID c \<and>
     nextChan c' = nextChan c \<and> pending c' = pending c \<and> covSubs c' = covSubs c \<and>
     PanicsRecovered (metrics c') = PanicsRecovered (metrics c) \<and>
     ActiveRequests (metrics c') = ActiveRequests (metrics c)"

lemma same_control_refl [simp]: "same_control c c"
  by (simp add: same_control_def)

lemma same_control_trans: "same_control a b \<Longrightarrow> same_control b c \<Longrightarrow> same_control a c"
  by (simp add: same_control_def)

lemma client_ok_count [simp]:
  "client_ok (incMetric ConnectAttempts_update c) = client_ok c" "client_ok (incMetric ConnectSuccesses_update c) = client_ok c"
  "client_ok (incMetric ConnectFailures_update c) = client_ok c" "client_ok (incMetric Disconnects_update c) = client_ok c"
  "client_ok (incMetric RequestsSent_update c) = client_ok c" "client_ok (incMetric RequestsSucceeded_update c) = client_ok c"
  "client_ok (incMetric RequestsFailed_update c) = client_ok c" "client_ok (incMetric RequestsTimedOut_update c) = client_ok c"
  "client_ok (incMetric ResponsesReceived_update c) = client_ok c" "client_ok (incMetric ErrorsReceived_update c) = client_ok c"
  "client_ok (incMetric RejectsReceived_update c) = client_ok c" "client_ok (incMetric AbortsReceived_update c) = client_ok c"
  "client_ok (incMetric WhoIsSent_update c) = client_ok c" "client_ok (incMetric IAmReceived_update c) = client_ok c"
  "client_ok (incMetric DevicesDiscovered_update c) = client_ok c" "client_ok (incMetric COVSubscriptions_update c) = client_ok c"
  "client_ok (incMetric COVNotifications_update c) = client_ok c" "client_ok (incMetric PanicsRecovered_update c) = client_ok c"
  by (simp_all add: client_ok_def incMetric_def)

lemma count_control [simp]:
  "same_control c (incMetric ResponsesReceived_update c)" "same_control c (incMetric ErrorsReceived_update c)"
  "same_control c (incMetric RejectsReceived_update c)" "same_control c (incMetric AbortsReceived_update c)"
  "same_control c (incMetric IAmReceived_update c)" "same_control c (incMetric DevicesDiscovered_update c)"
  "same_control c (incMetric COVNotifications_update c)"
  by (simp_all add: same_control_def incMetric_def)

lemma count_fields [simp]:
  "state (incMetric f c) = state c" "pending (incMetric f c) = pending c" "chans (incMetric f c) = chans c"
  "transport (incMetric f c) = transport c" "devices (incMetric f c) = devices c" "nextChan (incMetric f c) = nextChan c"
  "invokeID (incMetric f c) = invokeID c" "opts (incMetric f c) = opts c" "covSubs (incMetric f c) = covSubs c"
  by (simp_all add: incMetric_def)

lemmas traffic_defs = countReceived_def countRequest_def countSent_def RecordActivity_def incMetric_def Let_def

lemma traffic_fields [simp]:
  "state (countReceived tm p c) = state c" "pending (countReceived tm p c) = pending c" "chans (countReceived tm p c) = chans c"
  "transport (countReceived tm p c) = transport c" "devices (countReceived tm p c) = devices c" "invokeID (countReceived tm p c) = invokeID c"
  "state (countRequest c) = state c" "pending (countRequest c) = pending c" "chans (countRequest c) = chans c"
  "transport (countRequest c) = transport c" "devices (countRequest c) = devices c" "invokeID (countRequest c) = invokeID c"
  "state (countSent p c) = state c" "pending (countSent p c) = pending c" "chans (countSent p c) = chans c"
  "transport (countSent p c) = transport c" "devices (countSent p c) = devices c" "invokeID (countSent p c) = invokeID c"
  by (simp_all add: traffic_defs)

lemma client_ok_traffic [simp]:
  "client_ok (countReceived tm p c) = client_ok c" "client_ok (countRequest c) = client_ok c" "client_ok (countSent p c) = client_ok c"
  by (simp_all add: client_ok_def traffic_defs)

lemma traffic_control [simp]: "same_control c (countReceived tm p c)" "same_control c (countSent p c)"
  by (simp_all add: same_control_def traffic_defs)

lemma client_ok_updates [simp]:
  "client_ok (c\<lparr>devices := d\<rparr>) = client_ok c" "client_ok (c\<lparr>state := s\<rparr>) = client_ok c"
  "client_ok (c\<lparr>transport := t\<rparr>) = client_ok c" "client_ok (c\<lparr>covSubs := v\<rparr>) = client_ok c"
  "client_ok (c\<lparr>invokeID := n\<rparr>) = client_ok c"
  by (simp_all add: client_ok_def)

lemma client_ok_NewClient: "client_ok (NewClient tm os)"
  by (simp add: NewClient_def Let_def client_ok_def table_ok_def NewMetrics_def NewLatencyHistogram_def)

section \<open>Received packets\<close>

lemma decodeIAm_total [no_panic]: "\<exists>r. decodeIAm data = ret r"
  by (auto simp: decodeIAm_def Let_def slice_Some BigEndian_Uint32_def idx_def simp del: split_paired_Ex
      intro!: call_total DecodeTagNumber_total readUnsignedTag_total dest!: DecodeTagNumber_bounds)

lemma handleIAm_keeps:
  "\<exists>c'. handleIAm data addr npdu c = ret c' \<and> client_ok c' = client_ok c \<and> same_control c c' \<and> chans c' = chans c \<and>
     RequestLatency (metrics c') = RequestLatency (metrics c)"
proof -
  have dev: "client_ok (incMetric DevicesDiscovered_update (incMetric IAmReceived_update c\<lparr>devices := d\<rparr>)) = client_ok c"
    "same_control c (incMetric DevicesDiscovered_update (incMetric IAmReceived_update c\<lparr>devices := d\<rparr>))"
    "same_control c (incMetric IAmReceived_update c\<lparr>devices := d\<rparr>)"
    "RequestLatency (metrics (incMetric DevicesDiscovered_update (incMetric IAmReceived_update c\<lparr>devices := d\<rparr>))) = RequestLatency (metrics c)"
    "RequestLatency (metrics (incMetric IAmReceived_update c)) = RequestLatency (metrics c)" for d
    by (simp_all add: same_control_def incMetric_def client_ok_def)
  obtain r where r: "decodeIAm data = ret r" using decodeIAm_total by blast
  show ?thesis
    by (cases r) (auto simp: handleIAm_def Let_def r dev)
qed

lemma decodePacket_total [no_panic]: "\<exists>r. decodePacket data = ret r"
proof -
  have npdu: "\<exists>r. call (DecodeNPDU d) (\<lambda>_. ret None) (\<lambda>(npdu, offset).
           if Control npdu AND NPDUControlNetworkLayerMessage \<noteq> 0 then ret None
           else do {
             apduData \<leftarrow> slice_from d offset;
             call (DecodeAPDU apduData) (\<lambda>_. ret None) (\<lambda>apdu. ret (Some (apdu, npdu))) }) = ret r" for d
    by (auto simp: slice_from_Some simp del: split_paired_Ex intro!: call_total DecodeNPDU_total DecodeAPDU_total
        dest!: DecodeNPDU_bounds)
  show ?thesis
  proof (cases "len data < 4")
    case True
    then show ?thesis by (simp add: decodePacket_def DecodeBVLC_def)
  next
    case False
    obtain h where h: "DecodeBVLC data = ret h" using DecodeBVLC_total by blast
    show ?thesis
      using False npdu by (cases h) (auto simp: decodePacket_def h slice_from_Some simp del: split_paired_Ex)
  qed
qed

lemma chan_send_keeps:
  assumes "client_ok c" and "pending c (InvokeID a) = Some ch"
  shows "\<exists>c'. chan_send ch a c = ret c' \<and> client_ok c' \<and> same_control c c'"
proof -
  obtain q where q: "chans c ch = Some q" "\<not> chan_closed q"
    using assms unfolding client_ok_def table_ok_def by blast
  show ?thesis
  proof (cases "buffered q")
    case None
    have "table_ok (pending c) ((chans c)(ch \<mapsto> q\<lparr>buffered := Some a\<rparr>)) (nextChan c)"
      using assms q by (auto simp: client_ok_def table_ok_def)
    then show ?thesis
      using assms(1) q None by (simp add: chan_send_def client_ok_def same_control_def)
  next
    case (Some b)
    then show ?thesis using assms(1) q by (simp add: chan_send_def)
  qed
qed

lemma handleResponse_keeps:
  assumes "client_ok c"
  shows "\<exists>c'. handleResponse a c = ret c' \<and> client_ok c' \<and> same_control c c'"
  using chan_send_keeps [OF assms, of a] assms by (cases "pending c (InvokeID a)") (auto simp: handleResponse_def)

lemma dispatchAPDU_keeps:
  assumes "client_ok c"
  shows "\<exists>c'. dispatchAPDU a addr npdu c = ret c' \<and> client_ok c' \<and> same_control c c'"
proof -
  have counted: "\<exists>c'. handleResponse a d = ret c' \<and> client_ok c' \<and> same_control c c'"
    if "client_ok d" "same_control c d" for d
    using handleResponse_keeps [OF that(1), of a] that(2) by (auto intro: same_control_trans)
  show ?thesis
    using assms handleIAm_keeps [of "APDU_Data a" addr npdu c] counted
    by (auto simp: dispatchAPDU_def handleUnconfirmedRequest_def handleCOVNotification_def)
qed

lemma handlePacket_keeps:
  assumes "client_ok c"
  shows "\<exists>c'. handlePacket data addr c = ret c' \<and> client_ok c' \<and> same_control c c'"
proof -
  obtain r where r: "decodePacket data = ret r" using decodePacket_total by blast
  show ?thesis
  proof (cases r)
    case (Some p)
    obtain a n where p: "p = (a, n)" by (cases p)
    obtain c' where "dispatchAPDU a addr n (incMetric ResponsesReceived_update c) = ret c'" "client_ok c'"
      "same_control (incMetric ResponsesReceived_update c) c'"
      using dispatchAPDU_keeps [of "incMetric ResponsesReceived_update c" a addr n] assms by auto
    then show ?thesis
      using r Some p same_control_trans [OF count_control(1), of c c'] by (auto simp: handlePacket_def)
  qed (use assms r in \<open>simp add: handlePacket_def\<close>)
qed

lemma receivePacket_keeps:
  assumes "client_ok c"
  shows "client_ok (receivePacket tm data addr c)" and "same_control c (receivePacket tm data addr c)"
proof -
  obtain c' where "handlePacket data addr (countReceived tm data c) = ret c'" "client_ok c'" "same_control (countReceived tm data c) c'"
    using handlePacket_keeps [of "countReceived tm data c"] assms by auto
  then show "client_ok (receivePacket tm data addr c)" "same_control c (receivePacket tm data addr c)"
    using same_control_trans [OF traffic_control(1)] by (auto simp: receivePacket_def)
qed

lemma receiveAll_keeps:
  assumes "client_ok c"
  shows "client_ok (receiveAll env c) \<and> same_control c (receiveAll env c)"
proof -
  have "client_ok (fold (\<lambda>(data, addr). receivePacket (later env) data addr) ps c) \<and>
        same_control c (fold (\<lambda>(data, addr). receivePacket (later env) data addr) ps c)" for ps
    using assms
  proof (induction ps arbitrary: c)
    case (Cons p ps)
    obtain data addr where p: "p = (data, addr)" by (cases p)
    note one = receivePacket_keeps [OF Cons.prems, of "later env" data addr]
    show ?case
      using Cons.IH [OF one(1)] same_control_trans [OF one(2)] by (simp add: p)
  qed simp
  then show ?thesis by (simp add: receiveAll_def)
qed

lemma Close_lowers_state: "Close env c = (e, c') \<Longrightarrow> state c' \<le> state c \<and> state c' = StateDisconnected"
  by (auto simp: Close_def Let_def closePending_def split: if_splits prod.splits)

lemma closePending_ok: "client_ok c \<Longrightarrow> client_ok (closePending c)"
  by (auto simp: client_ok_def table_ok_def closePending_def)

lemma Close_keeps:
  assumes "client_ok c" and "Close env c = (err, c')"
  shows "client_ok c' \<and> state c' = StateDisconnected"
  using assms closePending_ok
  by (auto simp: Close_def Let_def split: if_splits prod.splits)
     (simp_all add: closePending_def)

section \<open>While a call waits\<close>

text \<open>
  When the client is not closed meanwhile, only packets are received. A client that is closed meanwhile loses its
  pending requests, but keeps the books; a channel that was pending keeps its response and is closed.
\<close>

definition same_books :: "Client \<Rightarrow> Client \<Rightarrow> bool" where
  "same_books c c' \<longleftrightarrow> opts c' = opts c \<and> invokeID c' = invokeID c \<and> covSubs c' = covSubs c \<and>
     PanicsRecovered (metrics c') = PanicsRecovered (metrics c) \<and> ActiveRequests (metrics c') = ActiveRequests (metrics c)"

lemma same_books_trans: "same_books a b \<Longrightarrow> same_books b c \<Longrightarrow> same_books a c"
  by (simp add: same_books_def)

lemma same_control_books: "same_control c c' \<Longrightarrow> same_books c c'"
  by (simp add: same_control_def same_books_def)

lemma meanwhile_open: "\<not> closes env \<Longrightarrow> meanwhile env c = receiveAll env c"
  by (simp add: meanwhile_def)

lemma Close_books: "same_books c (snd (Close env c))"
  by (simp add: Close_def closePending_def Let_def incMetric_def same_books_def split: prod.split)

lemma Close_connected:
  assumes "state c \<noteq> StateDisconnected"
  shows "pending (snd (Close env c)) = Map.empty" "chans (snd (Close env c)) = chans (closePending c)"
  using assms by (simp_all add: Close_def closePending_def Let_def incMetric_def cong: if_cong split: prod.split)

lemma meanwhile_keeps:
  assumes "client_ok c"
  shows "client_ok (meanwhile env c)" and "same_books c (meanwhile env c)"
proof -
  note r = receiveAll_keeps [OF assms, of env]
  have "client_ok (snd (Close env (receiveAll env c)))" using Close_keeps r by (metis prod.collapse)
  then show "client_ok (meanwhile env c)" using r by (simp add: meanwhile_def Let_def)
  show "same_books c (meanwhile env c)"
    using r same_books_trans [OF same_control_books Close_books] by (auto simp: meanwhile_def Let_def same_control_books)
qed

lemma meanwhile_channel:
  assumes ok: "client_ok c" and p: "pending c i = Some ch" and st: "state c = StateConnected"
  shows "pending (meanwhile env c) = (if closes env then Map.empty else pending c) \<and>
         (\<exists>q. chans (meanwhile env c) ch = Some q \<and> chan_closed q = closes env \<and> (\<forall>a. buffered q = Some a \<longrightarrow> InvokeID a = i))"
proof -
  define d where "d = receiveAll env c"
  have d: "client_ok d" "pending d = pending c" "state d = StateConnected"
    using receiveAll_keeps [OF ok, of env] st by (simp_all add: d_def same_control_def)
  then obtain q where q: "chans d ch = Some q" "\<not> chan_closed q" "\<forall>a. buffered q = Some a \<longrightarrow> InvokeID a = i"
    using p unfolding client_ok_def table_ok_def by metis
  show ?thesis
  proof (cases "closes env")
    case True
    have "chans (closePending d) ch = Some (q\<lparr>chan_closed := True\<rparr>)"
      using p q(1) d(2) by (auto simp: closePending_def ran_def)
    with True q d(3) Close_connected [of d env] show ?thesis by (simp add: meanwhile_def d_def [symmetric])
  next
    case False
    with d q show ?thesis by (simp add: meanwhile_def d_def [symmetric])
  qed
qed

section \<open>Requests\<close>

lemma Record_total:
  assumes "length (h_buckets h) = 10"
  shows "\<exists>h'. LatencyHistogram_Record d h = ret h' \<and> length (h_buckets h') = 10"
  using assms latency_bucket_less [of "sint d sdiv 1000000"]
  by (simp add: LatencyHistogram_Record_def Let_def idx_def len_def)

lemma beginRequest_ok:
  assumes "client_ok c" and "beginRequest c = (iid, ch, c')"
  shows "client_ok c' \<and> iid = ucast ((invokeID c + 1) AND 0xFF) \<and> pending c' = (pending c)(iid \<mapsto> ch) \<and>
         state c' = state c \<and> transport c' = transport c \<and> metrics c' = metrics c \<and> opts c' = opts c \<and>
         devices c' = devices c \<and> covSubs c' = covSubs c \<and> ch = nextChan c \<and> invokeID c' = invokeID c + 1 \<and>
         chans c' = (chans c)(ch \<mapsto> \<lparr>buffered = None, chan_closed = False\<rparr>)"
proof -
  define p where "p = (pending c)(iid \<mapsto> nextChan c)"
  define s where "s = (chans c)(nextChan c \<mapsto> \<lparr>buffered = None, chan_closed = False\<rparr>)"
  have t: "table_ok (pending c) (chans c) (nextChan c)" using assms(1) by (simp add: client_ok_def)
  then have fresh: "pending c i \<noteq> Some (nextChan c)" for i
    unfolding table_ok_def by (metis less_irrefl option.distinct(1))
  have "table_ok p s (nextChan c + 1)"
    unfolding table_ok_def
  proof (intro conjI allI impI)
    fix i k assume "p i = Some k"
    then show "\<exists>q. s k = Some q \<and> \<not> chan_closed q \<and> (\<forall>a. buffered q = Some a \<longrightarrow> InvokeID a = i)"
      using t fresh [of i] by (auto simp: p_def s_def table_ok_def split: if_splits)
  next
    fix i j k assume "p i = Some k" "p j = Some k"
    then show "i = j" using t fresh by (auto simp: p_def table_ok_def split: if_splits)
  next
    fix k assume "s k \<noteq> None"
    then show "k < nextChan c + 1" using t by (auto simp: s_def table_ok_def less_Suc_eq split: if_splits)
  qed
  then show ?thesis
    using assms by (auto simp: beginRequest_def nextInvokeID_def Let_def client_ok_def p_def s_def)
qed

lemma endRequest_ok:
  assumes "client_ok c"
  shows "client_ok (endRequest iid c)"
proof -
  have "table_ok ((pending c)(iid := None)) (chans c) (nextChan c)"
    using assms by (auto simp: client_ok_def table_ok_def)
  then show ?thesis using assms by (simp add: endRequest_def client_ok_def)
qed

lemma responseResult_total: "\<exists>r c'. responseResult resp c = ret (r, c')"
  using decodeError_total [of "APDU_Data resp"] by (auto simp: responseResult_def)

lemma responseResult_keeps:
  assumes "responseResult resp c = ret (r, c')"
  shows "client_ok c' = client_ok c \<and> same_control c c' \<and> (r = Ok a \<longrightarrow> a = resp)"
proof -
  have "same_control c (incMetric RequestsSucceeded_update c)" "same_control c (incMetric RequestsFailed_update c)"
    by (simp_all add: same_control_def incMetric_def)
  with assms show ?thesis
    by (auto simp: responseResult_def bind_eq_Some_conv split: if_splits)
qed

lemma take_response_ok:
  assumes "client_ok c" and "chans c ch = Some q"
  shows "client_ok (c\<lparr>chans := (chans c)(ch \<mapsto> q\<lparr>buffered := None\<rparr>)\<rparr>)"
proof -
  have "table_ok (pending c) ((chans c)(ch \<mapsto> q\<lparr>buffered := None\<rparr>)) (nextChan c)"
    using assms unfolding client_ok_def table_ok_def by (auto split: if_splits) (metis option.sel)+
  then show ?thesis using assms(1) by (simp add: client_ok_def)
qed

lemma awaitResponse_keeps:
  assumes ok: "client_ok c" and ch: "chans c ch = Some q"
  shows "\<exists>r c'. awaitResponse env ch c = ret (r, c') \<and> client_ok c' \<and> same_control c c' \<and>
           (\<forall>a. r = Ok a \<longrightarrow> buffered q = Some a)"
proof (cases "ctxFirst env \<or> (buffered q = None \<and> \<not> chan_closed q)")
  case True
  have "same_control c (incMetric RequestsTimedOut_update c)" by (simp add: same_control_def incMetric_def)
  with True ok ch show ?thesis by (simp add: awaitResponse_def)
next
  case False
  obtain h where h: "LatencyHistogram_Record (word_of_int (later env - now env)) (RequestLatency (metrics c)) = ret h"
    "length (h_buckets h) = 10"
    using Record_total ok by (force simp: client_ok_def)
  define d where "d = c\<lparr>metrics := (metrics c)\<lparr>RequestLatency := h\<rparr>\<rparr>"
  have d: "client_ok d" "same_control c d" "chans d = chans c"
    using ok h(2) by (simp_all add: d_def client_ok_def same_control_def)
  show ?thesis
  proof (cases "buffered q")
    case None
    then show ?thesis using False ch h d by (auto simp: awaitResponse_def d_def)
  next
    case (Some resp)
    define e where "e = d\<lparr>chans := (chans d)(ch \<mapsto> q\<lparr>buffered := None\<rparr>)\<rparr>"
    have e: "client_ok e" "same_control d e"
      using take_response_ok [OF d(1)] ch d(3) by (simp_all add: e_def same_control_def)
    obtain r c' where r: "responseResult resp e = ret (r, c')" using responseResult_total by blast
    have "awaitResponse env ch c = ret (r, c')"
      using False ch h(1) Some r by (simp add: awaitResponse_def e_def d_def)
    moreover have "client_ok c'" "same_control c c'" "\<forall>a. r = Ok a \<longrightarrow> a = resp"
      using responseResult_keeps [OF r] e d(2) by (auto intro: same_control_trans)
    ultimately show ?thesis using Some by auto
  qed
qed

lemma Gauge_Dec_Inc [simp]: "Gauge_Dec (Gauge_Inc g) = g"
  by (simp add: Gauge_Dec_def Gauge_Inc_def Gauge_Add_def)

text \<open>The invoke identifier of the next request.\<close>

definition next_iid :: "Client \<Rightarrow> uint8" where
  "next_iid c = ucast ((invokeID c + 1) AND 0xFF)"

text \<open>What a request leaves behind: everything as before except its own identifier, which is free.\<close>

definition request_done :: "Client \<Rightarrow> Client \<Rightarrow> bool" where
  "request_done c c' \<longleftrightarrow> client_ok c' \<and> state c' = state c \<and> transport c' = transport c \<and> opts c' = opts c \<and>
     covSubs c' = covSubs c \<and> ActiveRequests (metrics c') = ActiveRequests (metrics c) \<and>
     PanicsRecovered (metrics c') = PanicsRecovered (metrics c) \<and>
     pending c' = (if state c = StateConnected then (pending c)(next_iid c := None) else pending c)"

text \<open>What \<open>sendRequest\<close> does once the connection state has been checked and the request registered.\<close>

lemma sendRequest_connected:
  assumes "state c = StateConnected" and "beginRequest c = (iid, ch, c1)"
  shows "sendRequest env addr svc data c =
    (case transport_Send (net env) (deadline env) (now env) addr (requestPacket iid svc data) (transport c) of
       Some err \<Rightarrow> ret (Err (wrap_error ''send request'' err), endRequest iid (incMetric RequestsFailed_update (countRequest c1)))
     | None \<Rightarrow> do {
         (r, c') \<leftarrow> awaitResponse env ch (meanwhile env (countSent (requestPacket iid svc data) (countRequest c1)));
         ret (r, endRequest iid c') })"
proof -
  have "transport c1 = transport c" using assms(2) by (auto simp: beginRequest_def nextInvokeID_def Let_def)
  then show ?thesis using assms by (simp add: sendRequest_def Let_def split: option.split)
qed

lemma request_done_end:
  assumes "beginRequest c = (iid, ch, c1)" and "state c = StateConnected" and "client_ok c" and "client_ok d"
    and "same_control (countRequest c1) d"
  shows "request_done c (endRequest iid d)"
  using assms(2,5) beginRequest_ok [OF assms(3,1)] endRequest_ok [OF assms(4), of iid]
  by (auto simp: request_done_def endRequest_def same_control_def countRequest_def incMetric_def Let_def next_iid_def)

text \<open>
  A request that waits: what the \<open>select\<close> returns, the books, and the pending table. Only a \<open>Close\<close> meanwhile
  changes more than the request itself.
\<close>

lemma request_waits:
  assumes "beginRequest c = (iid, ch, c1)" and "client_ok c" and "state c = StateConnected"
  shows "\<exists>r d. awaitResponse env ch (meanwhile env (countSent p (countRequest c1))) = ret (r, d) \<and> client_ok d \<and>
           same_books (countRequest c1) d \<and> (\<not> closes env \<longrightarrow> same_control (countRequest c1) d) \<and>
           pending d = (if closes env then Map.empty else pending c1) \<and> (\<forall>a. r = Ok a \<longrightarrow> InvokeID a = iid)"
proof -
  define c3 where "c3 = countSent p (countRequest c1)"
  define c4 where "c4 = meanwhile env c3"
  note b = beginRequest_ok [OF assms(2,1)]
  have "client_ok c1" using b by blast
  then have c3: "client_ok c3" "pending c3 iid = Some ch" "state c3 = StateConnected" "same_control (countRequest c1) c3"
    "pending c3 = pending c1"
    using b assms(3) by (simp_all add: c3_def)
  note m = meanwhile_keeps [OF c3(1), of env, folded c4_def] meanwhile_channel [OF c3(1-3), of env, folded c4_def]
  obtain q where q: "chans c4 ch = Some q" "\<And>a. buffered q = Some a \<Longrightarrow> InvokeID a = iid" using m(3) by blast
  obtain r d where r: "awaitResponse env ch c4 = ret (r, d)" "client_ok d" "same_control c4 d" "\<And>a. r = Ok a \<Longrightarrow> buffered q = Some a"
    using awaitResponse_keeps [OF m(1) q(1), of env] by blast
  have "same_books (countRequest c1) d"
    using same_books_trans [OF same_control_books [OF c3(4)] same_books_trans [OF m(2) same_control_books [OF r(3)]]] .
  moreover have "same_control (countRequest c1) d" if "\<not> closes env"
    using same_control_trans [OF c3(4) same_control_trans [OF _ r(3)]] receiveAll_keeps [OF c3(1), of env] meanwhile_open [OF that, of c3]
    by (simp add: c4_def)
  moreover have "pending d = (if closes env then Map.empty else pending c1)"
    using m(3) r(3) c3(5) by (simp add: same_control_def)
  ultimately show ?thesis using r(1,2,4) q(2) by (auto simp: c4_def c3_def)
qed

lemma sendRequest_keeps:
  assumes "client_ok c"
  shows "\<exists>r c'. sendRequest env addr svc data c = ret (r, c') \<and> client_ok c' \<and> (\<not> closes env \<longrightarrow> request_done c c') \<and>
           (\<forall>a. r = Ok a \<longrightarrow> InvokeID a = next_iid c) \<and>
           ActiveRequests (metrics c') = ActiveRequests (metrics c) \<and> covSubs c' = covSubs c \<and>
           (state c = StateConnected \<longrightarrow> pending c' =
              (if closes env \<and> transport_Send (net env) (deadline env) (now env) addr (requestPacket (next_iid c) svc data) (transport c) = None
               then Map.empty else (pending c)(next_iid c := None)))"
proof (cases "state c = StateConnected")
  case False
  then show ?thesis using assms by (auto simp: sendRequest_def request_done_def)
next
  case True
  obtain iid ch c1 where b: "beginRequest c = (iid, ch, c1)" by (cases "beginRequest c") auto
  note b1 = beginRequest_ok [OF assms b]
  have iid: "iid = next_iid c" using b1 by (simp add: next_iid_def)
  note send = sendRequest_connected [OF True b, of env addr svc data]
  show ?thesis
  proof (cases "transport_Send (net env) (deadline env) (now env) addr (requestPacket iid svc data) (transport c)")
    case (Some err)
    have "client_ok c1" using b1 by blast
    then have "request_done c (endRequest iid (incMetric RequestsFailed_update (countRequest c1)))"
      by (intro request_done_end [OF b True assms]) (simp, simp add: same_control_def incMetric_def)
    then show ?thesis unfolding send Some using Some iid True by (simp add: request_done_def)
  next
    case None
    obtain r d where w: "awaitResponse env ch (meanwhile env (countSent (requestPacket iid svc data) (countRequest c1))) = ret (r, d)"
      "client_ok d" "same_books (countRequest c1) d" "\<not> closes env \<longrightarrow> same_control (countRequest c1) d"
      "pending d = (if closes env then Map.empty else pending c1)" "\<forall>a. r = Ok a \<longrightarrow> InvokeID a = iid"
      using request_waits [OF b assms True, of env "requestPacket iid svc data"] by blast
    have "sendRequest env addr svc data c = ret (r, endRequest iid d)" unfolding send None using w(1) by simp
    moreover have "\<not> closes env \<longrightarrow> request_done c (endRequest iid d)" using request_done_end [OF b True assms w(2)] w(4) by blast
    moreover have "ActiveRequests (metrics (endRequest iid d)) = ActiveRequests (metrics c) \<and> covSubs (endRequest iid d) = covSubs c"
      using w(3) b1 by (simp add: same_books_def endRequest_def countRequest_def incMetric_def Let_def)
    moreover have "pending (endRequest iid d) = (if closes env then Map.empty else (pending c)(iid := None))"
      using w(5) b1 by (simp add: endRequest_def)
    ultimately show ?thesis using w(6) iid None endRequest_ok [OF w(2), of iid] by auto
  qed
qed

section \<open>Discovery, connection and services\<close>

lemma sendUnconfirmedRequest_keeps:
  assumes "client_ok c" and "sendUnconfirmedRequest env addr bc svc data c = (e, c')"
  shows "client_ok c' \<and> same_control c c' \<and> devices c' = devices c"
proof -
  have "same_control c (incMetric RequestsFailed_update (incMetric RequestsSent_update c))"
    "same_control c (incMetric RequestsSucceeded_update (countSent p (incMetric RequestsSent_update c)))" for p
    by (simp_all add: same_control_def traffic_defs)
  with assms show ?thesis
    by (auto simp: sendUnconfirmedRequest_def Let_def split: if_splits option.splits)
qed

lemma WhoIs_keeps:
  assumes "client_ok c" and "WhoIs env os c = (r, c')"
  shows "client_ok c'"
proof -
  define data where "data = WhoIs_request (LowLimit (apply_options os defaultDiscoverOptions)) (HighLimit (apply_options os defaultDiscoverOptions))"
  obtain e c1 where s: "sendUnconfirmedRequest env \<lparr>IP = [], Port = 0\<rparr> True ServiceWhoIs data c = (e, c1)" by fastforce
  note k = sendUnconfirmedRequest_keeps [OF assms(1) s]
  have "client_ok (incMetric WhoIsSent_update c1)" using k by simp
  then have "client_ok (meanwhile env (incMetric WhoIsSent_update c1))" by (rule meanwhile_keeps)
  then show ?thesis
    using assms(2) s k by (cases e) (auto simp: WhoIs_def Let_def data_def)
qed

lemma deviceUDPAddr_total [no_panic]: "\<exists>r. deviceUDPAddr dev = ret r"
  by (auto simp: deviceUDPAddr_def Let_def slice_to_Some slice_from_Some BigEndian_Uint16_def idx_def)

lemma resolveDevice_keeps:
  assumes "client_ok c"
  shows "\<exists>r c'. resolveDevice env d c = ret (r, c') \<and> client_ok c'"
proof (cases "devices c d")
  case (Some dev)
  then show ?thesis using deviceUDPAddr_total [of dev] assms by (auto simp: resolveDevice_def)
next
  case None
  obtain r c1 where w: "WhoIs env [WithDeviceRange d d, WithDiscoveryTimeout (2 * SecondNs)] c = (r, c1)" by fastforce
  show ?thesis
  proof (cases "devices c1 d")
    case None2: None
    then show ?thesis using None w WhoIs_keeps [OF assms w] by (cases r) (simp_all add: resolveDevice_def)
  next
    case (Some dev)
    then show ?thesis
      using None w WhoIs_keeps [OF assms w] deviceUDPAddr_total [of dev] by (cases r) (auto simp: resolveDevice_def)
  qed
qed

text \<open>
  The contract of a call on the client: from a state that satisfies the invariant it returns, without
  a panic, and the invariant holds again. Calls that keep the contract can be put in sequence.
\<close>

locale client_call =
  fixes f :: "Client \<Rightarrow> ('a \<times> Client) go"
  assumes safe: "client_ok c \<Longrightarrow> \<exists>r c'. f c = ret (r, c') \<and> client_ok c'"
begin

lemma seq:
  assumes "client_ok c" and "\<And>r d. client_ok d \<Longrightarrow> \<exists>x e. g r d = ret (x, e) \<and> client_ok e"
  shows "\<exists>x e. (do { (r, d) \<leftarrow> f c; g r d }) = ret (x, e) \<and> client_ok e"
  using safe [OF assms(1)] assms(2) by fastforce

end

interpretation resolve: client_call "resolveDevice env dev" for env dev
  by unfold_locales (use resolveDevice_keeps in blast)

interpretation send: client_call "sendRequest env addr svc data" for env addr svc data
  by unfold_locales (use sendRequest_keeps in blast)

lemma withDevice_safe:
  assumes "client_ok c" and "\<And>addr d. client_ok d \<Longrightarrow> \<exists>x e. k addr d = ret (x, e) \<and> client_ok e"
  shows "\<exists>x e. withDevice env dev c h k = ret (x, e) \<and> client_ok e"
  unfolding withDevice_def by (rule resolve.seq [OF assms(1)]) (use assms(2) in \<open>auto split: sum.splits\<close>)

lemma decode_step_safe:
  assumes "client_ok d" and "\<And>resp. \<exists>v. D resp = ret v"
  shows "\<exists>x e. (case r of Inl err \<Rightarrow> ret (A err, d) | Inr resp \<Rightarrow> do { v \<leftarrow> D resp; ret (B v, d) }) = ret (x, e) \<and> client_ok e"
proof (cases r)
  case (Inr resp)
  obtain v where "D resp = ret v" using assms(2) by blast
  with Inr assms(1) show ?thesis by simp
qed (use assms(1) in simp)

interpretation readProperty: client_call "ReadProperty env1 env2 dev oid pid os" for env1 env2 dev oid pid os
proof
  fix c assume "client_ok c"
  then show "\<exists>r c'. ReadProperty env1 env2 dev oid pid os c = ret (r, c') \<and> client_ok c'"
    unfolding ReadProperty_def Let_def
    by (intro withDevice_safe send.seq decode_step_safe) (assumption | rule decodeReadPropertyResponse_total)+
qed

interpretation writeProperty: client_call "WriteProperty env1 env2 dev oid pid v os" for env1 env2 dev oid pid v os
proof
  fix c assume ok: "client_ok c"
  have req: "\<exists>x e. (do { (r, c) \<leftarrow> sendRequest env2 addr ServiceWriteProperty data d;
      ret (case r of Inl err \<Rightarrow> Some err | Inr _ \<Rightarrow> None, c) }) = ret (x, e) \<and> client_ok e"
    if "client_ok d" for addr data d
    by (rule send.seq [OF that]) (auto split: sum.splits)
  show "\<exists>r c'. WriteProperty env1 env2 dev oid pid v os c = ret (r, c') \<and> client_ok c'"
    unfolding WriteProperty_def Let_def
    by (rule withDevice_safe [OF ok]) (auto simp: req split: sum.splits)
qed

interpretation readPropertyMultiple: client_call "ReadPropertyMultiple env1 env2 order dev reqs" for env1 env2 order dev reqs
proof
  fix c assume "client_ok c"
  then show "\<exists>r c'. ReadPropertyMultiple env1 env2 order dev reqs c = ret (r, c') \<and> client_ok c'"
    unfolding ReadPropertyMultiple_def
    by (intro withDevice_safe send.seq decode_step_safe)
       (assumption | rule decodeReadPropertyMultipleResponse_total)+
qed

lemma nextInvokeID_ok: "client_ok (snd (nextInvokeID c)) = client_ok c"
  by (simp add: nextInvokeID_def Let_def)

interpretation subscribeCOV: client_call "SubscribeCOV env1 env2 dev oid hd os" for env1 env2 dev oid hd os
proof
  fix c assume ok: "client_ok c"
  have req: "\<exists>x e. (do { (r, c) \<leftarrow> sendRequest env2 addr ServiceSubscribeCOV data d;
      (case r of Inl err \<Rightarrow> ret (Err err, c)
       | Inr _ \<Rightarrow> ret (Ok sid, incMetric COVSubscriptions_update (c\<lparr>covSubs := (covSubs c)(sid \<mapsto> hd)\<rparr>))) }) = ret (x, e) \<and> client_ok e"
    if "client_ok d" for addr data d sid
    by (rule send.seq [OF that]) (auto split: sum.splits)
  show "\<exists>r c'. SubscribeCOV env1 env2 dev oid hd os c = ret (r, c') \<and> client_ok c'"
    unfolding SubscribeCOV_def Let_def
    by (rule withDevice_safe [OF ok]) (use nextInvokeID_ok req in \<open>auto simp: case_prod_unfold\<close>)
qed

interpretation unsubscribeCOV: client_call "UnsubscribeCOV env1 env2 dev oid sid" for env1 env2 dev oid sid
proof
  fix c assume "client_ok c"
  then show "\<exists>r c'. UnsubscribeCOV env1 env2 dev oid sid c = ret (r, c') \<and> client_ok c'"
    unfolding UnsubscribeCOV_def
    by (intro withDevice_safe send.seq) (auto split: sum.splits)
qed

lemma Connect_keeps:
  assumes "client_ok c" and "Connect env c = (err, warn, c')"
  shows "client_ok c' \<and> pending c' = pending c \<and> (state c' = StateConnected \<longleftrightarrow> err = None \<or> state c = StateConnected)"
  using assms by (auto simp: Connect_def Let_def split: if_splits option.splits prod.splits)

lemma Connect_raises_state: "Connect env c = (e, w, c') \<Longrightarrow> state c \<le> state c'"
  by (auto simp: Connect_def Let_def split: if_splits prod.splits option.splits)

section \<open>Packets between client and peer\<close>

lemma decodePacket_build:
  assumes "f \<noteq> BVLCForwardedNPDU" and "DecodeAPDU apdu = ret (Ok a)" and "plain_control p"
  shows "\<exists>n. decodePacket (buildPacket f (EncodeNPDU e p) apdu) = ret (Some (a, n)) \<and>
           Control n = (if e then p OR NPDUControlExpectingReply else p)"
proof -
  define rest where "rest = EncodeNPDU e p @ apdu"
  define data where "data = EncodeBVLC f (len (EncodeNPDU e p) + len apdu) @ rest"
  obtain h where h: "DecodeBVLC data = ret (Ok h)" "BVLC_Function h = f"
    by (simp add: data_def DecodeBVLC_def EncodeBVLC_def Let_def slice_def PutUint16_def BigEndian_Uint16_def)
  have s: "slice_from data 4 = ret rest" by (simp add: data_def slice_from_append)
  obtain n where n: "DecodeNPDU rest = ret (Ok (n, 2))" "Control n = (if e then p OR NPDUControlExpectingReply else p)"
    using DecodeNPDU_Encode [OF assms(3), of e apdu] by (auto simp: rest_def)
  have s2: "slice_from rest 2 = ret apdu" by (simp add: rest_def slice_from_append)
  have ctl: "Control n AND NPDUControlNetworkLayerMessage = 0"
    using assms(3) and_or_expecting [of NPDUControlNetworkLayerMessage p] by (simp add: n(2) plain_control_def)
  have "decodePacket data = ret (Some (a, n))"
    using assms(1,2) h s n(1) s2 ctl by (simp add: decodePacket_def)
  then show ?thesis using n(2) by (simp add: data_def rest_def buildPacket_def)
qed

text \<open>The acknowledgement of a peer: a ComplexAck APDU in an original unicast packet.\<close>

definition ackPacket :: "uint8 \<Rightarrow> uint8 \<Rightarrow> bytes \<Rightarrow> bytes" where
  "ackPacket iid svc payload =
     buildPacket BVLCOriginalUnicastNPDU (EncodeNPDU False NPDUControlPriorityNormal) ([PDUTypeComplexAck, iid, svc] @ payload)"

definition ackAPDU :: "uint8 \<Rightarrow> uint8 \<Rightarrow> bytes \<Rightarrow> APDU" where
  "ackAPDU iid svc payload =
     APDU_zero\<lparr>APDU_Type := PDUTypeComplexAck, InvokeID := iid, Service := svc, APDU_Data := payload\<rparr>"

lemma decodePacket_ack: "\<exists>n. decodePacket (ackPacket iid svc payload) = ret (Some (ackAPDU iid svc payload, n))"
proof -
  have "DecodeAPDU ([PDUTypeComplexAck, iid, svc] @ payload) = ret (Ok (ackAPDU iid svc payload))"
    by (simp add: DecodeAPDU_def decodeComplexAck_def slice_from_Some ackAPDU_def APDU_zero_def)
  from decodePacket_build [OF _ this, of BVLCOriginalUnicastNPDU NPDUControlPriorityNormal False] show ?thesis
    by (auto simp: ackPacket_def plain_control_def)
qed

lemma receive_ack:
  assumes "pending c iid = Some ch" and "chans c ch = Some \<lparr>buffered = None, chan_closed = False\<rparr>"
  shows "chans (receivePacket tm (ackPacket iid svc payload) addr c) ch =
         Some \<lparr>buffered = Some (ackAPDU iid svc payload), chan_closed = False\<rparr>"
proof -
  obtain n where n: "decodePacket (ackPacket iid svc payload) = ret (Some (ackAPDU iid svc payload, n))"
    using decodePacket_ack by blast
  have a: "APDU_Type (ackAPDU iid svc payload) = PDUTypeComplexAck" "InvokeID (ackAPDU iid svc payload) = iid"
    by (simp_all add: ackAPDU_def)
  show ?thesis
    using assms
    by (simp add: receivePacket_def Let_def handlePacket_def n dispatchAPDU_def a handleResponse_def chan_send_def)
qed

lemma sendRequest_acked:
  assumes ok: "client_ok c" and st: "state c = StateConnected" and arr: "arrivals env = [(ackPacket (next_iid c) svc' payload, from)]"
    and sent: "transport_Send (net env) (deadline env) (now env) addr (requestPacket (next_iid c) svc data) (transport c) = None"
    and ctx: "\<not> ctxFirst env" and live: "\<not> closes env"
  shows "\<exists>c'. sendRequest env addr svc data c = ret (Ok (ackAPDU (next_iid c) svc' payload), c') \<and> request_done c c'"
proof -
  obtain r c' where r: "sendRequest env addr svc data c = ret (r, c')" "request_done c c'"
    using sendRequest_keeps [OF ok] live by blast
  obtain iid ch c1 where b: "beginRequest c = (iid, ch, c1)" by (cases "beginRequest c") auto
  note b1 = beginRequest_ok [OF ok b]
  define c2 where "c2 = countSent (requestPacket iid svc data) (countRequest c1)"
  define c3 where "c3 = receivePacket (later env) (ackPacket iid svc' payload) from c2"
  have iid: "iid = next_iid c" using b1 by (simp add: next_iid_def)
  have "client_ok c1" using b1 by blast
  then have c2: "client_ok c2" "pending c2 iid = Some ch" "chans c2 ch = Some \<lparr>buffered = None, chan_closed = False\<rparr>"
    using b1 by (simp_all add: c2_def)
  have "client_ok c3" unfolding c3_def by (rule receivePacket_keeps [OF c2(1)])
  moreover have ch3: "chans c3 ch = Some \<lparr>buffered = Some (ackAPDU iid svc' payload), chan_closed = False\<rparr>"
    unfolding c3_def by (rule receive_ack [OF c2(2,3)])
  ultimately obtain h where
    "LatencyHistogram_Record (word_of_int (later env - now env)) (RequestLatency (metrics c3)) = ret h"
    using Record_total by (fastforce simp: client_ok_def)
  then have "\<exists>d. awaitResponse env ch c3 = ret (Ok (ackAPDU iid svc' payload), d)"
    using ch3 ctx by (simp add: awaitResponse_def responseResult_def ackAPDU_def)
  moreover have "sendRequest env addr svc data c = do { (r, d) \<leftarrow> awaitResponse env ch c3; ret (r, endRequest iid d) }"
    using sent arr by (simp add: sendRequest_connected [OF st b] iid c3_def c2_def receiveAll_def meanwhile_open [OF live])
  ultimately have "r = Ok (ackAPDU (next_iid c) svc' payload)" using r(1) iid by auto
  with r show ?thesis by blast
qed

text \<open>How a request ends without a response: the send fails, or nothing arrives while it waits.\<close>

lemma sendRequest_send_fails:
  assumes "state c = StateConnected"
    and "transport_Send (net env) (deadline env) (now env) addr (requestPacket (next_iid c) svc data) (transport c) = Some e"
  shows "\<exists>c'. sendRequest env addr svc data c = ret (Err (wrap_error ''send request'' e), c')"
proof -
  obtain iid ch c1 where b: "beginRequest c = (iid, ch, c1)" by (cases "beginRequest c") auto
  then have "iid = next_iid c" by (auto simp: beginRequest_def nextInvokeID_def next_iid_def Let_def)
  with assms(2) sendRequest_connected [OF assms(1) b, of env addr svc data] show ?thesis by simp
qed

lemma sendRequest_unanswered:
  assumes ok: "client_ok c" and st: "state c = StateConnected" and arr: "arrivals env = []"
    and sent: "transport_Send (net env) (deadline env) (now env) addr (requestPacket (next_iid c) svc data) (transport c) = None"
  shows "\<exists>c'. sendRequest env addr svc data c = ret (Err (if closes env \<and> \<not> ctxFirst env then ErrConnectionClosed else ErrTimeout), c')"
proof -
  obtain iid ch c1 where b: "beginRequest c = (iid, ch, c1)" by (cases "beginRequest c") auto
  note b1 = beginRequest_ok [OF ok b]
  define c2 where "c2 = countSent (requestPacket iid svc data) (countRequest c1)"
  have iid: "iid = next_iid c" using b1 by (simp add: next_iid_def)
  have c2: "client_ok c2" "state c2 = StateConnected" "pending c2 iid = Some ch" "chans c2 ch = Some \<lparr>buffered = None, chan_closed = False\<rparr>"
    using b1 st by (auto simp: c2_def)
  define c3 where "c3 = meanwhile env c2"
  have "chans (closePending c2) ch = Some \<lparr>buffered = None, chan_closed = True\<rparr>"
    using c2(3,4) by (auto simp: closePending_def ran_def)
  then have ch3: "chans c3 ch = Some \<lparr>buffered = None, chan_closed = closes env\<rparr>"
    using arr c2 Close_connected [of c2 env] by (simp add: c3_def meanwhile_def Let_def receiveAll_def)
  have "client_ok c3" unfolding c3_def by (rule meanwhile_keeps [OF c2(1)])
  then obtain h where "LatencyHistogram_Record (word_of_int (later env - now env)) (RequestLatency (metrics c3)) = ret h"
    using Record_total by (fastforce simp: client_ok_def)
  then have "\<exists>d. awaitResponse env ch c3 = ret (Err (if closes env \<and> \<not> ctxFirst env then ErrConnectionClosed else ErrTimeout), d)"
    using ch3 by (auto simp: awaitResponse_def Let_def)
  then show ?thesis using sent by (auto simp: sendRequest_connected [OF st b] iid c3_def c2_def)
qed

section \<open>Properties\<close>

text \<open>
  C6: No packet can crash the client or disturb its requests: from any state that satisfies the
  invariant, \<open>handlePacket\<close> returns for every byte sequence and sender and keeps the invariant (every
  pending identifier has its own open channel, holding at most a response with that identifier);
  a whole sequence of received packets leaves the pending requests registered and recovers no panic.
\<close>

theorem received_packets_never_panic:
  assumes "client_ok c"
  shows "(\<exists>c'. handlePacket data addr c = ret c' \<and> client_ok c') \<and> client_ok (receiveAll env c) \<and>
         pending (receiveAll env c) = pending c \<and> state (receiveAll env c) = state c \<and>
         PanicsRecovered (metrics (receiveAll env c)) = PanicsRecovered (metrics c)"
  using handlePacket_keeps [OF assms, of data addr] receiveAll_keeps [OF assms, of env]
  by (auto simp: same_control_def)

theorem received_packets_never_panic_witness:
  "\<exists>c'. handlePacket [0x81, 10, 0, 9, 1, 0, 0x20, 5, 12] \<lparr>IP = [10, 0, 0, 2], Port = 47808\<rparr> (NewClient 0 []) = ret c' \<and>
     client_ok c'"
  using received_packets_never_panic [OF client_ok_NewClient] by blast

text \<open>
  C12: A confirmed request keeps its books however its wait ends. For a connected client and surroundings in which the
  wait ends (by a response, by a \<open>Close\<close> of another goroutine that closes the channel, or by the end of the
  context, which is what happens when neither of the other two does) \<open>sendRequest\<close> returns without a panic; an
  acknowledgement it returns carries the invoke identifier the request was sent with; the identifier is free again
  and the other pending requests are untouched, except that a \<open>Close\<close> meanwhile empties the table; and the gauge of
  active requests is what it was before. A failed send is reported as such, and with no packet arriving the result
  is \<open>ErrConnectionClosed\<close> if the client was closed and the context did not win, and \<open>ErrTimeout\<close> otherwise.
\<close>

theorem sendRequest_accounts:
  assumes "client_ok c" and "state c = StateConnected"
    and "sent = transport_Send (net env) (deadline env) (now env) addr (requestPacket (fst (nextInvokeID c)) svc data) (transport c)"
  shows "\<exists>r c'. sendRequest env addr svc data c = ret (r, c') \<and> client_ok c' \<and>
           (\<forall>a. r = Ok a \<longrightarrow> InvokeID a = fst (nextInvokeID c)) \<and>
           pending c' = (if closes env \<and> sent = None then Map.empty else (pending c)(fst (nextInvokeID c) := None)) \<and>
           ActiveRequests (metrics c') = ActiveRequests (metrics c) \<and>
           (\<forall>e. sent = Some e \<longrightarrow> r = Err (wrap_error ''send request'' e)) \<and>
           (sent = None \<longrightarrow> arrivals env = [] \<longrightarrow> r = Err (if closes env \<and> \<not> ctxFirst env then ErrConnectionClosed else ErrTimeout))"
proof -
  have iid: "fst (nextInvokeID c) = next_iid c" by (simp add: nextInvokeID_def next_iid_def Let_def)
  obtain r c' where r: "sendRequest env addr svc data c = ret (r, c')" "client_ok c'" "\<forall>a. r = Ok a \<longrightarrow> InvokeID a = next_iid c"
    "ActiveRequests (metrics c') = ActiveRequests (metrics c)"
    "pending c' = (if closes env \<and> sent = None then Map.empty else (pending c)(next_iid c := None))"
    using sendRequest_keeps [OF assms(1), of env addr svc data] assms(2,3) iid by auto
  have "r = Err (wrap_error ''send request'' e)" if "sent = Some e" for e
    using r(1) sendRequest_send_fails [OF assms(2), of env addr svc data e] that assms(3) iid by auto
  moreover have "r = Err (if closes env \<and> \<not> ctxFirst env then ErrConnectionClosed else ErrTimeout)" if "sent = None" "arrivals env = []"
    using r(1) sendRequest_unanswered [OF assms(1,2) that(2), of addr svc data] that(1) assms(3) iid by auto
  ultimately show ?thesis using r iid by auto
qed

theorem sendRequest_accounts_witness:
  "\<exists>c c'. sendRequest \<lparr>net = good_net, deadline = None, now = 0, later = 5, arrivals = [], closes = True, ctxFirst = False\<rparr>
       \<lparr>IP = [10, 0, 0, 2], Port = 47808\<rparr> 12 [] c = ret (Err ErrConnectionClosed, c') \<and> client_ok c' \<and> pending c' = Map.empty"
proof -
  let ?env = "\<lparr>net = good_net, deadline = None, now = 0, later = 5, arrivals = [], closes = True, ctxFirst = False\<rparr>"
  obtain e w c where c: "Connect ?env (NewClient 0 []) = (e, w, c)" by (metis prod_cases3)
  have ok: "client_ok c" using Connect_keeps [OF client_ok_NewClient c] by simp
  have st: "state c = StateConnected" "conn (transport c) = Some 7"
    using c by (auto simp: Connect_def NewClient_def Let_def transport_Open_def good_net_def NewUDPTransport_def
        SetReadTimeout_def SetWriteTimeout_def defaultOptions_def)
  have "transport_Send good_net None 0 a p (transport c) = None" for a p
    using st(2) by (simp add: transport_Send_None_iff good_net_def)
  with sendRequest_accounts [OF ok st(1) refl, of ?env "\<lparr>IP = [10, 0, 0, 2], Port = 47808\<rparr>" 12 "[]"] show ?thesis by auto
qed

text \<open>
  The response reaches the request: when a connected client sends a request and the packet that
  arrives is the peer's acknowledgement for the identifier of the request, \<open>sendRequest\<close> returns that
  acknowledgement with the payload as sent.
\<close>

theorem sendRequest_returns_response:
  assumes "client_ok c" and "state c = StateConnected"
    and "arrivals env = [(ackPacket (fst (nextInvokeID c)) svc' payload, from)]" and "\<not> ctxFirst env" and "\<not> closes env"
    and "transport_Send (net env) (deadline env) (now env) addr
           (requestPacket (fst (nextInvokeID c)) svc data) (transport c) = None"
  shows "\<exists>a c'. sendRequest env addr svc data c = ret (Ok a, c') \<and> APDU_Data a = payload \<and> client_ok c'"
proof -
  have iid: "fst (nextInvokeID c) = next_iid c" by (simp add: nextInvokeID_def next_iid_def Let_def)
  from sendRequest_acked [OF assms(1,2) assms(3,6) [unfolded iid] assms(4,5)]
  show ?thesis by (auto simp: ackAPDU_def request_done_def)
qed

theorem sendRequest_returns_response_witness:
  "\<exists>a c'. sendRequest \<lparr>net = good_net, deadline = None, now = 0, later = 5,
       arrivals = [(ackPacket 1 12 [1, 2, 3], \<lparr>IP = [10, 0, 0, 2], Port = 47808\<rparr>)], closes = False, ctxFirst = False\<rparr>
       \<lparr>IP = [10, 0, 0, 2], Port = 47808\<rparr> 12 [] (snd (snd (Connect
         \<lparr>net = good_net, deadline = None, now = 0, later = 0, arrivals = [], closes = False, ctxFirst = False\<rparr> (NewClient 0 [])))) = ret (Ok a, c') \<and>
     APDU_Data a = [1, 2, 3] \<and> client_ok c'"
proof -
  define c where "c = snd (snd (Connect \<lparr>net = good_net, deadline = None, now = 0, later = 0, arrivals = [], closes = False,
      ctxFirst = False\<rparr> (NewClient 0 [])))"
  have ok: "client_ok c"
    using Connect_keeps [OF client_ok_NewClient, of _ 0 "[]"] unfolding c_def by (metis prod.collapse)
  have c: "state c = StateConnected" "invokeID c = 0" "conn (transport c) = Some 7"
    by (simp_all add: c_def Connect_def NewClient_def Let_def transport_Open_def good_net_def NewUDPTransport_def
        SetReadTimeout_def SetWriteTimeout_def defaultOptions_def)
  have "fst (nextInvokeID c) = 1" by (simp add: nextInvokeID_def Let_def c)
  moreover have "transport_Send good_net d n a p (transport c) = None" for d n a p
    using c(3) by (simp add: transport_Send_None_iff good_net_def)
  ultimately show ?thesis
    unfolding c_def [symmetric]
    by (intro sendRequest_returns_response [OF ok c(1)]) simp_all
qed

text \<open>
  C4: No service call panics, whatever the peer sends: from a state that satisfies the invariant,
  \<open>ReadProperty\<close>, \<open>WriteProperty\<close>, \<open>ReadPropertyMultiple\<close>, \<open>SubscribeCOV\<close> and \<open>UnsubscribeCOV\<close> return
  a result or an error, with any network behaviour and any packets arriving during the discovery
  and the request, and leave a state that satisfies the invariant.
\<close>

theorem service_calls_never_panic:
  assumes "client_ok c"
  shows "(\<exists>r c'. ReadProperty env1 env2 dev oid pid ropts c = ret (r, c') \<and> client_ok c') \<and>
         (\<exists>r c'. WriteProperty env1 env2 dev oid pid v wopts c = ret (r, c') \<and> client_ok c') \<and>
         (\<exists>r c'. ReadPropertyMultiple env1 env2 order dev reqs c = ret (r, c') \<and> client_ok c') \<and>
         (\<exists>r c'. SubscribeCOV env1 env2 dev oid handler sopts c = ret (r, c') \<and> client_ok c') \<and>
         (\<exists>r c'. UnsubscribeCOV env1 env2 dev oid sid c = ret (r, c') \<and> client_ok c')"
  by (intro conjI readProperty.safe [OF assms] writeProperty.safe [OF assms]
      readPropertyMultiple.safe [OF assms] subscribeCOV.safe [OF assms] unsubscribeCOV.safe [OF assms])

theorem service_calls_never_panic_witness:
  "\<exists>r c'. ReadProperty \<lparr>net = good_net, deadline = None, now = 0, later = 0, arrivals = [([0x81], \<lparr>IP = [], Port = 0\<rparr>)], closes = False, ctxFirst = True\<rparr>
     \<lparr>net = good_net, deadline = None, now = 0, later = 0, arrivals = [], closes = False, ctxFirst = True\<rparr> 7
     \<lparr>OID_Type = 0, OID_Instance = 1\<rparr> 85 [] (NewClient 0 []) = ret (r, c') \<and> client_ok c'"
  using service_calls_never_panic [OF client_ok_NewClient] by blast

lemma receiver_keeps:
  "client_ok c \<Longrightarrow> client_ok (snd (receiver its c)) \<and> same_control c (snd (receiver its c))"
proof (induction its arbitrary: c)
  case (Cons it rest)
  obtain ctxDone nt now where it: "it = (ctxDone, nt, now)" by (cases it)
  have "client_ok (snd (receiver rest d)) \<and> same_control c (snd (receiver rest d))"
    if "d = receivePacket now x a c" for d x a
    using Cons.IH [of d] receivePacket_keeps [OF Cons.prems] same_control_trans that by blast
  then show ?case using Cons.IH [OF Cons.prems] Cons.prems by (auto simp: it split: sum.split)
qed simp

text \<open>
  C21: The receiver goroutine outlives everything the network does: while the transport is open, however
  the reads go (packets of any content, timeouts, other errors), the loop returns exactly when an
  iteration finds the context done; it keeps the invariant of the client, leaves the pending
  requests alone and recovers no panic.
\<close>

theorem receiver_outlives_errors:
  assumes "client_ok c" and "\<not> transport_IsClosed (transport c)"
  shows "fst (receiver its c) = list_ex fst its \<and> client_ok (snd (receiver its c)) \<and>
         pending (snd (receiver its c)) = pending c \<and>
         PanicsRecovered (metrics (snd (receiver its c))) = PanicsRecovered (metrics c)"
proof -
  have "fst (receiver its c) = list_ex fst its" using assms
  proof (induction its c rule: receiver.induct)
    case (2 ctxDone nt now rest c)
    have r: "client_ok (receivePacket now d a c)" "transport (receivePacket now d a c) = transport c" for d a
      using receivePacket_keeps [OF "2.prems"(1)] by (auto simp: same_control_def)
    show ?case using 2 r by (auto split: sum.split)
  qed simp
  with receiver_keeps [OF assms(1), of its] show ?thesis by (simp add: same_control_def)
qed

theorem receiver_outlives_errors_witness:
  "fst (receiver [(False, good_net, 0), (False, good_net\<lparr>net_ReadFromUDP := (\<lambda>_. Err (NetErr ''i/o timeout'' True))\<rparr>, 100),
       (True, good_net, 200)] (NewClient 0 []))"
proof -
  have "\<not> transport_IsClosed (transport (NewClient 0 []))"
    by (simp add: NewClient_def Let_def transport_IsClosed_def NewUDPTransport_def SetReadTimeout_def SetWriteTimeout_def)
  from receiver_outlives_errors [OF client_ok_NewClient this] show ?thesis by (simp del: receiver.simps)
qed

end
