(* ===== verification/Client_Devices.thy ===== *)
theory Client_Devices
  imports Client_Invariant
begin

text \<open>
  The device cache of the client: registration and lookup, I-Am announcements, and the resolution of
  a device number to a UDP address; then the invoke identifiers and the enumeration of a device's
  objects.
\<close>

section \<open>The cache\<close>

text \<open>The contract of a device cache: a lookup finds what was last stored under the instance number.\<close>

locale device_cache =
  fixes put :: "DeviceInfo \<Rightarrow> 's \<Rightarrow> 's" and get :: "uint32 \<Rightarrow> 's \<Rightarrow> DeviceInfo option"
  assumes get_put: "get i (put d s) = (if i = OID_Instance (ObjectID d) then Some d else get i s)"
begin

lemma get_fold:
  "get i (fold put ds s) = (case find (\<lambda>d. OID_Instance (ObjectID d) = i) (rev ds) of Some d \<Rightarrow> Some d | None \<Rightarrow> get i s)"
proof (induction ds rule: rev_induct)
  case (snoc d ds)
  then show ?case by (simp add: get_put)
qed simp

lemma put_twice: "get i (put d (put d s)) = get i (put d s)"
  by (simp add: get_put)

end

interpretation deviceCache: device_cache RegisterDevice GetDevice
  by unfold_locales (simp add: RegisterDevice_def GetDevice_def)

lemma resolveDevice_known:
  "GetDevice d c = Some dev \<Longrightarrow> resolveDevice env d c = do { a \<leftarrow> deviceUDPAddr dev; ret (a, c) }"
  by (simp add: resolveDevice_def GetDevice_def)

lemma IP_To4_len: "IP_To4 ip = Some ip4 \<Longrightarrow> len ip4 = 4"
  by (auto simp: IP_To4_def len_def split: if_splits)

lemma deviceUDPAddr_4: "len a = 4 \<Longrightarrow> Addr (DevAddress dev) = a \<Longrightarrow> deviceUDPAddr dev = ret (Ok \<lparr>IP = a, Port = DefaultPort\<rparr>)"
  by (simp add: deviceUDPAddr_def)

lemma deviceUDPAddr_6:
  assumes "len a = 4" and "0 \<le> port" and "port < 65536" and "Addr (DevAddress dev) = a @ [int_byte_at 8 port, int_byte_at 0 port]"
  shows "deviceUDPAddr dev = ret (Ok \<lparr>IP = a, Port = port\<rparr>)"
proof -
  have "slice_to (a @ [int_byte_at 8 port, int_byte_at 0 port]) 4 = ret a"
    using assms(1) by (simp add: slice_to_Some len_def)
  moreover have "slice_from (a @ [int_byte_at 8 port, int_byte_at 0 port]) 4 = ret [int_byte_at 8 port, int_byte_at 0 port]"
    using assms(1) by (simp add: slice_from_append)
  moreover have "uint (be16 (int_byte_at 8 port) (int_byte_at 0 port)) = port"
    using assms(2,3) by (simp add: be_int_bytes16)
  ultimately show ?thesis
    using assms(1,4) by (simp add: deviceUDPAddr_def BigEndian_Uint16_def)
qed

section \<open>I-Am\<close>

text \<open>The parameters of an I-Am as a device sends them.\<close>

definition iAm_parameters :: "ObjectIdentifier \<Rightarrow> uint32 \<Rightarrow> uint32 \<Rightarrow> uint32 \<Rightarrow> bytes" where
  "iAm_parameters oid maxAPDU seg vendor =
     EncodeObjectIdentifierTag oid @ EncodeUnsignedTag maxAPDU @ EncodeEnumeratedTag seg @ EncodeUnsignedTag vendor"

lemma decodeIAm_parameters:
  assumes "oid_wire oid" and "OID_Type oid = ObjectTypeDevice"
  shows "decodeIAm (iAm_parameters oid m s v) = ret (Some (oid, m, s, v))"
proof -
  define A where "A = EncodeObjectIdentifierTag oid"
  define B where "B = EncodeUnsignedTag m"
  define C where "C = EncodeEnumeratedTag s"
  define D where "D = EncodeUnsignedTag v"
  define data where "data = A @ B @ C @ D"
  have lA: "len A = 5" by (simp add: A_def EncodeObjectIdentifierTag_def wire_len)
  have tag: "DecodeTagNumber data = ret (Ok (TagObjectID, TagClassApplication, 4, 1))"
    using DecodeTagNumber_EncodeTag [of 12 0 4 "EncodeObjectIdentifier oid @ B @ C @ D"]
    by (simp add: data_def A_def EncodeObjectIdentifierTag_def wire_len)
  have p: "slice data 1 5 = ret (EncodeObjectIdentifier oid)"
    using slice_append [of 1 "EncodeTag 12 0 4" 5 "EncodeObjectIdentifier oid" "B @ C @ D"]
    by (simp add: data_def A_def EncodeObjectIdentifierTag_def wire_len)
  have r1: "readUnsignedTag data (len A) = ret (Ok (m, len (A @ B)))"
    using readUnsignedTag_at [of 2 0 A m "C @ D"] by (simp add: data_def B_def EncodeUnsignedTag_def Let_def)
  have r2: "readUnsignedTag data (len (A @ B)) = ret (Ok (s, len (A @ B @ C)))"
    using readUnsignedTag_at [of 9 0 "A @ B" s D]
    by (simp add: data_def C_def EncodeEnumeratedTag_def EncodeEnumerated_def Let_def)
  have r3: "readUnsignedTag data (len (A @ B @ C)) = ret (Ok (v, len data))"
    using readUnsignedTag_at [of 2 0 "A @ B @ C" v "[]"] by (simp add: data_def D_def EncodeUnsignedTag_def Let_def)
  have l: "\<not> len data < 5" using lA len_nonneg [of "B @ C @ D"] by (simp add: data_def not_less add_nonneg_nonneg)
  have "decodeIAm data = ret (Some (oid, m, s, v))"
    using tag p r1 r2 r3 assms l lA
    by (simp add: decodeIAm_def Let_def DecodeObjectIdentifier_Encode)
  then show ?thesis by (simp add: iAm_parameters_def data_def A_def B_def C_def D_def)
qed

text \<open>The packets that carry it: broadcast by the device, or forwarded by a BBMD with the original sender in front.\<close>

definition iAm_packet :: "bytes \<Rightarrow> bytes" where
  "iAm_packet ps = buildPacket BVLCOriginalBroadcastNPDU (EncodeNPDU False NPDUControlPriorityNormal)
     (EncodeUnconfirmedRequest ServiceIAm ps)"

definition forwarded_iAm_packet :: "bytes \<Rightarrow> bytes \<Rightarrow> bytes" where
  "forwarded_iAm_packet orig ps =
     (let npdu = EncodeNPDU False NPDUControlPriorityNormal; apdu = EncodeUnconfirmedRequest ServiceIAm ps
      in EncodeBVLC BVLCForwardedNPDU (len orig + len npdu + len apdu) @ orig @ npdu @ apdu)"

abbreviation (input) iAm_APDU :: "bytes \<Rightarrow> APDU" where
  "iAm_APDU ps \<equiv> APDU_zero\<lparr>APDU_Type := PDUTypeUnconfirmedRequest, Service := ServiceIAm, APDU_Data := ps\<rparr>"

lemma decodePacket_iAm:
  "\<exists>n. decodePacket (iAm_packet ps) = ret (Some (iAm_APDU ps, n)) \<and> Control n = 0"
  using decodePacket_build [OF _ DecodeAPDU_Unconfirmed, of BVLCOriginalBroadcastNPDU NPDUControlPriorityNormal False ServiceIAm ps]
  by (simp add: iAm_packet_def plain_control_def)

lemma decodePacket_forwarded:
  assumes "len orig = 6"
  shows "\<exists>n. decodePacket (forwarded_iAm_packet orig ps) = ret (Some (iAm_APDU ps, n)) \<and> Control n = 0"
proof -
  define apdu where "apdu = EncodeUnconfirmedRequest ServiceIAm ps"
  define rest where "rest = EncodeNPDU False NPDUControlPriorityNormal @ apdu"
  define data where "data = EncodeBVLC BVLCForwardedNPDU (len orig + len (EncodeNPDU False NPDUControlPriorityNormal) + len apdu) @ orig @ rest"
  obtain h where h: "DecodeBVLC data = ret (Ok h)" "BVLC_Function h = BVLCForwardedNPDU"
    by (simp add: data_def DecodeBVLC_def EncodeBVLC_def Let_def slice_def PutUint16_def BigEndian_Uint16_def)
  have s: "slice_from data 4 = ret (orig @ rest)" "slice_from (orig @ rest) 6 = ret rest" "slice_from rest 2 = ret apdu"
    using assms by (simp_all add: data_def rest_def slice_from_append)
  obtain n where n: "DecodeNPDU rest = ret (Ok (n, 2))" "Control n = 0"
    using DecodeNPDU_Encode [of NPDUControlPriorityNormal False apdu] by (auto simp: rest_def plain_control_def)
  have "decodePacket data = ret (Some (iAm_APDU ps, n))"
    using assms h s n DecodeAPDU_Unconfirmed [of ServiceIAm ps]
    by (simp add: decodePacket_def apdu_def [symmetric])
  then show ?thesis using n(2) by (simp add: data_def rest_def apdu_def forwarded_iAm_packet_def Let_def)
qed

lemma handleIAm_stores:
  assumes "oid_wire oid" and "OID_Type oid = ObjectTypeDevice" and "Control n = 0"
  shows "\<exists>c'. handleIAm (iAm_parameters oid m s v) addr n c = ret c' \<and>
           devices c' = (devices c)(OID_Instance oid \<mapsto>
             DeviceInfo_lit oid \<lparr>Net = 0, Addr = (case IP_To4 (IP addr) of Some a \<Rightarrow> a | None \<Rightarrow> [])\<rparr> (ucast m) (ucast s) (ucast v))"
  using assms by (simp add: handleIAm_def Let_def decodeIAm_parameters)

lemma handlePacket_iAm:
  assumes "decodePacket data = ret (Some (iAm_APDU (iAm_parameters oid m s v), n))" and "Control n = 0"
    and "oid_wire oid" and "OID_Type oid = ObjectTypeDevice" and "IP_To4 (IP addr) = Some ip4"
  shows "\<exists>c'. handlePacket data addr c = ret c' \<and>
           GetDevice (OID_Instance oid) c' = Some (DeviceInfo_lit oid \<lparr>Net = 0, Addr = ip4\<rparr> (ucast m) (ucast s) (ucast v)) \<and>
           resolveDevice env (OID_Instance oid) c' = ret (Ok \<lparr>IP = ip4, Port = DefaultPort\<rparr>, c')"
proof -
  obtain c' where c': "handleIAm (iAm_parameters oid m s v) addr n (incMetric ResponsesReceived_update c) = ret c'"
    "devices c' (OID_Instance oid) = Some (DeviceInfo_lit oid \<lparr>Net = 0, Addr = ip4\<rparr> (ucast m) (ucast s) (ucast v))"
    using handleIAm_stores [OF assms(3,4,2), of m s v addr "incMetric ResponsesReceived_update c"] assms(5) by auto
  have h: "handlePacket data addr c = ret c'"
    using assms(1) c'(1) by (simp add: handlePacket_def dispatchAPDU_def handleUnconfirmedRequest_def)
  have "deviceUDPAddr (DeviceInfo_lit oid \<lparr>Net = 0, Addr = ip4\<rparr> (ucast m) (ucast s) (ucast v)) = ret (Ok \<lparr>IP = ip4, Port = DefaultPort\<rparr>)"
    by (rule deviceUDPAddr_4 [OF IP_To4_len [OF assms(5)]]) (simp add: DeviceInfo_lit_def)
  with h c'(2) show ?thesis by (simp add: GetDevice_def resolveDevice_def)
qed

section \<open>Invoke identifiers\<close>

definition invoke_id :: "Client \<Rightarrow> nat \<Rightarrow> uint8" where
  "invoke_id c k = fst (nextInvokeID (((\<lambda>c. snd (nextInvokeID c)) ^^ k) c))"

lemma nextInvokeID_iterate: "invokeID (((\<lambda>c. snd (nextInvokeID c)) ^^ k) c) = invokeID c + word_of_nat k"
  by (induction k) (simp_all add: nextInvokeID_def Let_def algebra_simps)

lemma ucast_and_FF: "ucast (w AND 0xFF) = (ucast w :: uint8)" for w :: uint32
proof -
  have "w AND 0xFF = take_bit 8 w" by (simp add: take_bit_eq_mask mask_eq_exp_minus_1)
  then show ?thesis by (simp only:) (rule bit_word_eqI, auto simp: bit_simps)
qed

lemma invoke_id_eq: "invoke_id c k = ucast (invokeID c + 1 + word_of_nat k)"
proof -
  define X where "X = ((\<lambda>c. snd (nextInvokeID c)) ^^ k) c"
  have "fst (nextInvokeID X) = ucast (invokeID X + 1)"
    by (simp add: nextInvokeID_def Let_def ucast_and_FF)
  then have "invoke_id c k = ucast (invokeID X + 1)" by (simp only: invoke_id_def X_def)
  then show ?thesis by (simp add: X_def nextInvokeID_iterate algebra_simps)
qed

lemma unat_ucast_uint8: "unat (ucast (w :: uint32) :: uint8) = unat w mod 256"
  by (simp add: unsigned_ucast_eq take_bit_eq_mod)

lemma invoke_id_unat: "unat (invoke_id c k) = (unat (invokeID c) + 1 + k) mod 256"
proof -
  have "unat (invokeID c + 1 + word_of_nat k) mod 256 = ((unat (invokeID c) + 1 + k) mod 2 ^ 32) mod 256"
    by (simp add: unat_word_ariths unat_of_nat mod_simps)
  also have "\<dots> = (unat (invokeID c) + 1 + k) mod 256"
    by (rule mod_mod_cancel) simp
  finally show ?thesis by (simp only: invoke_id_eq unat_ucast_uint8)
qed

lemma mod_shift: "(a + j) mod m = (a + k) mod m \<longleftrightarrow> j mod m = k mod m" for a j k m :: nat
proof -
  have "int ((a + j) mod m) = int ((a + k) mod m) \<longleftrightarrow> int (j mod m) = int (k mod m)"
    by (simp only: of_nat_mod of_nat_add mod_eq_dvd_iff add_diff_cancel_left)
  then show ?thesis by (simp only: of_nat_eq_iff)
qed

section \<open>Discovery\<close>

text \<open>
  The Who-Is for one device. A device that is not in the cache is found when this packet is broadcast and its I-Am
  is the packet that answers; when the broadcast fails, its error is the result.
\<close>

definition whoIs_packet :: "uint32 \<Rightarrow> bytes" where
  "whoIs_packet inst =
     buildPacket BVLCOriginalBroadcastNPDU (EncodeNPDU False NPDUControlPriorityNormal)
       (EncodeUnconfirmedRequest ServiceWhoIs (EncodeContextUnsigned 0 inst @ EncodeContextUnsigned 1 inst))"

lemma WhoIs_device:
  assumes "state c = StateConnected"
  shows "WhoIs env [WithDeviceRange d d, WithDiscoveryTimeout t] c =
    (case transport_Broadcast (net env) (deadline env) (now env) DefaultPort (whoIs_packet d) (transport c) of
       Some e \<Rightarrow> (Err (wrap_error ''send unconfirmed request'' e), incMetric RequestsFailed_update (incMetric RequestsSent_update c))
     | None \<Rightarrow> (let c' = meanwhile env (incMetric WhoIsSent_update (incMetric RequestsSucceeded_update
                  (countSent (whoIs_packet d) (incMetric RequestsSent_update c)))) in (Ok (devices c'), c')))"
proof -
  have "WhoIs_request (LowLimit (apply_options [WithDeviceRange d d, WithDiscoveryTimeout t] defaultDiscoverOptions))
      (HighLimit (apply_options [WithDeviceRange d d, WithDiscoveryTimeout t] defaultDiscoverOptions)) =
      EncodeContextUnsigned 0 d @ EncodeContextUnsigned 1 d"
    by (simp add: WhoIs_request_def WithDeviceRange_def WithDiscoveryTimeout_def)
  then show ?thesis
    using assms by (simp add: WhoIs_def sendUnconfirmedRequest_def whoIs_packet_def Let_def split: option.split)
qed

lemma resolveDevice_broadcast_fails:
  assumes "state c = StateConnected" and "GetDevice d c = None"
    and "transport_Broadcast (net env) (deadline env) (now env) DefaultPort (whoIs_packet d) (transport c) = Some e"
  shows "\<exists>c'. resolveDevice env d c = ret (Err (wrap_error ''send unconfirmed request'' e), c')"
  using assms(2,3) WhoIs_device [OF assms(1), of env d "2 * SecondNs"] by (simp add: resolveDevice_def GetDevice_def)

lemma resolveDevice_discovers:
  assumes ok: "client_ok c" and st: "state c = StateConnected" and unknown: "GetDevice (OID_Instance oid) c = None"
    and oid: "oid_wire oid" "OID_Type oid = ObjectTypeDevice" and ip: "IP_To4 (IP addr) = Some ip4"
    and arr: "arrivals env = [(iAm_packet (iAm_parameters oid m s v), addr)]" and live: "\<not> closes env"
    and sent: "transport_Broadcast (net env) (deadline env) (now env) DefaultPort (whoIs_packet (OID_Instance oid)) (transport c) = None"
  shows "\<exists>c'. resolveDevice env (OID_Instance oid) c = ret (Ok \<lparr>IP = ip4, Port = DefaultPort\<rparr>, c') \<and> client_ok c' \<and>
           state c' = StateConnected \<and> transport c' = transport c \<and> invokeID c' = invokeID c"
proof -
  let ?os = "[WithDeviceRange (OID_Instance oid) (OID_Instance oid), WithDiscoveryTimeout (2 * SecondNs)]"
  define c2 where "c2 = incMetric WhoIsSent_update (incMetric RequestsSucceeded_update
      (countSent (whoIs_packet (OID_Instance oid)) (incMetric RequestsSent_update c)))"
  have c2: "client_ok c2" "state c2 = state c" "transport c2 = transport c" "invokeID c2 = invokeID c"
    using ok by (simp_all add: c2_def)
  define c3 where "c3 = countReceived (later env) (iAm_packet (iAm_parameters oid m s v)) c2"
  obtain n where n: "decodePacket (iAm_packet (iAm_parameters oid m s v)) = ret (Some (iAm_APDU (iAm_parameters oid m s v), n))" "Control n = 0"
    using decodePacket_iAm by blast
  obtain c4 where c4: "handlePacket (iAm_packet (iAm_parameters oid m s v)) addr c3 = ret c4"
    "resolveDevice env (OID_Instance oid) c4 = ret (Ok \<lparr>IP = ip4, Port = DefaultPort\<rparr>, c4)"
    "GetDevice (OID_Instance oid) c4 \<noteq> None"
    using handlePacket_iAm [OF n oid ip, where c = c3 and env = env] by auto
  have r: "receiveAll env c2 = c4" using c4(1) by (simp add: receiveAll_def arr receivePacket_def c3_def)
  have w: "WhoIs env ?os c = (Ok (devices c4), c4)"
    using sent by (simp add: WhoIs_device [OF st] meanwhile_open [OF live] c2_def [symmetric] r Let_def)
  have "resolveDevice env (OID_Instance oid) c = ret (Ok \<lparr>IP = ip4, Port = DefaultPort\<rparr>, c4)"
    using c4(2,3) unknown unfolding GetDevice_def by (auto simp: resolveDevice_def w [simplified])
  moreover have "client_ok c4 \<and> same_control c2 c4" using receiveAll_keeps [OF c2(1), of env] r by simp
  ultimately show ?thesis using st c2 by (auto simp: same_control_def)
qed

section \<open>The enumeration of the objects of a device\<close>

text \<open>
  The objects of the elements that were read: an element that could not be read, or is no object
  identifier, is left out.
\<close>

fun objectOf :: "GoValue \<times> goerror option \<Rightarrow> ObjectIdentifier option" where
  "objectOf (VObjectID oid, None) = Some oid"
| "objectOf _ = None"

lemma GetObjectList_loop_collects:
  assumes "\<And>j. i \<le> j \<Longrightarrow> j \<le> unat n \<Longrightarrow> read (word_of_nat j) (cs (j - 1)) = ret (rs j, cs j)"
    and "unat n < 2 ^ 32 - 1" and "1 \<le> i" and "i \<le> unat n + 1" and "fuel = unat n + 2 - i"
  shows "GetObjectList_loop fuel read (word_of_nat i) n os (cs (i - 1)) =
    Some (ret (os @ List.map_filter objectOf (map rs [i..<unat n + 1]), cs (unat n)))"
  using assms(1,3-5)
proof (induction fuel arbitrary: i os)
  case (Suc fuel)
  have i: "unat (word_of_nat i :: uint32) = i" using Suc.prems(3) assms(2) by (simp add: unat_of_nat)
  show ?case
  proof (cases "i \<le> unat n")
    case True
    have le: "(word_of_nat i :: uint32) \<le> n" using True i by (simp add: word_le_nat_alt)
    obtain v err where r: "rs i = (v, err)" by (cases "rs i")
    have "read (word_of_nat i) (cs (i - 1)) = ret ((v, err), cs i)" using Suc.prems(1) [of i] True r by simp
    moreover have "[i..<unat n + 1] = i # [Suc i..<unat n + 1]" using True by (simp add: upt_conv_Cons)
    moreover have "GetObjectList_loop fuel read (word_of_nat (Suc i)) n os' (cs (Suc i - 1)) =
        Some (ret (os' @ List.map_filter objectOf (map rs [Suc i..<unat n + 1]), cs (unat n)))" for os'
      by (rule Suc.IH) (use Suc.prems True in auto)
    ultimately show ?thesis
      using le by (cases v; cases err) (simp_all add: r map_filter_simps add.commute)
  next
    case False
    then have "\<not> (word_of_nat i :: uint32) \<le> n" using i by (simp add: word_le_nat_alt)
    moreover have "i = unat n + 1" using False Suc.prems(3) by simp
    ultimately show ?thesis by (simp add: map_filter_simps)
  qed
qed simp

lemma GetObjectList_loop_more_fuel:
  "GetObjectList_loop fuel read i n os c = Some r \<Longrightarrow> fuel \<le> fuel' \<Longrightarrow> GetObjectList_loop fuel' read i n os c = Some r"
proof (induction fuel arbitrary: fuel' i os c)
  case (Suc fuel)
  then obtain k where "fuel' = Suc k" "fuel \<le> k" by (cases fuel') auto
  with Suc show ?case by (auto split: if_splits option.splits)
qed simp


lemma GetObjectList_loop_returns:
  assumes "unat lngth < 2 ^ 32 - 1" and "unat i \<le> unat lngth + 1" and "fuel = unat lngth + 2 - unat i"
  shows "GetObjectList_loop fuel read i lngth os c \<noteq> None"
  using assms(2,3)
proof (induction fuel arbitrary: i os c)
  case 0
  then show ?case by simp
next
  case (Suc fuel)
  show ?case
  proof (cases "i \<le> lngth")
    case True
    then have "unat i \<le> unat lngth" by (simp add: word_le_nat_alt)
    with assms(1) have s: "unat (i + 1) = unat i + 1" by (simp add: unat_word_ariths)
    have "GetObjectList_loop fuel read (i + 1) lngth os' c' \<noteq> None" for os' c'
      by (rule Suc.IH) (use Suc.prems s \<open>unat i \<le> unat lngth\<close> in simp_all)
    with True show ?thesis by (auto split: option.splits)
  qed simp
qed

lemma GetObjectList_loop_endless:
  assumes "\<And>i c. client_ok c \<Longrightarrow> \<exists>r c'. read i c = ret (r, c') \<and> client_ok c'" and "client_ok c"
  shows "GetObjectList_loop fuel read i 0xFFFFFFFF os c = None"
  using assms(2)
proof (induction fuel arbitrary: i os c)
  case (Suc fuel)
  have "unat i < 2 ^ LENGTH(32)" by (rule unsigned_less)
  then have "i \<le> 0xFFFFFFFF" by (simp add: word_le_nat_alt)
  moreover obtain v err c' where "read i c = ret ((v, err), c')" "client_ok c'"
    using assms(1) [OF Suc.prems, of i] by auto
  ultimately show ?case using Suc.IH by simp
qed simp

lemma GetObjectList_unfold:
  assumes "ReadProperty (fst (envs 0)) (snd (envs 0)) dev (NewObjectIdentifier ObjectTypeDevice dev) PropertyObjectList
             [WithArrayIndex 0] c = ret ((VUint32 n, None), c')"
  shows "GetObjectList fuel envs dev c = map_option (map_option (\<lambda>(objects, c). (Ok objects, c)))
    (GetObjectList_loop fuel (\<lambda>i. ReadProperty (fst (envs i)) (snd (envs i)) dev
        (NewObjectIdentifier ObjectTypeDevice dev) PropertyObjectList [WithArrayIndex i]) 1 n [] c')"
  using assms by (simp add: GetObjectList_def Let_def)

section \<open>ReadProperty from end to end\<close>

lemma decode_ack:
  assumes "value_wire v"
  shows "decodeReadPropertyResponse (readPropertyAck oid pid i (value_bytes v)) = ret (wire_value v, None)"
  using decode_encode_value [OF assms, of "EncodeClosingTag 3"]
  by (auto simp: readPropertyAck_def value_bytes_def decodeReadPropertyResponse_layout)

lemma ReadProperty_resolved:
  assumes res: "resolveDevice env1 d c0 = ret (Ok addr, c)" and ok: "client_ok c" and st: "state c = StateConnected"
    and arr: "arrivals env2 = [(ackPacket (next_iid c) ServiceReadProperty (readPropertyAck oid pid i (value_bytes v)), from)]"
    and req: "req = ReadProperty_request oid' pid' (ArrayIndex (apply_options os \<lparr>ArrayIndex = None\<rparr>))"
    and ctx: "\<not> ctxFirst env2" "\<not> closes env2" and v: "value_wire v"
  shows "\<exists>c'. ReadProperty env1 env2 d oid' pid' os c0 = ret
    (case transport_Send (net env2) (deadline env2) (now env2) addr (requestPacket (next_iid c) ServiceReadProperty req) (transport c) of
       Some e \<Rightarrow> (VNil, Some (wrap_error ''send request'' e)) | None \<Rightarrow> (wire_value v, None), c') \<and> request_done c c'"
proof -
  note read = ReadProperty_def withDevice_def res req [symmetric] Let_def
  obtain r c' where c': "sendRequest env2 addr ServiceReadProperty req c = ret (r, c')" "request_done c c'"
    using sendRequest_keeps [OF ok] ctx(2) by blast
  show ?thesis
  proof (cases "transport_Send (net env2) (deadline env2) (now env2) addr (requestPacket (next_iid c) ServiceReadProperty req) (transport c)")
    case None
    have "r = Ok (ackAPDU (next_iid c) ServiceReadProperty (readPropertyAck oid pid i (value_bytes v)))"
      using sendRequest_acked [OF ok st arr None ctx] c'(1) by auto
    moreover have "APDU_Data (ackAPDU (next_iid c) ServiceReadProperty (readPropertyAck oid pid i (value_bytes v))) =
        readPropertyAck oid pid i (value_bytes v)" by (simp add: ackAPDU_def)
    ultimately show ?thesis using c' None decode_ack [OF v, of oid pid i] by (simp add: read)
  next
    case (Some e)
    have "r = Err (wrap_error ''send request'' e)" using sendRequest_send_fails [OF st Some] c'(1) by auto
    then show ?thesis using c' Some by (simp add: read)
  qed
qed

lemma ReadProperty_acked:
  assumes "client_ok c" and "state c = StateConnected"
    and dev: "GetDevice d c = Some dev" "deviceUDPAddr dev = ret (Ok addr)"
    and "arrivals env2 = [(ackPacket (next_iid c) ServiceReadProperty (readPropertyAck oid pid i (value_bytes v)), from)]"
    and sent: "\<And>packet. transport_Send (net env2) (deadline env2) (now env2) addr packet (transport c) = None"
    and "\<not> ctxFirst env2" "\<not> closes env2" and "value_wire v"
  shows "\<exists>c'. ReadProperty env1 env2 d oid' pid' os c = ret ((wire_value v, None), c') \<and> request_done c c'"
proof -
  have "resolveDevice env1 d c = ret (Ok addr, c)" by (simp add: resolveDevice_known [OF dev(1)] dev(2))
  from ReadProperty_resolved [OF this assms(1,2,5) refl assms(7-9)] show ?thesis by (simp add: sent)
qed

section \<open>Properties\<close>

text \<open>
  C29: The device cache keeps the latest registration per instance number: after any list of
  registrations a lookup returns the last one with that number, and the older cache entry if there
  was none. Registering twice is registering once.
\<close>

theorem device_cache_last_registration:
  "GetDevice i (fold RegisterDevice ds c) =
     (case find (\<lambda>d. OID_Instance (ObjectID d) = i) (rev ds) of Some d \<Rightarrow> Some d | None \<Rightarrow> GetDevice i c) \<and>
   GetDevice i (RegisterDevice d (RegisterDevice d c)) = GetDevice i (RegisterDevice d c)"
  using deviceCache.get_fold deviceCache.put_twice by blast

text \<open>
  C27: A device registered by address is reached at that address and port, without a discovery: for
  an IPv4 address (or its IPv6-mapped form) and every port from 0 to 65535, the default port
  included, \<open>resolveDevice\<close> returns the address and port and leaves the client as it is.
\<close>

theorem registered_device_resolves:
  assumes "IP_To4 ip = Some ip4" and "0 \<le> port" and "port < 65536"
  shows "resolveDevice env dev (RegisterDevice (NewRemoteDevice dev ip port) c) =
         ret (Ok \<lparr>IP = ip4, Port = port\<rparr>, RegisterDevice (NewRemoteDevice dev ip port) c)"
proof -
  have g: "GetDevice dev (RegisterDevice (NewRemoteDevice dev ip port) c) = Some (NewRemoteDevice dev ip port)"
    by (simp add: deviceCache.get_put NewRemoteDevice_def DeviceInfo_lit_def Let_def)
  note l = IP_To4_len [OF assms(1)]
  have "deviceUDPAddr (NewRemoteDevice dev ip port) = ret (Ok \<lparr>IP = ip4, Port = port\<rparr>)"
  proof (cases "port = DefaultPort")
    case True
    have "deviceUDPAddr (NewRemoteDevice dev ip port) = ret (Ok \<lparr>IP = ip4, Port = DefaultPort\<rparr>)"
      by (rule deviceUDPAddr_4 [OF l]) (simp add: NewRemoteDevice_def DeviceInfo_lit_def assms(1) True)
    with True show ?thesis by simp
  next
    case False
    then show ?thesis
      by (intro deviceUDPAddr_6 [OF l assms(2,3)]) (simp add: NewRemoteDevice_def DeviceInfo_lit_def assms(1))
  qed
  then show ?thesis by (simp add: resolveDevice_known [OF g])
qed

theorem registered_device_resolves_witness:
  "resolveDevice \<lparr>net = good_net, deadline = None, now = 0, later = 0, arrivals = [], closes = False, ctxFirst = True\<rparr> 7
     (RegisterDevice (NewRemoteDevice 7 [10, 0, 0, 2] 47809) (NewClient 0 [])) =
   ret (Ok \<lparr>IP = [10, 0, 0, 2], Port = 47809\<rparr>, RegisterDevice (NewRemoteDevice 7 [10, 0, 0, 2] 47809) (NewClient 0 []))"
  by (rule registered_device_resolves) (simp_all add: IP_To4_def)

text \<open>
  C28: An I-Am makes the device known: after the broadcast of a device with a wire-size identifier,
  the cache holds the announced identifier, APDU size, segmentation and vendor (each cut to its
  field's width) with the sender's IPv4 address, and the device resolves to that address at the
  default port, whatever port the packet came from.
\<close>

theorem iAm_registers_device:
  assumes "oid_wire oid" and "OID_Type oid = ObjectTypeDevice" and "IP_To4 (IP addr) = Some ip4"
  shows "\<exists>c'. handlePacket (iAm_packet (iAm_parameters oid m s v)) addr c = ret c' \<and>
           GetDevice (OID_Instance oid) c' = Some (DeviceInfo_lit oid \<lparr>Net = 0, Addr = ip4\<rparr> (ucast m) (ucast s) (ucast v)) \<and>
           resolveDevice env (OID_Instance oid) c' = ret (Ok \<lparr>IP = ip4, Port = DefaultPort\<rparr>, c')"
  using decodePacket_iAm [of "iAm_parameters oid m s v"] handlePacket_iAm [OF _ _ assms] by blast

theorem iAm_registers_device_witness:
  "\<exists>c'. handlePacket (iAm_packet (iAm_parameters \<lparr>OID_Type = 8, OID_Instance = 1234\<rparr> 1476 3 15))
       \<lparr>IP = [10, 0, 0, 9], Port = 50000\<rparr> (NewClient 0 []) = ret c' \<and>
     resolveDevice \<lparr>net = good_net, deadline = None, now = 0, later = 0, arrivals = [], closes = False, ctxFirst = True\<rparr> 1234 c' =
       ret (Ok \<lparr>IP = [10, 0, 0, 9], Port = 47808\<rparr>, c')"
  using iAm_registers_device [of "\<lparr>OID_Type = 8, OID_Instance = 1234\<rparr>" "\<lparr>IP = [10, 0, 0, 9], Port = 50000\<rparr>" "[10, 0, 0, 9]"]
  by (force simp: oid_wire_def IP_To4_def)

text \<open>
  An I-Am that a BBMD forwards is recorded under the address of the BBMD: the six octets with the
  address of the device that precede the network layer are skipped, so the device resolves to the
  sender of the UDP packet, whatever the original address was.
\<close>

theorem forwarded_iAm_records_forwarder:
  assumes "oid_wire oid" and "OID_Type oid = ObjectTypeDevice" and "IP_To4 (IP bbmd) = Some ip4" and "len orig = 6"
  shows "\<exists>c'. handlePacket (forwarded_iAm_packet orig (iAm_parameters oid m s v)) bbmd c = ret c' \<and>
           resolveDevice env (OID_Instance oid) c' = ret (Ok \<lparr>IP = ip4, Port = DefaultPort\<rparr>, c')"
  using decodePacket_forwarded [OF assms(4), of "iAm_parameters oid m s v"] handlePacket_iAm [OF _ _ assms(1-3)] by blast

theorem forwarded_iAm_records_forwarder_witness:
  "\<exists>c'. handlePacket (forwarded_iAm_packet [10, 0, 0, 9, 0xBA, 0xC0] (iAm_parameters \<lparr>OID_Type = 8, OID_Instance = 1234\<rparr> 1476 3 15))
       \<lparr>IP = [192, 168, 1, 1], Port = 47808\<rparr> (NewClient 0 []) = ret c' \<and>
     resolveDevice \<lparr>net = good_net, deadline = None, now = 0, later = 0, arrivals = [], closes = False, ctxFirst = True\<rparr> 1234 c' =
       ret (Ok \<lparr>IP = [192, 168, 1, 1], Port = 47808\<rparr>, c')"
  using forwarded_iAm_records_forwarder [of "\<lparr>OID_Type = 8, OID_Instance = 1234\<rparr>" "\<lparr>IP = [192, 168, 1, 1], Port = 47808\<rparr>"
      "[192, 168, 1, 1]" "[10, 0, 0, 9, 0xBA, 0xC0]"]
  by (force simp: oid_wire_def IP_To4_def)

text \<open>
  C30: Invoke identifiers repeat exactly every 256 identifiers handed out, also where the 32-bit counter wraps: the
  \<open>j\<close>-th and the \<open>k\<close>-th identifier handed out are equal if and only if \<open>j\<close> and \<open>k\<close> agree modulo 256. So any 256
  identifiers handed out in a row are distinct, and a request that is still waiting when 256 further identifiers have been
  handed out has the same identifier as the last of them, however many of the others are in use.
\<close>

theorem invoke_ids_repeat_every_256:
  "invoke_id c j = invoke_id c k \<longleftrightarrow> j mod 256 = k mod 256"
proof -
  have "invoke_id c j = invoke_id c k \<longleftrightarrow> (unat (invokeID c) + 1 + j) mod 256 = (unat (invokeID c) + 1 + k) mod 256"
    by (simp add: word_unat_eq_iff invoke_id_unat)
  also have "\<dots> \<longleftrightarrow> j mod 256 = k mod 256"
    by (rule mod_shift)
  finally show ?thesis .
qed

end
