(* ===== verification/Client_Protocol.thy ===== *)
theory Client_Protocol
  imports Client_Invariant
begin

text \<open>
  The goroutines of the client as a transition system: calls of \<open>Connect\<close> and \<open>Close\<close>, each going through its
  statements one at a time, the receivers they start and stop, a handler per packet, which looks a channel up and
  sends to it in two steps (the lock is released in between), and requests that register, transmit, wait and clean up.
  Every order of these steps is allowed that the waiting permits, with any number of calls, receivers, handlers and
  requests under way at a time; in particular \<open>Connect\<close> may overlap \<open>Close\<close>, as in the source.

  What is one step: the assignment of the context and its cancel function; the number of a request, its
  registration and its counters; a read of the receiver with the test that follows it; the decoding of a packet with
  the lookup; every method of the transport, which holds the transport's lock.
\<close>

section \<open>Goroutines\<close>

datatype handler = Started bytes UDPAddr | Sending nat APDU

text \<open>A call of \<open>sendRequest\<close> between registration and clean-up, and whether its packet has been sent.\<close>

datatype request = Request (req_id: uint8) (req_chan: nat) (req_sent: bool)

text \<open>
  A receiver goroutine that has been spawned but has not run yet, one before the test of the context, and one in
  the read. When it starts to run, the \<open>defer\<close> statement evaluates \<open>c.receiverDone\<close>: the channel it will close.
\<close>

datatype receiver_at = Spawned | Checking nat | Reading nat

text \<open>
  Where a call of \<open>Connect\<close> is: after the compare-and-swap, after \<open>Open\<close> (failed or not), after the context, the
  channel and the goroutine have been made. And where a call of \<open>Close\<close> is: after the state has been
  loaded and found not disconnected, after it has been stored, after the cancellation, in the
  receive from the channel that \<open>c.receiverDone\<close> held when it was evaluated (\<open>None\<close>: the nil channel), after
  it, after the wait for the handlers, and after the pending channels have been closed.
\<close>

datatype connect_at = Opening | OpenFailed | Opened | CtxMade | DoneMade | ReceiverMade

datatype close_at = Loaded | Stored | Cancelled | Waiting "nat option" | Stopped | Drained | PendingClosed

text \<open>
  Contexts and done channels are numbered. \<open>receiverCtx\<close> stands for the fields \<open>receiverCtx\<close> and \<open>receiverCancel\<close>,
  which are assigned together. \<open>owner\<close> is a ghost: the identifier a response channel was made for.
\<close>

record Protocol =
  client :: Client
  handlers :: "handler list"
  requests :: "request list"
  receivers :: "receiver_at list"
  connectors :: "connect_at list"
  closers :: "close_at list"
  receiverCtx :: "nat option"
  receiverDone :: "nat option"
  cancelledCtx :: "nat set"
  closedDone :: "nat set"
  fresh :: nat
  owner :: "nat \<rightharpoonup> uint8"

section \<open>Steps\<close>

text \<open>\<open>handlePacket\<close> up to and including the lookup of \<open>handleResponse\<close>: what is left to do, if anything.\<close>

definition lookupResponse :: "APDU \<Rightarrow> Client \<Rightarrow> Client \<times> handler option" where
  "lookupResponse apdu c = (c, map_option (\<lambda>ch. Sending ch apdu) (pending c (InvokeID apdu)))"

definition handlePacket_lookup :: "bytes \<Rightarrow> UDPAddr \<Rightarrow> Client \<Rightarrow> (Client \<times> handler option) go" where
  "handlePacket_lookup data addr c =
     do { r \<leftarrow> decodePacket data;
          case r of
            None \<Rightarrow> ret (c, None)
          | Some (apdu, npdu) \<Rightarrow>
              let c = incMetric ResponsesReceived_update c;
                  t = APDU_Type apdu
              in if t = PDUTypeUnconfirmedRequest
                 then do { c' \<leftarrow> handleUnconfirmedRequest apdu addr npdu c; ret (c', None) }
                 else if t = PDUTypeSimpleAck \<or> t = PDUTypeComplexAck then ret (lookupResponse apdu c)
                 else if t = PDUTypeError then ret (lookupResponse apdu (incMetric ErrorsReceived_update c))
                 else if t = PDUTypeReject then ret (lookupResponse apdu (incMetric RejectsReceived_update c))
                 else if t = PDUTypeAbort then ret (lookupResponse apdu (incMetric AbortsReceived_update c))
                 else ret (c, None) }"

text \<open>
  \<open>Connect\<close>. A call that finds the state not disconnected returns \<open>ErrAlreadyConnected\<close> and changes nothing, so
  it is no step. The registration with a BBMD after the last step changes nothing of the client either.
\<close>

inductive connect_step :: "Protocol \<Rightarrow> Protocol \<Rightarrow> bool" where
  connect_cas: "state (client s) = StateDisconnected \<Longrightarrow>
     connect_step s (s\<lparr>client := incMetric ConnectAttempts_update ((client s)\<lparr>state := StateConnecting\<rparr>),
                       connectors := Opening # connectors s\<rparr>)"
| connect_open: "connectors s = cs @ Opening # cs' \<Longrightarrow> transport_Open nt (transport (client s)) = (err, t') \<Longrightarrow>
     connect_step s (s\<lparr>client := (client s)\<lparr>transport := t'\<rparr>,
                       connectors := cs @ (if err = None then Opened else OpenFailed) # cs'\<rparr>)"
| connect_fails: "connectors s = cs @ OpenFailed # cs' \<Longrightarrow>
     connect_step s (s\<lparr>client := incMetric ConnectFailures_update ((client s)\<lparr>state := StateDisconnected\<rparr>),
                       connectors := cs @ cs'\<rparr>)"
| connect_ctx: "connectors s = cs @ Opened # cs' \<Longrightarrow>
     connect_step s (s\<lparr>receiverCtx := Some (fresh s), fresh := fresh s + 1, connectors := cs @ CtxMade # cs'\<rparr>)"
| connect_done: "connectors s = cs @ CtxMade # cs' \<Longrightarrow>
     connect_step s (s\<lparr>receiverDone := Some (fresh s), fresh := fresh s + 1, connectors := cs @ DoneMade # cs'\<rparr>)"
| connect_go: "connectors s = cs @ DoneMade # cs' \<Longrightarrow>
     connect_step s (s\<lparr>receivers := Spawned # receivers s, connectors := cs @ ReceiverMade # cs'\<rparr>)"
| connect_stores: "connectors s = cs @ ReceiverMade # cs' \<Longrightarrow>
     connect_step s (s\<lparr>client := incMetric ConnectSuccesses_update ((client s)\<lparr>state := StateConnected\<rparr>),
                       connectors := cs @ cs'\<rparr>)"

text \<open>
  The receiver. Its test of the context reads the field, so it sees the context of the latest \<open>Connect\<close>. When it
  returns it closes its done channel; if that is closed already the process panics, and there is no step.
\<close>

inductive receiver_step :: "Protocol \<Rightarrow> Protocol \<Rightarrow> bool" where
  receiver_starts: "receivers s = rs @ Spawned # rs' \<Longrightarrow> receiverDone s = Some d \<Longrightarrow>
     receiver_step s (s\<lparr>receivers := rs @ Checking d # rs'\<rparr>)"
| receiver_goes_on: "receivers s = rs @ Checking d # rs' \<Longrightarrow> receiverCtx s = Some k \<Longrightarrow> k \<notin> cancelledCtx s \<Longrightarrow>
     receiver_step s (s\<lparr>receivers := rs @ Reading d # rs'\<rparr>)"
| receiver_cancelled: "receivers s = rs @ Checking d # rs' \<Longrightarrow> receiverCtx s = Some k \<Longrightarrow> k \<in> cancelledCtx s \<Longrightarrow>
     d \<notin> closedDone s \<Longrightarrow>
     receiver_step s (s\<lparr>receivers := rs @ rs', closedDone := insert d (closedDone s)\<rparr>)"
| receiver_packet: "receivers s = rs @ Reading d # rs' \<Longrightarrow>
     transport_ReceiveWithTimeout nt (100 * Millisecond) tm (transport (client s)) = Ok (data, addr) \<Longrightarrow>
     receiver_step s (s\<lparr>client := countReceived tm data (client s), handlers := handlers s @ [Started data addr],
                        receivers := rs @ Checking d # rs'\<rparr>)"
| receiver_error: "receivers s = rs @ Reading d # rs' \<Longrightarrow>
     transport_ReceiveWithTimeout nt (100 * Millisecond) tm (transport (client s)) = Err err \<Longrightarrow>
     is_net_timeout err \<or> \<not> transport_IsClosed (transport (client s)) \<Longrightarrow>
     receiver_step s (s\<lparr>receivers := rs @ Checking d # rs'\<rparr>)"
| receiver_closed: "receivers s = rs @ Reading d # rs' \<Longrightarrow>
     transport_ReceiveWithTimeout nt (100 * Millisecond) tm (transport (client s)) = Err err \<Longrightarrow>
     \<not> is_net_timeout err \<Longrightarrow> transport_IsClosed (transport (client s)) \<Longrightarrow> d \<notin> closedDone s \<Longrightarrow>
     receiver_step s (s\<lparr>receivers := rs @ rs', closedDone := insert d (closedDone s)\<rparr>)"

text \<open>Packet handlers; a panic is recovered and counted.\<close>

inductive handler_step :: "Protocol \<Rightarrow> Protocol \<Rightarrow> bool" where
  handler_lookup: "handlers s = hs @ Started data addr # hs' \<Longrightarrow>
     handlePacket_lookup data addr (client s) = ret (c', h) \<Longrightarrow>
     handler_step s (s\<lparr>client := c', handlers := hs @ (case h of None \<Rightarrow> [] | Some x \<Rightarrow> [x]) @ hs'\<rparr>)"
| handler_send: "handlers s = hs @ Sending ch a # hs' \<Longrightarrow> chan_send ch a (client s) = ret c' \<Longrightarrow>
     handler_step s (s\<lparr>client := c', handlers := hs @ hs'\<rparr>)"
| handler_recovers: "handlers s = hs @ Sending ch a # hs' \<Longrightarrow> chan_send ch a (client s) = panic \<Longrightarrow>
     handler_step s (s\<lparr>client := incMetric PanicsRecovered_update (client s), handlers := hs @ hs'\<rparr>)"

text \<open>
  Requests. The guard of \<open>sendRequest\<close> on the connection state is checked before the registration, and \<open>Close\<close> may
  run in between, so \<open>request_begins\<close> has no guard. A request that waits goes on only when its context is finished
  (the \<open>select\<close> then may take that branch, \<open>ctxFirst\<close>) or its channel holds a response or is closed.
\<close>

definition select_ready :: "Env \<Rightarrow> nat \<Rightarrow> Client \<Rightarrow> bool" where
  "select_ready env ch c \<longleftrightarrow> ctxFirst env \<or>
     (case chans c ch of None \<Rightarrow> False | Some q \<Rightarrow> buffered q \<noteq> None \<or> chan_closed q)"

inductive request_step :: "Protocol \<Rightarrow> Protocol \<Rightarrow> bool" where
  request_begins: "beginRequest (client s) = (iid, ch, c') \<Longrightarrow>
     request_step s (s\<lparr>client := countRequest c', requests := Request iid ch False # requests s,
                       owner := (owner s)(ch \<mapsto> iid)\<rparr>)"
| request_sent: "requests s = rs @ Request iid ch False # rs' \<Longrightarrow>
     transport_Send nt dl tm addr (requestPacket iid service data) (transport (client s)) = None \<Longrightarrow>
     request_step s (s\<lparr>client := countSent (requestPacket iid service data) (client s),
                       requests := rs @ Request iid ch True # rs'\<rparr>)"
| request_fails: "requests s = rs @ Request iid ch False # rs' \<Longrightarrow>
     transport_Send nt dl tm addr (requestPacket iid service data) (transport (client s)) = Some err \<Longrightarrow>
     request_step s (s\<lparr>client := endRequest iid (incMetric RequestsFailed_update (client s)), requests := rs @ rs'\<rparr>)"
| request_ends: "requests s = rs @ Request iid ch True # rs' \<Longrightarrow> select_ready env ch (client s) \<Longrightarrow>
     awaitResponse env ch (client s) = ret (r, c') \<Longrightarrow>
     request_step s (s\<lparr>client := endRequest iid c', requests := rs @ rs'\<rparr>)"

text \<open>\<open>Close\<close>. A call that finds the state disconnected returns at once.\<close>

inductive close_step :: "Protocol \<Rightarrow> Protocol \<Rightarrow> bool" where
  close_loads: "state (client s) \<noteq> StateDisconnected \<Longrightarrow> close_step s (s\<lparr>closers := Loaded # closers s\<rparr>)"
| close_stores: "closers s = cs @ Loaded # cs' \<Longrightarrow>
     close_step s (s\<lparr>client := incMetric Disconnects_update ((client s)\<lparr>state := StateDisconnected\<rparr>),
                     closers := cs @ Stored # cs'\<rparr>)"
| close_cancels: "closers s = cs @ Stored # cs' \<Longrightarrow> receiverCtx s = Some k \<Longrightarrow>
     close_step s (s\<lparr>cancelledCtx := insert k (cancelledCtx s), closers := cs @ Cancelled # cs'\<rparr>)"
| close_no_receiver: "closers s = cs @ Stored # cs' \<Longrightarrow> receiverCtx s = None \<Longrightarrow>
     close_step s (s\<lparr>closers := cs @ Stopped # cs'\<rparr>)"
| close_waits: "closers s = cs @ Cancelled # cs' \<Longrightarrow>
     close_step s (s\<lparr>closers := cs @ Waiting (receiverDone s) # cs'\<rparr>)"
| close_resumes: "closers s = cs @ Waiting (Some d) # cs' \<Longrightarrow> d \<in> closedDone s \<Longrightarrow>
     close_step s (s\<lparr>closers := cs @ Stopped # cs'\<rparr>)"
| close_drained: "closers s = cs @ Stopped # cs' \<Longrightarrow> handlers s = [] \<Longrightarrow>
     close_step s (s\<lparr>closers := cs @ Drained # cs'\<rparr>)"
| close_pending: "closers s = cs @ Drained # cs' \<Longrightarrow>
     close_step s (s\<lparr>client := closePending (client s), closers := cs @ PendingClosed # cs'\<rparr>)"
| close_transport: "closers s = cs @ PendingClosed # cs' \<Longrightarrow>
     close_step s (s\<lparr>client := (client s)\<lparr>transport := snd (transport_Close nt (transport (client s)))\<rparr>,
                     closers := cs @ cs'\<rparr>)"

inductive step :: "Protocol \<Rightarrow> Protocol \<Rightarrow> bool" where
  by_connect: "connect_step s t \<Longrightarrow> step s t"
| by_receiver: "receiver_step s t \<Longrightarrow> step s t"
| by_handler: "handler_step s t \<Longrightarrow> step s t"
| by_request: "request_step s t \<Longrightarrow> step s t"
| by_close: "close_step s t \<Longrightarrow> step s t"

inductive_cases connect_stepE: "connect_step s t"
inductive_cases receiver_stepE: "receiver_step s t"
inductive_cases handler_stepE: "handler_step s t"
inductive_cases request_stepE: "request_step s t"
inductive_cases close_stepE: "close_step s t"
inductive_cases stepE: "step s t"

definition start :: "int \<Rightarrow> Option list \<Rightarrow> Protocol" where
  "start tm os = \<lparr>client = NewClient tm os, handlers = [], requests = [], receivers = [], connectors = [], closers = [],
     receiverCtx = None, receiverDone = None, cancelledCtx = {}, closedDone = {}, fresh = 0, owner = Map.empty\<rparr>"

section \<open>The two halves of a handler make handlePacket\<close>

lemma handlePacket_halves:
  "handlePacket data addr c =
     do { (c', h) \<leftarrow> handlePacket_lookup data addr c;
          case h of Some (Sending ch a) \<Rightarrow> chan_send ch a c' | _ \<Rightarrow> ret c' }"
proof -
  obtain r where r: "decodePacket data = ret r" using decodePacket_total by blast
  have resp: "handleResponse a d =
      (case lookupResponse a d of (c', h) \<Rightarrow> (case h of Some (Sending ch a) \<Rightarrow> chan_send ch a c' | _ \<Rightarrow> ret c'))" for a d
    by (simp add: handleResponse_def lookupResponse_def split: option.split)
  show ?thesis
    by (cases r) (auto simp: handlePacket_def handlePacket_lookup_def r dispatchAPDU_def Let_def resp split: prod.split)
qed

lemma handlePacket_lookup_total: "\<exists>c' h. handlePacket_lookup data addr c = ret (c', h)"
proof -
  obtain r where r: "decodePacket data = ret r" using decodePacket_total by blast
  have u: "\<exists>c'. handleUnconfirmedRequest a addr n d = ret c'" for a n d
    using handleIAm_keeps [of "APDU_Data a" addr n d] by (auto simp: handleUnconfirmedRequest_def)
  show ?thesis
  proof (cases r)
    case (Some p)
    obtain a n where p: "p = (a, n)" by (cases p)
    obtain c' where "handleUnconfirmedRequest a addr n (incMetric ResponsesReceived_update c) = ret c'" using u by blast
    then show ?thesis by (simp add: handlePacket_lookup_def r Some p Let_def lookupResponse_def)
  qed (simp add: handlePacket_lookup_def r)
qed

section \<open>The invariant of all interleavings\<close>

definition channel_ok :: "Client \<Rightarrow> (nat \<rightharpoonup> uint8) \<Rightarrow> bool" where
  "channel_ok c own \<longleftrightarrow>
     (\<forall>i ch. pending c i = Some ch \<longrightarrow> own ch = Some i \<and> (\<exists>q. chans c ch = Some q \<and> \<not> chan_closed q)) \<and>
     (\<forall>ch q a. chans c ch = Some q \<longrightarrow> buffered q = Some a \<longrightarrow> own ch = Some (InvokeID a)) \<and>
     (\<forall>ch. chans c ch \<noteq> None \<longrightarrow> ch < nextChan c) \<and>
     length (h_buckets (RequestLatency (metrics c))) = 10"

fun handler_ok :: "Client \<Rightarrow> (nat \<rightharpoonup> uint8) \<Rightarrow> handler \<Rightarrow> bool" where
  "handler_ok c own (Started _ _) = True"
| "handler_ok c own (Sending ch a) = (own ch = Some (InvokeID a) \<and> chans c ch \<noteq> None)"

definition request_ok :: "Client \<Rightarrow> (nat \<rightharpoonup> uint8) \<Rightarrow> request \<Rightarrow> bool" where
  "request_ok c own r \<longleftrightarrow> own (req_chan r) = Some (req_id r) \<and> chans c (req_chan r) \<noteq> None"

definition protocol_ok :: "Protocol \<Rightarrow> bool" where
  "protocol_ok s \<longleftrightarrow> channel_ok (client s) (owner s) \<and> (\<forall>h \<in> set (handlers s). handler_ok (client s) (owner s) h) \<and>
     (\<forall>r \<in> set (requests s). request_ok (client s) (owner s) r) \<and> distinct (map req_chan (requests s))"

text \<open>A change of the client that opens nothing and closes nothing keeps all parts.\<close>

definition same_channels :: "Client \<Rightarrow> Client \<Rightarrow> bool" where
  "same_channels c c' \<longleftrightarrow> pending c' = pending c \<and> chans c' = chans c \<and> nextChan c' = nextChan c \<and>
     length (h_buckets (RequestLatency (metrics c'))) = length (h_buckets (RequestLatency (metrics c)))"

lemma same_channels_ok:
  assumes "same_channels c c'"
  shows "channel_ok c' own = channel_ok c own" "handler_ok c' own h = handler_ok c own h"
    "request_ok c' own r = request_ok c own r"
  using assms by (cases h; simp add: same_channels_def channel_ok_def request_ok_def)+

lemma same_channels_protocol:
  assumes "protocol_ok s" and "same_channels (client s) c'"
  shows "protocol_ok (s\<lparr>client := c'\<rparr>)"
  using assms by (simp add: protocol_ok_def same_channels_ok [OF assms(2)])

lemma countReceived_channels: "same_channels c (countReceived tm data c)"
  by (simp add: same_channels_def countReceived_def RecordActivity_def)

lemma countRequest_channels: "same_channels c (countRequest c)"
  by (simp add: same_channels_def countRequest_def incMetric_def)

lemma countSent_channels: "same_channels c (countSent p c)"
  by (simp add: same_channels_def countSent_def)

lemma channel_ok_client_ok: "channel_ok c own \<Longrightarrow> client_ok c"
proof -
  assume ok: "channel_ok c own"
  have "\<exists>q. chans c k = Some q \<and> \<not> chan_closed q \<and> (\<forall>a. buffered q = Some a \<longrightarrow> InvokeID a = i)"
    if p: "pending c i = Some k" for i k
  proof -
    obtain q where q: "own k = Some i" "chans c k = Some q" "\<not> chan_closed q" using ok p unfolding channel_ok_def by blast
    have "InvokeID a = i" if "buffered q = Some a" for a using ok q that by (auto simp: channel_ok_def)
    with q show ?thesis by blast
  qed
  moreover have "i = j" if "pending c i = Some k" "pending c j = Some k" for i j k
  proof -
    have "own k = Some i" "own k = Some j" using ok that unfolding channel_ok_def by blast+
    then show ?thesis by simp
  qed
  moreover have "k < nextChan c" if "chans c k \<noteq> None" for k using ok that by (auto simp: channel_ok_def)
  moreover have "length (h_buckets (RequestLatency (metrics c))) = 10" using ok by (simp add: channel_ok_def)
  ultimately show ?thesis unfolding client_ok_def table_ok_def by blast
qed

section \<open>One preservation lemma per kind of goroutine\<close>

lemma protocol_ok_cong:
  assumes "protocol_ok s" and "same_channels (client s) (client t)" and "handlers t = handlers s"
    and "requests t = requests s" and "owner t = owner s"
  shows "protocol_ok t"
  using assms same_channels_ok [OF assms(2)] by (simp add: protocol_ok_def)

lemma connect_keeps: "protocol_ok s \<Longrightarrow> connect_step s t \<Longrightarrow> protocol_ok t"
  by (erule connect_stepE; erule protocol_ok_cong) (simp_all add: same_channels_def incMetric_def)

lemma receiver_keeps_ok:
  assumes "protocol_ok s" and "receiver_step s t"
  shows "protocol_ok t"
  using assms(2)
proof (cases rule: receiver_step.cases)
  case receiver_packet
  then show ?thesis using assms(1) by (auto simp: protocol_ok_def same_channels_ok [OF countReceived_channels])
qed (use assms(1) in \<open>simp_all add: protocol_ok_def\<close>)

lemma lookup_channels:
  assumes "handlePacket_lookup data addr c = ret (c', h)"
  shows "same_channels c c' \<and> (\<forall>x. h = Some x \<longrightarrow> (\<exists>a ch. x = Sending ch a \<and> pending c (InvokeID a) = Some ch))"
proof -
  obtain r where r: "decodePacket data = ret r" using decodePacket_total by blast
  have counted: "same_channels c (incMetric ResponsesReceived_update c)"
    "same_channels c (incMetric ErrorsReceived_update (incMetric ResponsesReceived_update c))"
    "same_channels c (incMetric RejectsReceived_update (incMetric ResponsesReceived_update c))"
    "same_channels c (incMetric AbortsReceived_update (incMetric ResponsesReceived_update c))"
    "same_channels c (incMetric COVNotifications_update (incMetric ResponsesReceived_update c))"
    by (simp_all add: same_channels_def incMetric_def)
  have iam: "same_channels c d" if "handleIAm ps addr n (incMetric ResponsesReceived_update c) = ret d" for ps n d
    using that handleIAm_keeps [of ps addr n "incMetric ResponsesReceived_update c"]
    by (auto simp: same_channels_def same_control_def incMetric_def)
  show ?thesis
  proof (cases r)
    case None
    then show ?thesis using assms by (simp add: handlePacket_lookup_def r same_channels_def)
  next
    case (Some p)
    obtain a n where p: "p = (a, n)" by (cases p)
    show ?thesis
      using assms counted iam
      by (auto simp: handlePacket_lookup_def r Some p Let_def lookupResponse_def handleUnconfirmedRequest_def
          handleCOVNotification_def bind_eq_Some_conv split: if_splits)
  qed
qed

lemma chan_send_ok:
  assumes "chan_send ch a c = ret c'" and "channel_ok c own" and "handler_ok c own (Sending ch a)"
  shows "channel_ok c' own \<and> (\<forall>h. handler_ok c own h \<longrightarrow> handler_ok c' own h) \<and> (\<forall>r. request_ok c own r \<longrightarrow> request_ok c' own r)"
proof -
  obtain q where q: "chans c ch = Some q" "\<not> chan_closed q" "own ch = Some (InvokeID a)"
    using assms(1,3) by (auto simp: chan_send_def split: if_splits)
  show ?thesis
  proof (cases "buffered q")
    case None
    then have c': "c' = c\<lparr>chans := (chans c)(ch \<mapsto> q\<lparr>buffered := Some a\<rparr>)\<rparr>" using assms(1) q by (simp add: chan_send_def)
    have "channel_ok c' own" using assms(2) q unfolding c' channel_ok_def by auto
    moreover have "handler_ok c own h \<Longrightarrow> handler_ok c' own h" for h using q by (cases h) (auto simp: c')
    moreover have "request_ok c own r \<Longrightarrow> request_ok c' own r" for r by (auto simp: c' request_ok_def)
    ultimately show ?thesis by blast
  next
    case (Some b)
    then show ?thesis using assms q by (simp add: chan_send_def)
  qed
qed

lemma lookup_handler_ok:
  assumes "handlePacket_lookup data addr c = ret (c', Some x)" and "channel_ok c own"
  shows "handler_ok c own x"
proof -
  obtain a ch where "x = Sending ch a" "pending c (InvokeID a) = Some ch" using lookup_channels [OF assms(1)] by blast
  moreover from this have "own ch = Some (InvokeID a) \<and> chans c ch \<noteq> None"
    using assms(2) unfolding channel_ok_def by (metis option.distinct(1))
  ultimately show ?thesis by simp
qed

lemma handler_keeps:
  assumes "protocol_ok s" and "handler_step s t"
  shows "protocol_ok t"
  using assms(2)
proof (cases rule: handler_step.cases)
  case (handler_lookup hs data addr hs' c' h)
  have "handler_ok (client s) (owner s) x" if "h = Some x" for x
    using lookup_handler_ok handler_lookup(3) that assms(1) unfolding protocol_ok_def by blast
  then show ?thesis
    using handler_lookup(1,2) lookup_channels [OF handler_lookup(3)] assms(1)
    by (cases h) (auto simp: protocol_ok_def same_channels_ok simp del: handler_ok.simps)
next
  case (handler_send hs ch a hs' c')
  then show ?thesis using chan_send_ok [OF handler_send(3), of "owner s"] assms(1) by (auto simp: protocol_ok_def)
next
  case (handler_recovers hs ch a hs')
  have "same_channels (client s) (incMetric PanicsRecovered_update (client s))" by (simp add: same_channels_def incMetric_def)
  then show ?thesis using handler_recovers assms(1) by (auto simp: protocol_ok_def same_channels_ok)
qed

lemma begin_keeps:
  assumes "protocol_ok s" and "beginRequest (client s) = (iid, ch, c')"
  shows "protocol_ok (s\<lparr>client := countRequest c', requests := Request iid ch b # requests s, owner := (owner s)(ch \<mapsto> iid)\<rparr>)"
proof -
  note counted = same_channels_ok [OF countRequest_channels]
  have ok: "channel_ok (client s) (owner s)" using assms(1) by (simp add: protocol_ok_def)
  note b = beginRequest_ok [OF channel_ok_client_ok [OF ok] assms(2)]
  have n: "nextChan c' = nextChan (client s) + 1"
    using assms(2) by (auto simp: beginRequest_def nextInvokeID_def Let_def)
  have new: "chans (client s) ch = None" using ok b unfolding channel_ok_def by (metis less_irrefl)
  have np: "pending (client s) i \<noteq> Some ch" for i using ok new unfolding channel_ok_def by force
  have "channel_ok c' ((owner s)(ch \<mapsto> iid))"
    using ok b n np unfolding channel_ok_def by (auto simp: less_Suc_eq)
  moreover have "handler_ok c' ((owner s)(ch \<mapsto> iid)) h" if "handler_ok (client s) (owner s) h" for h
    using that b new by (cases h) auto
  moreover have "request_ok c' ((owner s)(ch \<mapsto> iid)) r" if "request_ok (client s) (owner s) r" for r
    using that b new by (auto simp: request_ok_def)
  moreover have "request_ok c' ((owner s)(ch \<mapsto> iid)) (Request iid ch b)" using b by (simp add: request_ok_def)
  moreover have "ch \<notin> req_chan ` set (requests s)" using assms(1) new by (auto simp: protocol_ok_def request_ok_def)
  ultimately show ?thesis using assms(1) by (simp add: protocol_ok_def counted)
qed

lemma awaitResponse_channels:
  assumes "awaitResponse env ch c = ret (r, c')" and "channel_ok c own" and "chans c ch \<noteq> None"
  shows "channel_ok c' own \<and> pending c' = pending c \<and>
         (\<forall>h. handler_ok c own h \<longrightarrow> handler_ok c' own h) \<and> (\<forall>x. request_ok c own x \<longrightarrow> request_ok c' own x) \<and>
         (\<forall>a. r = Ok a \<longrightarrow> own ch = Some (InvokeID a))"
proof -
  obtain q where q: "chans c ch = Some q" using assms(3) by auto
  obtain r2 c2 where "awaitResponse env ch c = ret (r2, c2)" "client_ok c2" "same_control c c2" "\<And>a. r2 = Ok a \<Longrightarrow> buffered q = Some a"
    using awaitResponse_keeps [OF channel_ok_client_ok [OF assms(2)] q, of env] by blast
  with assms(1) have k: "client_ok c'" "same_control c c'" "\<And>a. r = Ok a \<Longrightarrow> buffered q = Some a" by simp_all
  have rr: "chans d = chans d'" if "responseResult resp d' = ret (x, d)" for resp d' x d
    using that by (auto simp: responseResult_def bind_eq_Some_conv split: if_splits)
  have chans: "chans c' = chans c \<or> chans c' = (chans c)(ch \<mapsto> q\<lparr>buffered := None\<rparr>)"
    using assms(1) q by (auto simp: awaitResponse_def Let_def bind_eq_Some_conv split: if_splits option.splits dest!: rr)
  have p: "own k = Some i \<and> (\<exists>q'. chans c k = Some q' \<and> \<not> chan_closed q')" if "pending c i = Some k" for i k
    using that assms(2) by (simp add: channel_ok_def)
  have "own k = Some i \<and> (\<exists>q'. chans c' k = Some q' \<and> \<not> chan_closed q')" if "pending c i = Some k" for i k
    using p [OF that] chans q by auto
  moreover have "own k = Some (InvokeID a)" if "chans c' k = Some q'" "buffered q' = Some a" for k q' a
    using that chans assms(2) unfolding channel_ok_def by (auto split: if_splits)
  moreover have "k < nextChan c" if "chans c' k \<noteq> None" for k
    using that chans assms(2) q unfolding channel_ok_def by (auto split: if_splits)
  ultimately have "channel_ok c' own"
    using k(1,2) unfolding channel_ok_def client_ok_def same_control_def by auto
  moreover have "handler_ok c own h \<Longrightarrow> handler_ok c' own h" for h using chans q by (cases h) auto
  moreover have "request_ok c own x \<Longrightarrow> request_ok c' own x" for x using chans by (auto simp: request_ok_def)
  moreover have "r = Ok a \<Longrightarrow> own ch = Some (InvokeID a)" for a using k(3) q assms(2) by (auto simp: channel_ok_def)
  ultimately show ?thesis using k(2) by (simp add: same_control_def)
qed

lemma endRequest_channels:
  "channel_ok c own \<Longrightarrow> channel_ok (endRequest iid c) own"
  "handler_ok (endRequest iid c) own h = handler_ok c own h" "request_ok (endRequest iid c) own r = request_ok c own r"
proof -
  show "channel_ok c own \<Longrightarrow> channel_ok (endRequest iid c) own" by (auto simp: channel_ok_def endRequest_def)
  show "handler_ok (endRequest iid c) own h = handler_ok c own h" by (cases h) (simp_all add: endRequest_def)
  show "request_ok (endRequest iid c) own r = request_ok c own r" by (simp add: request_ok_def endRequest_def)
qed

lemma request_keeps:
  assumes ok: "protocol_ok s" and "request_step s t"
  shows "protocol_ok t"
  using assms(2)
proof (cases rule: request_step.cases)
  case request_begins
  then show ?thesis using begin_keeps [OF ok] by blast
next
  case (request_sent rs iid ch rs' nt dl tm addr service data)
  have "request_ok c own (Request iid ch True) = request_ok c own (Request iid ch False)" for c own by (simp add: request_ok_def)
  then show ?thesis using request_sent ok by (auto simp: protocol_ok_def same_channels_ok [OF countSent_channels])
next
  case (request_fails rs iid ch rs' nt dl tm addr service data err)
  have "same_channels (client s) (incMetric RequestsFailed_update (client s))" by (simp add: same_channels_def incMetric_def)
  note counted = same_channels_ok [OF this]
  show ?thesis using request_fails ok by (auto simp: protocol_ok_def endRequest_channels counted)
next
  case (request_ends rs iid ch rs' env r c')
  have "request_ok (client s) (owner s) (Request iid ch True)" using ok request_ends(2) by (simp add: protocol_ok_def)
  then have "chans (client s) ch \<noteq> None" by (simp add: request_ok_def)
  with ok awaitResponse_channels [OF request_ends(4), of "owner s"] request_ends(1,2) show ?thesis
    by (auto simp: protocol_ok_def endRequest_channels)
qed

lemma closePending_channels:
  "channel_ok c own \<Longrightarrow> channel_ok (closePending c) own"
  "handler_ok c own h \<Longrightarrow> handler_ok (closePending c) own h" "request_ok c own r \<Longrightarrow> request_ok (closePending c) own r"
proof -
  show "channel_ok c own \<Longrightarrow> channel_ok (closePending c) own"
    by (auto simp: channel_ok_def closePending_def split: if_splits)
  show "handler_ok c own h \<Longrightarrow> handler_ok (closePending c) own h" by (cases h) (auto simp: closePending_def)
  show "request_ok c own r \<Longrightarrow> request_ok (closePending c) own r" by (auto simp: request_ok_def closePending_def)
qed

lemma close_keeps:
  assumes "protocol_ok s" and "close_step s t"
  shows "protocol_ok t"
  using assms(2)
proof (cases rule: close_step.cases)
  case close_pending
  then show ?thesis using assms(1) closePending_channels by (simp add: protocol_ok_def)
next
  case close_stores
  then show ?thesis by (intro protocol_ok_cong [OF assms(1)]) (simp_all add: same_channels_def incMetric_def)
next
  case (close_transport cs cs' nt)
  then show ?thesis by (intro protocol_ok_cong [OF assms(1)]) (simp_all add: same_channels_def)
qed (use assms(1) in \<open>simp_all add: protocol_ok_def\<close>)

lemma step_keeps: "protocol_ok s \<Longrightarrow> step s t \<Longrightarrow> protocol_ok t"
  by (erule stepE) (use connect_keeps receiver_keeps_ok handler_keeps request_keeps close_keeps in blast)+

lemma start_ok: "protocol_ok (start tm os)"
  by (simp add: protocol_ok_def start_def channel_ok_def NewClient_def Let_def NewMetrics_def NewLatencyHistogram_def)

interpretation protocol: transition_system "\<lambda>s. \<exists>tm os. s = start tm os" step protocol_ok
  by unfold_locales (auto simp: start_ok intro: step_keeps)

section \<open>Runs\<close>

lemma reachable_ok: "step\<^sup>*\<^sup>* (start tm os) s \<Longrightarrow> protocol_ok s"
  using protocol.reachable_inv by blast

lemma await_after_close:
  assumes "channel_ok c own" and "pending c i = Some ch" and "\<not> ctxFirst env"
  shows "\<exists>q r d. chans c ch = Some q \<and> awaitResponse env ch (closePending c) = ret (r, d) \<and>
           (case buffered q of None \<Rightarrow> r = Err ErrConnectionClosed
            | Some a \<Rightarrow> InvokeID a = i \<and> (\<exists>e. responseResult a e = ret (r, d)))"
proof -
  obtain q where q: "chans c ch = Some q" "own ch = Some i" using assms(1,2) unfolding channel_ok_def by blast
  have n: "length (h_buckets (RequestLatency (metrics (closePending c)))) = 10"
    using assms(1) by (simp add: channel_ok_def closePending_def)
  obtain h where h: "LatencyHistogram_Record (word_of_int (later env - now env)) (RequestLatency (metrics (closePending c))) = ret h"
    using Record_total [OF n] by blast
  have p: "chans (closePending c) ch = Some (q\<lparr>chan_closed := True\<rparr>)"
    using assms(2) q by (auto simp: closePending_def ran_def)
  have i: "InvokeID a = i" if "buffered q = Some a" for a using assms(1) q that by (auto simp: channel_ok_def)
  show ?thesis
  proof (cases "buffered q")
    case None
    then show ?thesis using assms(3) p h q by (simp add: awaitResponse_def)
  next
    case (Some a)
    define e where "e = (closePending c)\<lparr>metrics := (metrics (closePending c))\<lparr>RequestLatency := h\<rparr>,
       chans := (chans (closePending c))(ch \<mapsto> q\<lparr>chan_closed := True, buffered := None\<rparr>)\<rparr>"
    obtain r d where "responseResult a e = ret (r, d)" using responseResult_total by blast
    moreover have "awaitResponse env ch (closePending c) = responseResult a e"
      using assms(3) p h q Some by (simp add: awaitResponse_def e_def)
    ultimately show ?thesis using q Some i by auto
  qed
qed

section \<open>Runs\<close>

text \<open>
  Runs in which at most \<open>n\<close> calls of \<open>Connect\<close> and \<open>Close\<close> that change something are under way at a time. With
  \<open>n = 1\<close> these calls never overlap each other; everything else still interleaves freely.
\<close>

definition calls :: "Protocol \<Rightarrow> nat" where
  "calls s = length (connectors s) + length (closers s)"

definition step_within :: "nat \<Rightarrow> Protocol \<Rightarrow> Protocol \<Rightarrow> bool" where
  "step_within n s t \<longleftrightarrow> step s t \<and> calls t \<le> n"

abbreviation serial_step :: "Protocol \<Rightarrow> Protocol \<Rightarrow> bool" where
  "serial_step \<equiv> step_within 1"

lemma step_within_mono: "(step_within m)\<^sup>*\<^sup>* s t \<Longrightarrow> m \<le> n \<Longrightarrow> (step_within n)\<^sup>*\<^sup>* s t"
  by (rule rtranclp_mono [THEN predicate2D, of "step_within m"]) (auto simp: step_within_def)

lemma within_step: "(step_within n)\<^sup>*\<^sup>* s t \<Longrightarrow> step\<^sup>*\<^sup>* s t"
  by (rule rtranclp_mono [THEN predicate2D, of "step_within n"]) (auto simp: step_within_def)

lemma within_ok: "(step_within n)\<^sup>*\<^sup>* (start tm os) s \<Longrightarrow> protocol_ok s"
  by (rule reachable_ok [OF within_step])

lemma run_from: "(step_within n)\<^sup>*\<^sup>* s0 s \<Longrightarrow> step s t \<Longrightarrow> calls t \<le> n \<Longrightarrow> (step_within n)\<^sup>*\<^sup>* s0 t"
  by (auto simp: step_within_def intro: rtranclp.rtrancl_into_rtrancl)

text \<open>A call of \<open>Connect\<close> up to its end and the receiver up to its first read, with nothing in between.\<close>

lemma connect_run:
  assumes "state (client s) = StateDisconnected" and "transport_Open nt (transport (client s)) = (None, t')"
    and "fresh s \<notin> cancelledCtx s" and "calls s < n"
  shows "(step_within n)\<^sup>*\<^sup>* s (s\<lparr>client := incMetric ConnectSuccesses_update (((incMetric ConnectAttempts_update
      ((client s)\<lparr>state := StateConnecting\<rparr>))\<lparr>transport := t'\<rparr>)\<lparr>state := StateConnected\<rparr>),
    receivers := Reading (fresh s + 1) # receivers s, receiverCtx := Some (fresh s), receiverDone := Some (fresh s + 1),
    fresh := fresh s + 2\<rparr>)"
proof -
  let ?c1 = "incMetric ConnectAttempts_update ((client s)\<lparr>state := StateConnecting\<rparr>)" and ?cs = "connectors s"
  let ?c2 = "?c1\<lparr>transport := t'\<rparr>"
  let ?c3 = "incMetric ConnectSuccesses_update (?c2\<lparr>state := StateConnected\<rparr>)"
  define s1 where "s1 = s\<lparr>client := ?c1, connectors := Opening # ?cs\<rparr>"
  define s2 where "s2 = s\<lparr>client := ?c2, connectors := Opened # ?cs\<rparr>"
  define s3 where "s3 = s2\<lparr>receiverCtx := Some (fresh s), fresh := fresh s + 1, connectors := CtxMade # ?cs\<rparr>"
  define s4 where "s4 = s3\<lparr>receiverDone := Some (fresh s + 1), fresh := fresh s + 1 + 1, connectors := DoneMade # ?cs\<rparr>"
  define s5 where "s5 = s4\<lparr>receivers := Spawned # receivers s, connectors := ReceiverMade # ?cs\<rparr>"
  define s6 where "s6 = s5\<lparr>client := ?c3, connectors := ?cs\<rparr>"
  define s7 where "s7 = s6\<lparr>receivers := Checking (fresh s + 1) # receivers s\<rparr>"
  define s8 where "s8 = s7\<lparr>receivers := Reading (fresh s + 1) # receivers s\<rparr>"
  note defs = s1_def s2_def s3_def s4_def s5_def s6_def s7_def s8_def
  have st: "step s s1" "step s1 s2" "step s2 s3" "step s3 s4" "step s4 s5" "step s5 s6" "step s6 s7" "step s7 s8"
  proof -
    show "step s s1" unfolding s1_def by (rule by_connect [OF connect_cas [OF assms(1)]])
    show "step s1 s2" using by_connect [OF connect_open [of s1 "[]" ?cs nt None t']] assms(2) by (simp add: defs)
    show "step s2 s3" using by_connect [OF connect_ctx [of s2 "[]" ?cs]] by (simp add: defs)
    show "step s3 s4" using by_connect [OF connect_done [of s3 "[]" ?cs]] by (simp add: defs)
    show "step s4 s5" using by_connect [OF connect_go [of s4 "[]" ?cs]] by (simp add: defs)
    show "step s5 s6" using by_connect [OF connect_stores [of s5 "[]" ?cs]] by (simp add: defs)
    show "step s6 s7" using by_receiver [OF receiver_starts [of s6 "[]" "receivers s" "fresh s + 1"]] by (simp add: defs)
    show "step s7 s8"
      using by_receiver [OF receiver_goes_on [of s7 "[]" "fresh s + 1" "receivers s" "fresh s"]] assms(3) by (simp add: defs)
  qed
  have n: "calls s1 \<le> n" "calls s2 \<le> n" "calls s3 \<le> n" "calls s4 \<le> n" "calls s5 \<le> n" "calls s6 \<le> n" "calls s7 \<le> n" "calls s8 \<le> n"
    using assms(4) by (simp_all add: defs calls_def)
  have "(step_within n)\<^sup>*\<^sup>* s s8"
    by (rule run_from [OF run_from [OF run_from [OF run_from [OF run_from [OF run_from [OF run_from [OF run_from
        [OF rtranclp.rtrancl_refl]]]]]]]]) (fact st n)+
  moreover have "s8 = s\<lparr>client := ?c3, receivers := Reading (fresh s + 1) # receivers s, receiverCtx := Some (fresh s),
      receiverDone := Some (fresh s + 1), fresh := fresh s + 2\<rparr>" by (cases s) (simp add: defs)
  ultimately show ?thesis by simp
qed

text \<open>A request up to its wait.\<close>

lemma request_run:
  assumes "beginRequest (client s) = (iid, ch, c1)" and "conn (transport (client s)) = Some 7" and "calls s \<le> n"
  shows "(step_within n)\<^sup>*\<^sup>* s (s\<lparr>owner := (owner s)(ch \<mapsto> iid), client := countSent (requestPacket iid 12 []) (countRequest c1),
     requests := Request iid ch True # requests s\<rparr>)"
proof -
  define s1 where "s1 = s\<lparr>client := countRequest c1, requests := Request iid ch False # requests s, owner := (owner s)(ch \<mapsto> iid)\<rparr>"
  define s2 where "s2 = s1\<lparr>client := countSent (requestPacket iid 12 []) (client s1), requests := Request iid ch True # requests s\<rparr>"
  have t: "transport c1 = transport (client s)" using assms(1) by (auto simp: beginRequest_def nextInvokeID_def Let_def)
  have st1: "step s s1" unfolding s1_def by (rule by_request [OF request_begins [OF assms(1)]])
  have r: "requests s1 = [] @ Request iid ch False # requests s" by (simp add: s1_def)
  have "transport_Send good_net None 0 \<lparr>IP = [], Port = 0\<rparr> (requestPacket iid 12 []) (transport (client s1)) = None"
    using assms(2) by (simp add: s1_def t transport_Send_None_iff good_net_def)
  from by_request [OF request_sent [OF r this]] have st2: "step s1 s2" by (simp add: s2_def)
  have "calls s1 \<le> n" "calls s2 \<le> n" using assms(3) by (simp_all add: s2_def s1_def calls_def)
  then have "(step_within n)\<^sup>*\<^sup>* s s2" using run_from [OF run_from [OF rtranclp.rtrancl_refl st1] st2] by blast
  then show ?thesis by (simp add: s2_def s1_def)
qed

text \<open>The acknowledgement of a pending request arrives and is looked up.\<close>

lemma packet_run:
  assumes "receivers s = Reading d # rs" and "pending (client s) iid = Some ch" and "conn (transport (client s)) = Some 7"
    and "calls s \<le> n"
  shows "(step_within n)\<^sup>*\<^sup>* s (s\<lparr>receivers := Checking d # rs, client := incMetric ResponsesReceived_update
     (countReceived 1 (ackPacket iid 12 []) (client s)), handlers := handlers s @ [Sending ch (ackAPDU iid 12 [])]\<rparr>)"
proof -
  let ?k = "ackPacket iid 12 []" and ?a = "ackAPDU iid 12 []" and ?addr = "\<lparr>IP = [], Port = 0\<rparr>"
  define s1 where "s1 = s\<lparr>client := countReceived 1 ?k (client s), handlers := handlers s @ [Started ?k ?addr], receivers := Checking d # rs\<rparr>"
  define c2 where "c2 = incMetric ResponsesReceived_update (client s1)"
  define s2 where "s2 = s1\<lparr>client := c2, handlers := handlers s @ [Sending ch ?a]\<rparr>"
  have len: "length ?k \<le> 1500" by (simp add: ackPacket_def buildPacket_def EncodeBVLC_def EncodeNPDU_def PutUint16_def)
  have r: "receivers s = [] @ Reading d # rs" using assms(1) by simp
  have "transport_ReceiveWithTimeout (good_net\<lparr>net_ReadFromUDP := (\<lambda>_. Ok (?k, ?addr))\<rparr>) (100 * Millisecond) 1 (transport (client s)) = Ok (?k, ?addr)"
    using assms(3) len by (simp add: transport_ReceiveWithTimeout_def transport_Receive_def good_net_def)
  from by_receiver [OF receiver_packet [OF r this]] have st1: "step s s1" by (simp add: s1_def)
  obtain n' where "decodePacket ?k = ret (Some (?a, n'))" using decodePacket_ack by blast
  then have "handlePacket_lookup ?k ?addr (client s1) = ret (c2, Some (Sending ch ?a))"
    using assms(2) by (simp add: handlePacket_lookup_def lookupResponse_def Let_def ackAPDU_def c2_def s1_def)
  from by_handler [OF handler_lookup [OF _ this, of "handlers s" "[]"]] have st2: "step s1 s2" by (simp add: s2_def s1_def)
  have "calls s1 \<le> n" "calls s2 \<le> n" using assms(4) by (simp_all add: s2_def s1_def calls_def)
  then have "(step_within n)\<^sup>*\<^sup>* s s2" using run_from [OF run_from [OF rtranclp.rtrancl_refl st1] st2] by blast
  then show ?thesis by (simp add: s2_def s1_def c2_def)
qed

section \<open>Runs for the witnesses\<close>

definition quiet :: Env where
  "quiet = \<lparr>net = good_net, deadline = None, now = 0, later = 5, arrivals = [], closes = False, ctxFirst = False\<rparr>"

lemma example_connected:
  "\<exists>s. serial_step\<^sup>*\<^sup>* (start 0 []) s \<and> state (client s) = StateConnected \<and> conn (transport (client s)) = Some 7 \<and>
     \<not> closed (transport (client s)) \<and> handlers s = [] \<and> requests s = [] \<and> connectors s = [] \<and> closers s = [] \<and>
     receivers s = [Reading 1] \<and> receiverCtx s = Some 0 \<and> receiverDone s = Some 1 \<and> cancelledCtx s = {} \<and>
     closedDone s = {} \<and> fresh s = 2"
proof -
  obtain e t' where o: "transport_Open good_net (transport (client (start 0 []))) = (e, t')" by fastforce
  then have t': "e = None" "conn t' = Some 7" "\<not> closed t'"
    by (auto simp: start_def NewClient_def Let_def transport_Open_def good_net_def NewUDPTransport_def
        SetReadTimeout_def SetWriteTimeout_def defaultOptions_def)
  have "state (client (start 0 [])) = StateDisconnected" "fresh (start 0 []) \<notin> cancelledCtx (start 0 [])" "calls (start 0 []) < 1"
    by (simp_all add: start_def NewClient_def Let_def calls_def)
  note r = connect_run [OF this(1) o [unfolded t'(1)] this(2,3)]
  show ?thesis by (rule exI, rule conjI, rule r) (simp add: t', simp add: start_def)
qed

lemma example_sending:
  "\<exists>s iid ch. serial_step\<^sup>*\<^sup>* (start 0 []) s \<and> handlers s = [Sending ch (ackAPDU iid 12 [])] \<and> requests s = [Request iid ch True] \<and>
     pending (client s) iid = Some ch \<and> chans (client s) ch = Some \<lparr>buffered = None, chan_closed = False\<rparr> \<and>
     calls s = 0 \<and> state (client s) = StateConnected"
proof -
  obtain s0 where s0: "serial_step\<^sup>*\<^sup>* (start 0 []) s0" "state (client s0) = StateConnected" "conn (transport (client s0)) = Some 7"
    "handlers s0 = []" "requests s0 = []" "receivers s0 = [Reading 1]" "calls s0 = 0"
    using example_connected unfolding calls_def by fastforce
  obtain iid ch c1 where b: "beginRequest (client s0) = (iid, ch, c1)" by (cases "beginRequest (client s0)") auto
  have c1: "pending c1 iid = Some ch" "chans c1 ch = Some \<lparr>buffered = None, chan_closed = False\<rparr>"
    "transport c1 = transport (client s0)" "state c1 = StateConnected"
    using b s0(2) by (auto simp: beginRequest_def nextInvokeID_def Let_def)
  define s1 where "s1 = s0\<lparr>owner := (owner s0)(ch \<mapsto> iid), client := countSent (requestPacket iid 12 []) (countRequest c1),
     requests := Request iid ch True # requests s0\<rparr>"
  have r1: "serial_step\<^sup>*\<^sup>* s0 s1" unfolding s1_def by (rule request_run [OF b s0(3)]) (simp add: s0)
  have s1: "receivers s1 = Reading 1 # []" "pending (client s1) iid = Some ch" "conn (transport (client s1)) = Some 7" "calls s1 \<le> 1"
    using s0(7) by (simp_all add: s1_def s0 c1 calls_def)
  note r2 = packet_run [OF s1]
  show ?thesis
    by (rule exI, rule exI, rule exI, rule conjI, rule rtranclp_trans [OF s0(1) rtranclp_trans [OF r1 r2]])
       (use s0 c1 in \<open>simp add: s1_def calls_def\<close>)
qed

section \<open>Properties\<close>

text \<open>
  C2: Responses are delivered by their invoke identifier, in every interleaving of the goroutines, overlapping calls of
  \<open>Connect\<close> and \<open>Close\<close> included: if a waiting request takes an acknowledgement from its channel, the acknowledgement carries the
  invoke identifier the request was registered with, and no two requests under way share a channel. (The
  identifiers have 8 bits and are used again, so two requests under way that were given the same identifier are not told
  apart by it.)
\<close>

theorem responses_reach_their_request:
  assumes "step\<^sup>*\<^sup>* (start tm os) s" and "Request iid ch b \<in> set (requests s)"
    and "awaitResponse env ch (client s) = ret (Ok a, c')"
  shows "InvokeID a = iid \<and> distinct (map req_chan (requests s))"
proof -
  have ok: "channel_ok (client s) (owner s)" and r: "request_ok (client s) (owner s) (Request iid ch b)"
    and d: "distinct (map req_chan (requests s))"
    using reachable_ok [OF assms(1)] assms(2) by (auto simp: protocol_ok_def)
  with awaitResponse_channels [OF assms(3) ok] show ?thesis by (simp add: request_ok_def)
qed

theorem responses_reach_their_request_witness:
  "\<exists>s iid ch a c'. step\<^sup>*\<^sup>* (start 0 []) s \<and> Request iid ch True \<in> set (requests s) \<and>
     awaitResponse quiet ch (client s) = ret (Ok a, c') \<and> InvokeID a = iid"
proof -
  obtain s iid ch where s: "serial_step\<^sup>*\<^sup>* (start 0 []) s" "handlers s = [Sending ch (ackAPDU iid 12 [])]"
    "requests s = [Request iid ch True]" "chans (client s) ch = Some \<lparr>buffered = None, chan_closed = False\<rparr>"
    using example_sending by blast
  define t where "t = s\<lparr>client := (client s)\<lparr>chans := (chans (client s))(ch \<mapsto> \<lparr>buffered = Some (ackAPDU iid 12 []), chan_closed = False\<rparr>)\<rparr>,
      handlers := [] @ []\<rparr>"
  have "step s t" unfolding t_def
    by (rule by_handler [OF handler_send [where ch = ch and a = "ackAPDU iid 12 []"]]) (simp_all add: s chan_send_def)
  then have t: "step\<^sup>*\<^sup>* (start 0 []) t" using within_step [OF s(1)] by simp
  have "length (h_buckets (RequestLatency (metrics (client t)))) = 10"
    using reachable_ok [OF t] by (simp add: protocol_ok_def channel_ok_def)
  then obtain h where "LatencyHistogram_Record (word_of_int (later quiet - now quiet)) (RequestLatency (metrics (client t))) = ret h"
    using Record_total by blast
  then have "\<exists>c'. awaitResponse quiet ch (client t) = ret (Ok (ackAPDU iid 12 []), c')"
    by (simp add: awaitResponse_def t_def responseResult_def ackAPDU_def quiet_def)
  moreover have r: "Request iid ch True \<in> set (requests t)" by (simp add: t_def s)
  ultimately show ?thesis using t responses_reach_their_request [OF t r] by blast
qed

text \<open>
  C10: \<open>Close\<close> wakes every registered request: when the pending channels are closed, a request that is
  still waiting (and whose context is not the one the \<open>select\<close> picks) gets the response that was already
  delivered to its channel, with its own identifier, or \<open>ErrConnectionClosed\<close>; it does not go on waiting.
\<close>

theorem Close_wakes_pending_requests:
  assumes "step\<^sup>*\<^sup>* (start tm os) s" and "pending (client s) iid = Some ch" and "\<not> ctxFirst env"
  shows "\<exists>q r d. chans (client s) ch = Some q \<and> awaitResponse env ch (closePending (client s)) = ret (r, d) \<and>
           (case buffered q of None \<Rightarrow> r = Err ErrConnectionClosed
            | Some a \<Rightarrow> InvokeID a = iid \<and> (\<exists>e. responseResult a e = ret (r, d)))"
  using await_after_close [OF _ assms(2,3)] reachable_ok [OF assms(1)] unfolding protocol_ok_def by blast

theorem Close_wakes_pending_requests_witness:
  "\<exists>s iid ch d. step\<^sup>*\<^sup>* (start 0 []) s \<and> pending (client s) iid = Some ch \<and>
     awaitResponse quiet ch (closePending (client s)) = ret (Err ErrConnectionClosed, d)"
proof -
  obtain s iid ch where s: "serial_step\<^sup>*\<^sup>* (start 0 []) s" "pending (client s) iid = Some ch"
    "chans (client s) ch = Some \<lparr>buffered = None, chan_closed = False\<rparr>" using example_sending by blast
  have "\<not> ctxFirst quiet" by (simp add: quiet_def)
  from Close_wakes_pending_requests [OF within_step [OF s(1)] s(2) this] s within_step [OF s(1)] show ?thesis by auto
qed

end
