(* ===== verification/Client_Lifecycle.thy ===== *)
theory Client_Lifecycle
  imports Client_Protocol
begin

text \<open>
  Connecting and closing. In runs in which calls of \<open>Connect\<close> and \<open>Close\<close> do not overlap each other the client has one
  receiver or none, no packet handler panics, and \<open>Close\<close> ends; the invariant that shows it follows the
  calls statement by statement. Where the calls overlap, which the source does not exclude, a
  handler can panic and \<open>Close\<close> can wait for ever.
\<close>

section \<open>What the steps leave alone\<close>

definition same_link :: "Client \<Rightarrow> Client \<Rightarrow> bool" where
  "same_link c c' \<longleftrightarrow> state c' = state c \<and> transport c' = transport c"

lemma lookup_link:
  assumes "handlePacket_lookup data addr c = ret (c', h)"
  shows "same_link c c'"
proof -
  obtain r where r: "decodePacket data = ret r" using decodePacket_total by blast
  have iam: "same_link c d" if "handleIAm ps addr n (incMetric ResponsesReceived_update c) = ret d" for ps n d
    using that handleIAm_keeps [of ps addr n "incMetric ResponsesReceived_update c"]
    by (auto simp: same_link_def same_control_def)
  show ?thesis
    using assms iam
    by (cases r) (auto simp: handlePacket_lookup_def r Let_def lookupResponse_def handleUnconfirmedRequest_def
        handleCOVNotification_def same_link_def bind_eq_Some_conv split: if_splits)
qed

lemma await_link:
  assumes "awaitResponse env ch c = ret (r, c')"
  shows "same_link c c'"
proof -
  have rr: "same_link d d'" if "responseResult resp d = ret (x, d')" for resp d x d'
    using that by (auto simp: responseResult_def same_link_def bind_eq_Some_conv split: if_splits)
  show ?thesis
    using assms by (auto simp: awaitResponse_def Let_def bind_eq_Some_conv same_link_def split: if_splits option.splits
        dest!: rr [unfolded same_link_def])
qed

lemma request_link:
  "beginRequest c = (iid, ch, c') \<Longrightarrow> same_link c c'" "chan_send ch a c = ret c' \<Longrightarrow> same_link c c'" "same_link c (endRequest iid c)"
  by (auto simp: beginRequest_def nextInvokeID_def chan_send_def endRequest_def Let_def same_link_def
      split: option.splits if_splits)

text \<open>A handler or a request leaves the connection alone, and no handler comes from nothing.\<close>

definition same_control_state :: "Protocol \<Rightarrow> Protocol \<Rightarrow> bool" where
  "same_control_state s t \<longleftrightarrow> same_link (client s) (client t) \<and> receivers t = receivers s \<and> connectors t = connectors s \<and>
     closers t = closers s \<and> receiverCtx t = receiverCtx s \<and> receiverDone t = receiverDone s \<and>
     cancelledCtx t = cancelledCtx s \<and> closedDone t = closedDone s \<and> fresh t = fresh s \<and> (handlers s = [] \<longrightarrow> handlers t = [])"

lemma handler_control: "handler_step s t \<Longrightarrow> same_control_state s t"
  by (erule handler_stepE) (auto simp: same_control_state_def same_link_def dest: lookup_link request_link(2))

lemma request_control: "request_step s t \<Longrightarrow> same_control_state s t"
  by (erule request_stepE)
     (auto simp: same_control_state_def same_link_def endRequest_def dest!: request_link(1) await_link)

section \<open>Sockets\<close>

text \<open>A connected client has a socket, in every interleaving: \<open>Open\<close> comes first, and a socket is never given back.\<close>

definition socket_ok :: "Protocol \<Rightarrow> bool" where
  "socket_ok s \<longleftrightarrow>
     (state (client s) = StateConnected \<or> (\<exists>p \<in> set (connectors s). p \<noteq> Opening \<and> p \<noteq> OpenFailed) \<longrightarrow> conn (transport (client s)) \<noteq> None)"

lemma Open_keeps_socket: "transport_Open nt t = (e, t') \<Longrightarrow> conn t \<noteq> None \<or> e = None \<Longrightarrow> conn t' \<noteq> None"
  by (auto simp: transport_Open_def Let_def split: if_splits sum.splits)

lemma Close_keeps_socket [simp]: "conn (snd (transport_Close nt t)) = conn t"
  by (simp add: transport_Close_def split: option.split)

lemma step_keeps_socket:
  assumes "socket_ok s" and "step s t"
  shows "socket_ok t"
  using assms(2)
proof (cases rule: step.cases)
  case by_connect
  then show ?thesis
  proof (cases rule: connect_step.cases)
    case (connect_open cs cs' nt err t')
    then show ?thesis using assms(1) Open_keeps_socket [OF connect_open(3)] by (auto simp: socket_ok_def split: if_splits)
  qed (use assms(1) in \<open>auto simp: socket_ok_def\<close>)
next
  case by_receiver
  then show ?thesis using assms(1) by (auto simp: socket_ok_def elim!: receiver_stepE)
next
  case by_handler
  then show ?thesis using assms(1) handler_control by (auto simp: socket_ok_def same_control_state_def same_link_def)
next
  case by_request
  then show ?thesis using assms(1) request_control by (auto simp: socket_ok_def same_control_state_def same_link_def)
next
  case by_close
  then show ?thesis using assms(1) by (auto simp: socket_ok_def closePending_def elim!: close_stepE)
qed

lemma start_socket: "socket_ok (start tm os)"
  by (simp add: socket_ok_def start_def NewClient_def Let_def)

interpretation socket: transition_system "\<lambda>s. \<exists>tm os. s = start tm os" step socket_ok
  by unfold_locales (auto simp: start_socket intro: step_keeps_socket)

section \<open>The invariant of calls that do not overlap\<close>

text \<open>
  The context of the receiver is not cancelled, or it is; and the receiver is attached: the field \<open>receiverDone\<close> holds the
  channel it closes at its end, which is closed when there is no receiver any more. A receiver that was not
  cancelled has ended only because the transport is closed.
\<close>

definition live :: "Protocol \<Rightarrow> bool" where
  "live s \<longleftrightarrow> (case receiverCtx s of None \<Rightarrow> False | Some k \<Rightarrow> k \<notin> cancelledCtx s)"

definition told_to_stop :: "Protocol \<Rightarrow> bool" where
  "told_to_stop s \<longleftrightarrow> (case receiverCtx s of None \<Rightarrow> False | Some k \<Rightarrow> k \<in> cancelledCtx s)"

definition attached :: "Protocol \<Rightarrow> bool" where
  "attached s \<longleftrightarrow> (case receiverDone s of None \<Rightarrow> False | Some d \<Rightarrow>
     if d \<in> closedDone s then receivers s = [] \<and> (live s \<longrightarrow> closed (transport (client s)))
     else receivers s \<in> {[Spawned], [Checking d], [Reading d]})"

fun connect_ok :: "connect_at \<Rightarrow> Protocol \<Rightarrow> bool" where
  "connect_ok Opening s = (receivers s = [])"
| "connect_ok OpenFailed s = (receivers s = [])"
| "connect_ok Opened s = (receivers s = [])"
| "connect_ok CtxMade s = (receivers s = [] \<and> live s)"
| "connect_ok DoneMade s = (receivers s = [] \<and> live s \<and> (\<exists>d. receiverDone s = Some d \<and> d \<notin> closedDone s))"
| "connect_ok ReceiverMade s = (live s \<and> attached s)"

fun close_ok :: "close_at \<Rightarrow> Protocol \<Rightarrow> bool" where
  "close_ok Loaded s = (state (client s) = StateConnected \<and> live s \<and> attached s)"
| "close_ok Stored s = (state (client s) = StateDisconnected \<and> live s \<and> attached s)"
| "close_ok Cancelled s = (state (client s) = StateDisconnected \<and> told_to_stop s \<and> attached s)"
| "close_ok (Waiting d) s = (state (client s) = StateDisconnected \<and> told_to_stop s \<and> attached s \<and> d = receiverDone s)"
| "close_ok Stopped s = (state (client s) = StateDisconnected \<and> receivers s = [])"
| "close_ok Drained s = (state (client s) = StateDisconnected \<and> receivers s = [] \<and> handlers s = [])"
| "close_ok PendingClosed s = (state (client s) = StateDisconnected \<and> receivers s = [] \<and> handlers s = [])"

fun idle_ok :: "ConnectionState \<Rightarrow> Protocol \<Rightarrow> bool" where
  "idle_ok StateDisconnected s = (receivers s = [])"
| "idle_ok StateConnecting s = False"
| "idle_ok StateConnected s = (live s \<and> attached s)"

definition numbered :: "Protocol \<Rightarrow> bool" where
  "numbered s \<longleftrightarrow> (\<forall>k \<in> cancelledCtx s. k < fresh s) \<and> (\<forall>d \<in> closedDone s. d < fresh s) \<and>
     (\<forall>k. receiverCtx s = Some k \<longrightarrow> k < fresh s) \<and> (\<forall>d. receiverDone s = Some d \<longrightarrow> d < fresh s)"

definition phase_ok :: "Protocol \<Rightarrow> bool" where
  "phase_ok s \<longleftrightarrow>
     (case (connectors s, closers s) of
        ([], []) \<Rightarrow> idle_ok (state (client s)) s
      | ([p], []) \<Rightarrow> state (client s) = StateConnecting \<and> connect_ok p s
      | ([], [q]) \<Rightarrow> conn (transport (client s)) \<noteq> None \<and> close_ok q s
      | _ \<Rightarrow> False)"

lemma phase_cases:
  assumes "phase_ok s"
  obtains (idle) "connectors s = []" "closers s = []" "idle_ok (state (client s)) s"
  | (connect) p where "connectors s = [p]" "closers s = []" "state (client s) = StateConnecting" "connect_ok p s"
  | (close) q where "connectors s = []" "closers s = [q]" "conn (transport (client s)) \<noteq> None" "close_ok q s"
  using assms by (auto simp: phase_ok_def split: list.splits)

lemma attached_running:
  assumes "attached s" and "receivers s = rs @ r # rs'"
  shows "rs = [] \<and> rs' = [] \<and> (\<exists>d. receiverDone s = Some d \<and> d \<notin> closedDone s \<and> r \<in> {Spawned, Checking d, Reading d})"
  using assms by (auto simp: attached_def Cons_eq_append_conv append_eq_Cons_conv split: option.splits if_splits)

text \<open>A running receiver is attached.\<close>

lemma running_attached:
  assumes "phase_ok s" and "receivers s \<noteq> []"
  shows "attached s"
  using assms(1)
proof (cases rule: phase_cases)
  case idle
  then show ?thesis using assms(2) by (cases "state (client s)") auto
next
  case (connect p)
  then show ?thesis using assms(2) by (cases p) auto
next
  case (close q)
  then show ?thesis using assms(2) by (cases q) auto
qed

section \<open>One preservation lemma per kind of goroutine\<close>

lemma live_updates [simp]:
  "live (s\<lparr>client := c\<rparr>) = live s" "live (s\<lparr>handlers := hs\<rparr>) = live s" "live (s\<lparr>receivers := rs\<rparr>) = live s"
  "live (s\<lparr>connectors := cs\<rparr>) = live s" "live (s\<lparr>closers := qs\<rparr>) = live s" "live (s\<lparr>receiverDone := d\<rparr>) = live s"
  "live (s\<lparr>closedDone := ds\<rparr>) = live s" "live (s\<lparr>fresh := n\<rparr>) = live s"
  "told_to_stop (s\<lparr>client := c\<rparr>) = told_to_stop s" "told_to_stop (s\<lparr>handlers := hs\<rparr>) = told_to_stop s"
  "told_to_stop (s\<lparr>receivers := rs\<rparr>) = told_to_stop s" "told_to_stop (s\<lparr>closers := qs\<rparr>) = told_to_stop s"
  "told_to_stop (s\<lparr>closedDone := ds\<rparr>) = told_to_stop s"
  by (simp_all add: live_def told_to_stop_def cong: option.case_cong)

lemma one_call:
  assumes "phase_ok s" and "connectors s = cs @ p # cs'"
  shows "cs = [] \<and> cs' = [] \<and> closers s = [] \<and> state (client s) = StateConnecting \<and> connect_ok p s"
  using assms(1) by (cases rule: phase_cases) (use assms(2) in \<open>auto simp: Cons_eq_append_conv append_eq_Cons_conv\<close>)

lemma one_close:
  assumes "phase_ok s" and "closers s = cs @ q # cs'"
  shows "cs = [] \<and> cs' = [] \<and> connectors s = [] \<and> conn (transport (client s)) \<noteq> None \<and> close_ok q s"
  using assms(1) by (cases rule: phase_cases) (use assms(2) in \<open>auto simp: Cons_eq_append_conv append_eq_Cons_conv\<close>)

lemma no_call:
  assumes "phase_ok s" and "calls s = 0"
  shows "connectors s = [] \<and> closers s = [] \<and> idle_ok (state (client s)) s"
  using assms(1) by (cases rule: phase_cases) (use assms(2) in \<open>auto simp: calls_def\<close>)

lemma same_control_live:
  assumes "same_control_state s t"
  shows "live t = live s" "told_to_stop t = told_to_stop s" "attached t = attached s" "numbered t = numbered s"
  using assms by (simp_all add: same_control_state_def same_link_def live_def told_to_stop_def attached_def numbered_def cong: option.case_cong)

lemma same_control_phase:
  assumes "same_control_state s t" and "phase_ok s"
  shows "phase_ok t"
proof -
  note l = same_control_live [OF assms(1)]
  have e: "connectors t = connectors s" "closers t = closers s" "state (client t) = state (client s)"
    "transport (client t) = transport (client s)" "receivers t = receivers s" "receiverDone t = receiverDone s"
    "closedDone t = closedDone s" "handlers s = [] \<Longrightarrow> handlers t = []"
    using assms(1) by (auto simp: same_control_state_def same_link_def)
  from assms(2) show ?thesis
  proof (cases rule: phase_cases)
    case idle
    then show ?thesis by (cases "state (client s)") (simp_all add: phase_ok_def e l)
  next
    case (connect p)
    then show ?thesis by (cases p) (auto simp: phase_ok_def e l)
  next
    case (close q)
    then show ?thesis by (cases q) (auto simp: phase_ok_def e l)
  qed
qed

lemma connect_keeps_phase:
  assumes "phase_ok s" and "numbered s" and "socket_ok s" and "connect_step s t" and "calls t \<le> 1"
  shows "phase_ok t \<and> numbered t"
  using assms(4)
proof (cases rule: connect_step.cases)
  case connect_cas
  then have "calls s = 0" using assms(5) by (auto simp: calls_def)
  with no_call [OF assms(1)] connect_cas assms(2) show ?thesis by (simp add: phase_ok_def numbered_def)
next
  case (connect_ctx cs cs')
  have "fresh s \<notin> cancelledCtx s" using assms(2) by (auto simp: numbered_def)
  with one_call [OF assms(1) connect_ctx(2)] connect_ctx(1) assms(2) show ?thesis
    by (auto simp: phase_ok_def numbered_def live_def less_Suc_eq)
next
  case (connect_done cs cs')
  have "fresh s \<notin> closedDone s" using assms(2) by (auto simp: numbered_def)
  with one_call [OF assms(1) connect_done(2)] connect_done(1) assms(2) show ?thesis
    by (auto simp: phase_ok_def numbered_def less_Suc_eq)
next
  case (connect_go cs cs')
  with one_call [OF assms(1) connect_go(2)] assms(2) show ?thesis
    by (auto simp: phase_ok_def numbered_def attached_def split: option.splits if_splits)
next
  case (connect_stores cs cs')
  with one_call [OF assms(1) connect_stores(2)] assms(2) show ?thesis
    by (auto simp: phase_ok_def numbered_def attached_def split: option.splits if_splits)
next
  case (connect_open cs cs' nt err t')
  with one_call [OF assms(1) connect_open(2)] assms(2) show ?thesis by (auto simp: phase_ok_def numbered_def)
next
  case (connect_fails cs cs')
  with one_call [OF assms(1) connect_fails(2)] assms(2) show ?thesis by (auto simp: phase_ok_def numbered_def)
qed

text \<open>
  A step of the one receiver keeps the phase: only the receiver moves, or it ends and closes the channel it is attached to.
\<close>

lemma receiver_moves_phase:
  assumes "phase_ok s" and "receivers s \<noteq> []" and "attached t" and "live t = live s" "told_to_stop t = told_to_stop s"
    and "connectors t = connectors s" "closers t = closers s" "same_link (client s) (client t)" "receiverDone t = receiverDone s"
  shows "phase_ok t"
  using assms(1)
proof (cases rule: phase_cases)
  case idle
  then show ?thesis using assms(2-) by (cases "state (client s)") (simp_all add: phase_ok_def same_link_def)
next
  case (connect p)
  then show ?thesis using assms(2-) by (cases p) (simp_all add: phase_ok_def same_link_def)
next
  case (close q)
  then show ?thesis using assms(2-) by (cases q) (simp_all add: phase_ok_def same_link_def)
qed

lemma receiver_attached:
  assumes "attached s" and "receiver_step s t"
  shows "attached t"
  using assms(2)
proof (cases rule: receiver_step.cases)
  case (receiver_starts rs rs' d)
  with attached_running [OF assms(1) receiver_starts(2)] show ?thesis by (auto simp: attached_def)
next
  case (receiver_goes_on rs d rs' k)
  with attached_running [OF assms(1) receiver_goes_on(2)] show ?thesis by (auto simp: attached_def)
next
  case (receiver_cancelled rs d rs' k)
  with attached_running [OF assms(1) receiver_cancelled(2)] show ?thesis by (auto simp: attached_def live_def)
next
  case (receiver_packet rs d rs' nt tm data addr)
  with attached_running [OF assms(1) receiver_packet(2)] show ?thesis by (auto simp: attached_def)
next
  case (receiver_error rs d rs' nt tm err)
  with attached_running [OF assms(1) receiver_error(2)] show ?thesis by (auto simp: attached_def)
next
  case (receiver_closed rs d rs' nt tm err)
  with attached_running [OF assms(1) receiver_closed(2)] show ?thesis by (auto simp: attached_def transport_IsClosed_def)
qed

lemma receiver_keeps_phase:
  assumes "phase_ok s" and "numbered s" and "receiver_step s t"
  shows "phase_ok t \<and> numbered t"
proof
  have ne: "receivers s \<noteq> []" using assms(3) by (auto elim: receiver_stepE)
  have a: "attached s" by (rule running_attached [OF assms(1) ne])
  show "phase_ok t"
    by (rule receiver_moves_phase [OF assms(1) ne receiver_attached [OF a assms(3)]])
       (use assms(3) in \<open>auto simp: same_link_def elim!: receiver_stepE\<close>)
  have "d < fresh s" if "receivers s = rs @ r # rs'" "r = Checking d \<or> r = Reading d" for rs r rs' d
    using attached_running [OF a that(1)] that(2) assms(2) by (auto simp: numbered_def)
  with assms(2,3) show "numbered t" by (auto simp: numbered_def elim!: receiver_stepE)
qed

lemma close_keeps_phase:
  assumes "phase_ok s" and "numbered s" and "socket_ok s" and "close_step s t" and "calls t \<le> 1"
  shows "phase_ok t \<and> numbered t"
  using assms(4)
proof (cases rule: close_step.cases)
  case close_loads
  then have "calls s = 0" using assms(5) by (auto simp: calls_def)
  with no_call [OF assms(1)] have i: "connectors s = []" "closers s = []" "idle_ok (state (client s)) s" by auto
  then have "state (client s) = StateConnected" using close_loads(2) by (cases "state (client s)") auto
  with i close_loads(1) assms(2,3) show ?thesis by (auto simp: phase_ok_def numbered_def socket_ok_def attached_def split: option.splits if_splits)
next
  case (close_stores cs cs')
  with one_close [OF assms(1) close_stores(2)] assms(2) show ?thesis
    by (auto simp: phase_ok_def numbered_def attached_def split: option.splits if_splits)
next
  case (close_cancels cs cs' k)
  with one_close [OF assms(1) close_cancels(2)] assms(2) show ?thesis
    by (auto simp: phase_ok_def numbered_def live_def attached_def told_to_stop_def live_def split: option.splits if_splits)
next
  case (close_no_receiver cs cs')
  with one_close [OF assms(1) close_no_receiver(2)] assms(2) show ?thesis by (auto simp: live_def)
next
  case (close_waits cs cs')
  with one_close [OF assms(1) close_waits(2)] assms(2) show ?thesis
    by (auto simp: phase_ok_def numbered_def live_def attached_def told_to_stop_def live_def split: option.splits if_splits)
next
  case (close_resumes cs d cs')
  with one_close [OF assms(1) close_resumes(2)] assms(2) show ?thesis
    by (auto simp: phase_ok_def numbered_def attached_def split: option.splits if_splits)
next
  case (close_drained cs cs')
  with one_close [OF assms(1) close_drained(2)] assms(2) show ?thesis by (auto simp: phase_ok_def numbered_def)
next
  case (close_pending cs cs')
  with one_close [OF assms(1) close_pending(2)] assms(2) show ?thesis by (auto simp: phase_ok_def numbered_def closePending_def)
next
  case (close_transport cs cs' nt)
  with one_close [OF assms(1) close_transport(2)] assms(2) show ?thesis by (auto simp: phase_ok_def numbered_def)
qed

section \<open>Channels of running handlers stay open\<close>

fun handler_open :: "Client \<Rightarrow> handler \<Rightarrow> bool" where
  "handler_open c (Started _ _) = True"
| "handler_open c (Sending ch a) = (\<exists>q. chans c ch = Some q \<and> \<not> chan_closed q)"

definition handlers_open :: "Protocol \<Rightarrow> bool" where
  "handlers_open s \<longleftrightarrow> (\<forall>h \<in> set (handlers s). handler_open (client s) h)"

definition keeps_open :: "Client \<Rightarrow> Client \<Rightarrow> bool" where
  "keeps_open c c' \<longleftrightarrow> (\<forall>ch q. chans c ch = Some q \<longrightarrow> \<not> chan_closed q \<longrightarrow> (\<exists>q'. chans c' ch = Some q' \<and> \<not> chan_closed q'))"

lemma keeps_open_handler: "keeps_open c c' \<Longrightarrow> handler_open c h \<Longrightarrow> handler_open c' h"
  by (cases h) (auto simp: keeps_open_def)

lemma same_channels_keep_open: "same_channels c c' \<Longrightarrow> keeps_open c c'"
  by (simp add: same_channels_def keeps_open_def)

lemma chan_send_keeps_open: "chan_send ch a c = ret c' \<Longrightarrow> keeps_open c c'"
  by (auto simp: chan_send_def keeps_open_def split: option.splits if_splits)

lemma beginRequest_keeps_open: "beginRequest c = (iid, ch, c') \<Longrightarrow> keeps_open c (countRequest c')"
  by (auto simp: beginRequest_def nextInvokeID_def Let_def keeps_open_def)

lemma await_keeps_open:
  assumes "awaitResponse env ch c = ret (r, c')"
  shows "keeps_open c (endRequest iid c')"
proof -
  have rr: "chans d = chans d'" if "responseResult resp d' = ret (x, d)" for resp d' x d
    using that by (auto simp: responseResult_def bind_eq_Some_conv split: if_splits)
  show ?thesis
    using assms by (auto simp: keeps_open_def endRequest_def awaitResponse_def Let_def bind_eq_Some_conv
        split: if_splits option.splits dest!: rr)
qed

lemma handlers_open_kept:
  assumes "handlers_open s" and "keeps_open (client s) (client t) \<or> handlers s = []"
    and "\<And>h. h \<in> set (handlers t) \<Longrightarrow> h \<in> set (handlers s) \<or> (\<exists>d a. h = Started d a)"
  shows "handlers_open t"
  unfolding handlers_open_def
proof
  fix h assume h: "h \<in> set (handlers t)"
  show "handler_open (client t) h"
  proof (cases h)
    case (Sending ch a)
    then have "h \<in> set (handlers s)" using assms(3) [OF h] by auto
    then show ?thesis using assms(1,2) keeps_open_handler unfolding handlers_open_def by fastforce
  qed simp
qed

lemma request_keeps_open: "request_step s t \<Longrightarrow> keeps_open (client s) (client t) \<and> handlers t = handlers s"
  by (erule request_stepE)
     (auto simp: beginRequest_keeps_open await_keeps_open, auto simp: keeps_open_def endRequest_def)

lemma connect_keeps_open: "connect_step s t \<Longrightarrow> keeps_open (client s) (client t) \<and> handlers t = handlers s"
  by (erule connect_stepE) (auto simp: keeps_open_def)

lemma receiver_keeps_open:
  "receiver_step s t \<Longrightarrow> keeps_open (client s) (client t) \<and> (\<forall>h \<in> set (handlers t). h \<in> set (handlers s) \<or> (\<exists>d a. h = Started d a))"
  by (erule receiver_stepE) (auto simp: keeps_open_def)

lemma close_keeps_open:
  assumes "phase_ok s" and "close_step s t"
  shows "handlers t = handlers s \<and> (handlers s = [] \<or> keeps_open (client s) (client t))"
  using assms(2)
proof (cases rule: close_step.cases)
  case (close_pending cs cs')
  then show ?thesis using one_close [OF assms(1) close_pending(2)] by simp
qed (auto simp: keeps_open_def)

lemma handler_keeps_open:
  assumes "protocol_ok s" and "handlers_open s" and "handler_step s t"
  shows "handlers_open t"
  using assms(3)
proof (cases rule: handler_step.cases)
  case (handler_lookup hs data addr hs' c' h)
  have l: "same_channels (client s) c'" "\<And>x. h = Some x \<Longrightarrow> \<exists>a ch. x = Sending ch a \<and> pending (client s) (InvokeID a) = Some ch"
    using lookup_channels [OF handler_lookup(3)] by blast+
  have ok: "channel_ok (client s) (owner s)" using assms(1) by (simp add: protocol_ok_def)
  have "handler_open (client s) x" if hx: "h = Some x" for x
  proof -
    obtain a ch where "x = Sending ch a" "pending (client s) (InvokeID a) = Some ch" using l(2) [OF hx] by blast
    moreover from this have "\<exists>q. chans (client s) ch = Some q \<and> \<not> chan_closed q" using ok unfolding channel_ok_def by blast
    ultimately show ?thesis by simp
  qed
  moreover have "handler_open (client s) x \<Longrightarrow> handler_open c' x" for x
    by (rule keeps_open_handler [OF same_channels_keep_open [OF l(1)]])
  ultimately show ?thesis
    using assms(2) handler_lookup(1,2) by (cases h) (auto simp: handlers_open_def simp del: handler_open.simps)
next
  case (handler_send hs ch a hs' c')
  then show ?thesis
    using assms(2) keeps_open_handler [OF chan_send_keeps_open [OF handler_send(3)]]
    by (auto simp: handlers_open_def simp del: handler_open.simps)
next
  case (handler_recovers hs ch a hs')
  have "keeps_open (client s) (incMetric PanicsRecovered_update (client s))" by (simp add: keeps_open_def)
  then show ?thesis
    using assms(2) keeps_open_handler handler_recovers by (auto simp: handlers_open_def simp del: handler_open.simps)
qed

text \<open>The whole invariant of runs without overlapping calls.\<close>

definition serial_ok :: "Protocol \<Rightarrow> bool" where
  "serial_ok s \<longleftrightarrow> protocol_ok s \<and> socket_ok s \<and> phase_ok s \<and> numbered s \<and> handlers_open s"

lemma step_keeps_open:
  assumes "protocol_ok s" and "phase_ok s" and "handlers_open s" and "step s t"
  shows "handlers_open t"
  using assms(4)
proof (cases rule: step.cases)
  case by_connect
  from connect_keeps_open [OF this] show ?thesis by (intro handlers_open_kept [OF assms(3)]) simp_all
next
  case by_receiver
  from receiver_keeps_open [OF this] show ?thesis by (intro handlers_open_kept [OF assms(3)]) simp_all
next
  case by_handler
  then show ?thesis using handler_keeps_open [OF assms(1,3)] by blast
next
  case by_request
  from request_keeps_open [OF this] show ?thesis by (intro handlers_open_kept [OF assms(3)]) simp_all
next
  case by_close
  from close_keeps_open [OF assms(2) this] show ?thesis by (intro handlers_open_kept [OF assms(3)]) auto
qed

lemma step_keeps_phase:
  assumes "phase_ok s" and "numbered s" and "socket_ok s" and "step s t" and "calls t \<le> 1"
  shows "phase_ok t \<and> numbered t"
  using assms(4)
proof (cases rule: step.cases)
  case by_handler
  then show ?thesis using same_control_phase same_control_live(4) handler_control assms(1,2) by blast
next
  case by_request
  then show ?thesis using same_control_phase same_control_live(4) request_control assms(1,2) by blast
qed (use assms connect_keeps_phase receiver_keeps_phase close_keeps_phase in blast)+

lemma serial_keeps: "serial_ok s \<Longrightarrow> serial_step s t \<Longrightarrow> serial_ok t"
  unfolding serial_ok_def step_within_def
  using step_keeps step_keeps_socket step_keeps_phase step_keeps_open by blast

lemma start_serial: "serial_ok (start tm os)"
  using start_ok start_socket
  by (simp add: serial_ok_def phase_ok_def numbered_def handlers_open_def) (simp add: start_def NewClient_def Let_def)

interpretation serial: transition_system "\<lambda>s. \<exists>tm os. s = start tm os" serial_step serial_ok
  by unfold_locales (auto simp: start_serial intro: serial_keeps)

lemma serial_reachable: "serial_step\<^sup>*\<^sup>* (start tm os) s \<Longrightarrow> serial_ok s"
  using serial.reachable_inv by blast

section \<open>The work left to a Close\<close>

text \<open>
  A cancelled receiver that reads may still deliver one packet. The work that \<open>Close\<close> waits for, with its own
  statements: no step adds to it once the receiver is cancelled, and there is always a step that takes from it.
\<close>

fun receiver_work :: "receiver_at \<Rightarrow> nat" where
  "receiver_work Spawned = 2"
| "receiver_work (Checking _) = 1"
| "receiver_work (Reading _) = 4"

fun handler_work :: "handler \<Rightarrow> nat" where
  "handler_work (Started _ _) = 2"
| "handler_work (Sending _ _) = 1"

fun closer_work :: "close_at \<Rightarrow> nat" where
  "closer_work Loaded = 7"
| "closer_work Stored = 6"
| "closer_work Cancelled = 5"
| "closer_work (Waiting _) = 4"
| "closer_work Stopped = 3"
| "closer_work Drained = 2"
| "closer_work PendingClosed = 1"

definition shutdown_work :: "Protocol \<Rightarrow> nat" where
  "shutdown_work s = sum_list (map receiver_work (receivers s)) + sum_list (map handler_work (handlers s)) +
     sum_list (map closer_work (closers s))"

definition cancelling :: "close_at \<Rightarrow> bool" where
  "cancelling q \<longleftrightarrow> q \<noteq> Loaded \<and> q \<noteq> Stored"

lemma cancelling_stops:
  assumes "phase_ok s" and "closers s = [q]" and "cancelling q" and "receivers s \<noteq> []"
  shows "told_to_stop s"
  using one_close [OF assms(1), of "[]" q "[]"] assms(2-4) by (cases q) (auto simp: cancelling_def)

lemma handler_takes_work:
  assumes "handler_step s t"
  shows "shutdown_work t < shutdown_work s"
  using assms
proof (cases rule: handler_step.cases)
  case (handler_lookup hs data addr hs' c' h)
  then show ?thesis using lookup_channels [OF handler_lookup(3)] by (cases h) (auto simp: shutdown_work_def)
qed (simp_all add: shutdown_work_def)

lemma receiver_takes_work:
  assumes "receiver_step s t" and "told_to_stop s"
  shows "shutdown_work t < shutdown_work s"
  using assms by (auto simp: shutdown_work_def told_to_stop_def elim!: receiver_stepE)

lemma no_step_adds_work:
  assumes ok: "serial_ok s" and q: "closers s = [q]" "cancelling q" and st: "serial_step s t"
  shows "shutdown_work t \<le> shutdown_work s"
proof -
  have p: "phase_ok s" and c: "step s t" "calls t \<le> 1" using ok st by (auto simp: serial_ok_def step_within_def)
  have n: "connectors s = []" using one_close [OF p, of "[]" q "[]"] q(1) by simp
  from c(1) show ?thesis
  proof (cases rule: step.cases)
    case by_connect
    then show ?thesis using n q(1) c(2) by (auto simp: calls_def elim!: connect_stepE)
  next
    case by_receiver
    then have "receivers s \<noteq> []" by (auto elim!: receiver_stepE)
    from receiver_takes_work [OF by_receiver cancelling_stops [OF p q this]] show ?thesis by simp
  next
    case by_handler
    from handler_takes_work [OF this] show ?thesis by simp
  next
    case by_request
    then have "handlers t = handlers s" "receivers t = receivers s" "closers t = closers s"
      using request_keeps_open request_control by (auto simp: same_control_state_def)
    then show ?thesis by (simp add: shutdown_work_def)
  next
    case by_close
    then show ?thesis
      using q(1) c(2) by (auto simp: shutdown_work_def calls_def Cons_eq_append_conv append_eq_Cons_conv elim!: close_stepE)
  qed
qed

lemma handler_progress:
  assumes "handlers s \<noteq> []"
  shows "\<exists>t. handler_step s t"
proof -
  obtain h hs where hs: "handlers s = [] @ h # hs" using assms by (cases "handlers s") auto
  show ?thesis
  proof (cases h)
    case (Started data addr)
    obtain c' x where "handlePacket_lookup data addr (client s) = ret (c', x)" using handlePacket_lookup_total by blast
    from handler_lookup [OF hs [unfolded Started] this] show ?thesis by blast
  next
    case (Sending ch a)
    then show ?thesis
      using handler_send [OF hs [unfolded Sending]] handler_recovers [OF hs [unfolded Sending]]
      by (cases "chan_send ch a (client s)") blast+
  qed
qed

text \<open>A receiver that runs and is told to stop can go on: a read returns, at the latest at its deadline.\<close>

lemma receiver_progress:
  assumes "attached s" and "told_to_stop s" and "receivers s \<noteq> []"
  shows "\<exists>t. receiver_step s t \<and> connectors t = connectors s \<and> closers t = closers s"
proof -
  obtain r rs where "receivers s = [] @ r # rs" using assms(3) by (cases "receivers s") auto
  note rs = this attached_running [OF assms(1) this]
  obtain d where d: "receiverDone s = Some d" "d \<notin> closedDone s" "r \<in> {Spawned, Checking d, Reading d}" using rs(2) by blast
  obtain k where k: "receiverCtx s = Some k" "k \<in> cancelledCtx s" using assms(2) by (auto simp: told_to_stop_def split: option.splits)
  consider "r = Spawned" | "r = Checking d" | "r = Reading d" using d(3) by blast
  then show ?thesis
  proof cases
    case 1
    from receiver_starts [OF rs(1) [unfolded 1] d(1)] show ?thesis by fastforce
  next
    case 2
    from receiver_cancelled [OF rs(1) [unfolded 2] k d(2)] show ?thesis by fastforce
  next
    case 3
    let ?nt = "good_net\<lparr>net_SetDeadline := (\<lambda>_ _. Some (Plain ''failed''))\<rparr>"
    obtain err where e: "transport_ReceiveWithTimeout ?nt (100 * Millisecond) 0 (transport (client s)) = Err err" "\<not> is_net_timeout err"
      by (cases "conn (transport (client s))") (auto simp: transport_ReceiveWithTimeout_def transport_Receive_def wrap_error_def)
    show ?thesis
    proof (cases "transport_IsClosed (transport (client s))")
      case True
      from receiver_closed [OF rs(1) [unfolded 3] e True d(2)] show ?thesis by fastforce
    next
      case False
      from receiver_error [OF rs(1) [unfolded 3] e(1)] False show ?thesis by fastforce
    qed
  qed
qed

definition finished :: "Protocol \<Rightarrow> bool" where
  "finished s \<longleftrightarrow> closers s = [] \<and> receivers s = [] \<and> handlers s = [] \<and> transport_IsClosed (transport (client s))"

lemma Close_closes: "conn t \<noteq> None \<Longrightarrow> transport_IsClosed (snd (transport_Close nt t))"
  by (auto simp: transport_Close_def transport_IsClosed_def)

lemma close_progress:
  assumes ok: "serial_ok s" and q: "closers s = [q]" "cancelling q"
  shows "\<exists>t. serial_step s t \<and> shutdown_work t < shutdown_work s \<and> (finished t \<or> (\<exists>q'. closers t = [q'] \<and> cancelling q'))"
proof -
  have p: "phase_ok s" using ok by (simp add: serial_ok_def)
  have q': "closers s = [] @ q # []" using q by simp
  note c = one_close [OF p q']
  have own: "\<exists>t. serial_step s t \<and> shutdown_work t < shutdown_work s \<and> (finished t \<or> (\<exists>q'. closers t = [q'] \<and> cancelling q'))"
    if "close_step s t" "connectors t = []" "length (closers t) \<le> 1" "shutdown_work t < shutdown_work s"
      "finished t \<or> (\<exists>q'. closers t = [q'] \<and> cancelling q')" for t
    using that by_close [OF that(1)] by (auto simp: step_within_def calls_def intro!: exI [of _ t])
  have other: "\<exists>t. serial_step s t \<and> shutdown_work t < shutdown_work s \<and> (finished t \<or> (\<exists>q'. closers t = [q'] \<and> cancelling q'))"
    if "step s t" "shutdown_work t < shutdown_work s" "connectors t = connectors s" "closers t = closers s" for t
    using that c q by (auto simp: step_within_def calls_def intro!: exI [of _ t])
  show ?thesis
  proof (cases q)
    case Cancelled
    show ?thesis by (rule own [OF close_waits [OF q' [unfolded Cancelled]]]) (use c Cancelled q' in \<open>simp_all add: shutdown_work_def cancelling_def\<close>)
  next
    case (Waiting x)
    have a: "told_to_stop s" "attached s" "x = receiverDone s" using c Waiting by simp_all
    show ?thesis
    proof (cases "receivers s")
      case Nil
      then obtain d where d: "x = Some d" "d \<in> closedDone s" using a by (auto simp: attached_def split: option.splits if_splits)
      show ?thesis
        by (rule own [OF close_resumes [OF q' [unfolded Waiting d(1)] d(2)]]) (use c Waiting q' in \<open>simp_all add: shutdown_work_def cancelling_def\<close>)
    next
      case Cons
      then obtain t where t: "receiver_step s t" "connectors t = connectors s" "closers t = closers s"
        using receiver_progress [OF a(2,1)] by auto
      show ?thesis by (rule other [OF by_receiver [OF t(1)] receiver_takes_work [OF t(1) a(1)] t(2,3)])
    qed
  next
    case Stopped
    show ?thesis
    proof (cases "handlers s")
      case Nil
      show ?thesis by (rule own [OF close_drained [OF q' [unfolded Stopped] Nil]]) (use c Stopped q' in \<open>simp_all add: shutdown_work_def cancelling_def\<close>)
    next
      case Cons
      then obtain t where t: "handler_step s t" using handler_progress [of s] by auto
      show ?thesis
        by (rule other [OF by_handler [OF t] handler_takes_work [OF t]]) (use handler_control [OF t] in \<open>simp_all add: same_control_state_def\<close>)
    qed
  next
    case Drained
    show ?thesis by (rule own [OF close_pending [OF q' [unfolded Drained]]]) (use c Drained q' in \<open>simp_all add: shutdown_work_def cancelling_def\<close>)
  next
    case PendingClosed
    show ?thesis
      by (rule own [OF close_transport [OF q' [unfolded PendingClosed], of good_net]])
         (use c PendingClosed q' Close_closes in \<open>simp_all add: shutdown_work_def finished_def\<close>)
  qed (use q(2) in \<open>simp_all add: cancelling_def\<close>)
qed

lemma close_finishes:
  assumes "serial_ok s" and "closers s = [q]" and "cancelling q"
  shows "\<exists>t. serial_step\<^sup>*\<^sup>* s t \<and> finished t"
  using assms
proof (induction "shutdown_work s" arbitrary: s q rule: less_induct)
  case less
  obtain t where t: "serial_step s t" "shutdown_work t < shutdown_work s" "finished t \<or> (\<exists>q'. closers t = [q'] \<and> cancelling q')"
    using close_progress [OF less.prems] by blast
  have "\<exists>u. serial_step\<^sup>*\<^sup>* t u \<and> finished u"
    using t(3) less.hyps [OF t(2) serial_keeps [OF less.prems(1) t(1)]] by blast
  then show ?case using t(1) by (meson converse_rtranclp_into_rtranclp)
qed

section \<open>Overlapping calls\<close>

text \<open>A \<open>Close\<close> up to the wait for the handlers, with nothing in between.\<close>

lemma close_run:
  assumes "state (client s) \<noteq> StateDisconnected" and "connectors s = []" and "closers s = []" and "handlers s = []"
    and "receivers s = [Reading d]" and "receiverDone s = Some d" and "d \<notin> closedDone s" and "receiverCtx s = Some k"
    and "\<not> closed (transport (client s))" and "1 \<le> n"
  shows "(step_within n)\<^sup>*\<^sup>* s (s\<lparr>client := incMetric Disconnects_update ((client s)\<lparr>state := StateDisconnected\<rparr>),
    cancelledCtx := insert k (cancelledCtx s), receivers := [], closedDone := insert d (closedDone s), closers := [Drained]\<rparr>)"
proof -
  let ?c = "incMetric Disconnects_update ((client s)\<lparr>state := StateDisconnected\<rparr>)"
  let ?nt = "good_net\<lparr>net_SetDeadline := (\<lambda>_ _. Some (Plain ''failed''))\<rparr>"
  define s1 where "s1 = s\<lparr>closers := [Loaded]\<rparr>"
  define s2 where "s2 = s\<lparr>client := ?c, closers := [Stored]\<rparr>"
  define s3 where "s3 = s\<lparr>client := ?c, cancelledCtx := insert k (cancelledCtx s), closers := [Cancelled]\<rparr>"
  define s4 where "s4 = s\<lparr>client := ?c, cancelledCtx := insert k (cancelledCtx s), closers := [Waiting (Some d)]\<rparr>"
  define s5 where "s5 = s4\<lparr>receivers := [Checking d]\<rparr>"
  define s6 where "s6 = s4\<lparr>receivers := [], closedDone := insert d (closedDone s)\<rparr>"
  define s7 where "s7 = s6\<lparr>closers := [Stopped]\<rparr>"
  define s8 where "s8 = s6\<lparr>closers := [Drained]\<rparr>"
  note defs = s1_def s2_def s3_def s4_def s5_def s6_def s7_def s8_def
  have st: "step s s1" "step s1 s2" "step s2 s3" "step s3 s4" "step s4 s5" "step s5 s6" "step s6 s7" "step s7 s8"
  proof -
    show "step s s1" using by_close [OF close_loads [OF assms(1)]] by (simp add: s1_def assms)
    show "step s1 s2" using by_close [OF close_stores [of s1 "[]" "[]"]] by (simp add: defs)
    show "step s2 s3" using by_close [OF close_cancels [of s2 "[]" "[]" k]] by (simp add: defs assms)
    show "step s3 s4" using by_close [OF close_waits [of s3 "[]" "[]"]] by (simp add: defs assms)
    have "\<exists>err. transport_ReceiveWithTimeout ?nt (100 * Millisecond) 0 (transport (client s4)) = Err err"
      by (cases "conn (transport (client s4))") (auto simp: transport_ReceiveWithTimeout_def transport_Receive_def)
    moreover have "receivers s4 = [] @ Reading d # []" "\<not> transport_IsClosed (transport (client s4))"
      using assms by (simp_all add: defs transport_IsClosed_def)
    ultimately show "step s4 s5" using by_receiver [OF receiver_error [of s4 "[]" d "[]"]] by (auto simp: s5_def)
    show "step s5 s6" using by_receiver [OF receiver_cancelled [of s5 "[]" d "[]" k]] assms by (simp add: defs)
    show "step s6 s7" using by_close [OF close_resumes [of s6 "[]" d "[]"]] by (simp add: defs)
    show "step s7 s8" using by_close [OF close_drained [of s7 "[]" "[]"]] assms(4) by (simp add: defs)
  qed
  have n: "calls s1 \<le> n" "calls s2 \<le> n" "calls s3 \<le> n" "calls s4 \<le> n" "calls s5 \<le> n" "calls s6 \<le> n" "calls s7 \<le> n" "calls s8 \<le> n"
    using assms(2,10) by (simp_all add: defs calls_def)
  have "(step_within n)\<^sup>*\<^sup>* s s8"
    by (rule run_from [OF run_from [OF run_from [OF run_from [OF run_from [OF run_from [OF run_from [OF run_from
        [OF rtranclp.rtrancl_refl]]]]]]]]) (fact st n)+
  then show ?thesis by (simp add: defs)
qed

text \<open>
  A \<open>Close\<close> that has waited for the handlers, a \<open>Connect\<close> that starts a receiver on the same socket, a packet whose channel
  the new handler looks up, and the \<open>Close\<close> goes on and closes that channel.
\<close>

lemma overlap_panics:
  "\<exists>s ch a. (step_within 2)\<^sup>*\<^sup>* (start 0 []) s \<and> Sending ch a \<in> set (handlers s) \<and> chan_send ch a (client s) = panic"
proof -
  obtain s0 where s0: "serial_step\<^sup>*\<^sup>* (start 0 []) s0" "state (client s0) = StateConnected" "conn (transport (client s0)) = Some 7"
     "\<not> closed (transport (client s0))" "handlers s0 = []" "connectors s0 = []" "closers s0 = []"
     "receivers s0 = [Reading 1]" "receiverCtx s0 = Some 0" "receiverDone s0 = Some 1" "cancelledCtx s0 = {}"
     "closedDone s0 = {}" "fresh s0 = 2" using example_connected by blast
  obtain iid ch c1 where b: "beginRequest (client s0) = (iid, ch, c1)" by (cases "beginRequest (client s0)") auto
  have c1: "pending c1 iid = Some ch" "chans c1 ch = Some \<lparr>buffered = None, chan_closed = False\<rparr>"
    "transport c1 = transport (client s0)" "state c1 = StateConnected"
    using b s0(2) by (auto simp: beginRequest_def nextInvokeID_def Let_def)
  define s1 where "s1 = s0\<lparr>owner := (owner s0)(ch \<mapsto> iid), client := countSent (requestPacket iid 12 []) (countRequest c1),
     requests := Request iid ch True # requests s0\<rparr>"
  have r1: "(step_within 2)\<^sup>*\<^sup>* s0 s1" unfolding s1_def by (rule request_run [OF b s0(3)]) (simp add: s0 calls_def)
  define s2 where "s2 = s1\<lparr>client := incMetric Disconnects_update ((client s1)\<lparr>state := StateDisconnected\<rparr>),
    cancelledCtx := insert 0 (cancelledCtx s1), receivers := [], closedDone := insert 1 (closedDone s1), closers := [Drained]\<rparr>"
  have r2: "(step_within 2)\<^sup>*\<^sup>* s1 s2" unfolding s2_def by (rule close_run) (simp_all add: s1_def s0 c1)
  have o: "transport_Open good_net (transport (client s2)) = (None, transport (client s2))"
    by (simp add: transport_Open_def s2_def s1_def c1 s0)
  define s3 where "s3 = s2\<lparr>client := incMetric ConnectSuccesses_update (((incMetric ConnectAttempts_update
      ((client s2)\<lparr>state := StateConnecting\<rparr>))\<lparr>transport := transport (client s2)\<rparr>)\<lparr>state := StateConnected\<rparr>),
    receivers := Reading (fresh s2 + 1) # receivers s2, receiverCtx := Some (fresh s2), receiverDone := Some (fresh s2 + 1),
    fresh := fresh s2 + 2\<rparr>"
  have r3: "(step_within 2)\<^sup>*\<^sup>* s2 s3"
    unfolding s3_def by (rule connect_run [OF _ o]) (simp_all add: s2_def s1_def s0 calls_def)
  have s3: "receivers s3 = Reading 3 # []" "pending (client s3) iid = Some ch" "conn (transport (client s3)) = Some 7" "calls s3 \<le> 2"
    by (simp_all add: s3_def s2_def s1_def s0 c1 calls_def)
  define s4 where "s4 = s3\<lparr>receivers := [Checking 3], client := incMetric ResponsesReceived_update
     (countReceived 1 (ackPacket iid 12 []) (client s3)), handlers := handlers s3 @ [Sending ch (ackAPDU iid 12 [])]\<rparr>"
  have r4: "(step_within 2)\<^sup>*\<^sup>* s3 s4" unfolding s4_def by (rule packet_run [OF s3])
  have q: "closers s4 = [] @ Drained # []" by (simp add: s4_def s3_def s2_def)
  define s5 where "s5 = s4\<lparr>client := closePending (client s4), closers := [] @ PendingClosed # []\<rparr>"
  have "step s4 s5" unfolding s5_def by (rule by_close [OF close_pending [OF q]])
  moreover have "calls s5 \<le> 2" by (simp add: s5_def s4_def s3_def s2_def s1_def s0 calls_def)
  ultimately have "(step_within 2)\<^sup>*\<^sup>* (start 0 []) s5"
    using step_within_mono [OF s0(1), of 2] r1 r2 r3 r4 run_from by (meson one_le_numeral rtranclp_trans)
  moreover have "Sending ch (ackAPDU iid 12 []) \<in> set (handlers s5)" by (simp add: s5_def s4_def)
  moreover have "chan_send ch (ackAPDU iid 12 []) (client s5) = panic"
  proof -
    have "pending (client s4) iid = Some ch" "chans (client s4) ch = Some \<lparr>buffered = None, chan_closed = False\<rparr>"
      by (simp_all add: s4_def s3_def s2_def s1_def c1)
    then have "chans (client s5) ch = Some \<lparr>buffered = None, chan_closed = True\<rparr>"
      by (auto simp: s5_def closePending_def ran_def)
    then show ?thesis by (simp add: chan_send_def)
  qed
  ultimately show ?thesis by blast
qed

text \<open>
  A \<open>Close\<close> that waits for a receiver nobody has cancelled. As long as no other \<open>Close\<close> is called, nothing ends that
  receiver.
\<close>

definition stuck :: "nat \<Rightarrow> Protocol \<Rightarrow> bool" where
  "stuck d s \<longleftrightarrow> closers s = [Waiting (Some d)] \<and> d \<notin> closedDone s \<and> connectors s = [] \<and> live s \<and>
     state (client s) = StateConnected \<and> \<not> closed (transport (client s))"

lemma stuck_step:
  assumes "stuck d s" and "step s t" and "length (closers t) \<le> 1"
  shows "stuck d t"
proof -
  have same: "stuck d t" if "same_control_state s t"
    using assms(1) that same_control_live(1) [OF that] by (simp add: stuck_def same_control_state_def same_link_def)
  show ?thesis
    using assms(2)
  proof (cases rule: step.cases)
    case by_connect
    then show ?thesis using assms(1) by (auto simp: stuck_def elim!: connect_stepE)
  next
    case by_receiver
    then show ?thesis
      using assms(1) by (auto simp: stuck_def live_def transport_IsClosed_def elim!: receiver_stepE split: option.splits)
  next
    case by_handler
    then show ?thesis using same handler_control by blast
  next
    case by_request
    then show ?thesis using same request_control by blast
  next
    case by_close
    then show ?thesis using assms(1,3) by (auto simp: stuck_def append_eq_Cons_conv Cons_eq_append_conv elim!: close_stepE)
  qed
qed

lemma stuck_run: "(\<lambda>s t. step s t \<and> length (closers t) \<le> 1)\<^sup>*\<^sup>* s t \<Longrightarrow> stuck d s \<Longrightarrow> stuck d t"
  by (induction rule: rtranclp_induct) (auto intro: stuck_step)

text \<open>\<open>Connect\<close> replaces the context and the done channel after \<open>Close\<close> has cancelled and before it evaluates \<open>c.receiverDone\<close>.\<close>

lemma overlap_sticks: "\<exists>s d. (step_within 2)\<^sup>*\<^sup>* (start 0 []) s \<and> stuck d s"
proof -
  obtain s0 where s0: "serial_step\<^sup>*\<^sup>* (start 0 []) s0" "state (client s0) = StateConnected" "conn (transport (client s0)) = Some 7"
     "\<not> closed (transport (client s0))" "connectors s0 = []" "closers s0 = []" "receiverCtx s0 = Some 0"
     "cancelledCtx s0 = {}" "closedDone s0 = {}" "fresh s0 = 2" using example_connected by blast
  let ?c = "incMetric Disconnects_update ((client s0)\<lparr>state := StateDisconnected\<rparr>)"
  define s1 where "s1 = s0\<lparr>closers := [Loaded]\<rparr>"
  define s2 where "s2 = s0\<lparr>client := ?c, closers := [Stored]\<rparr>"
  define s3 where "s3 = s0\<lparr>client := ?c, cancelledCtx := {0}, closers := [Cancelled]\<rparr>"
  note defs = s1_def s2_def s3_def
  have st: "step s0 s1" "step s1 s2" "step s2 s3"
  proof -
    show "step s0 s1" using by_close [OF close_loads [of s0]] by (simp add: s1_def s0)
    show "step s1 s2" using by_close [OF close_stores [of s1 "[]" "[]"]] by (simp add: defs)
    show "step s2 s3" using by_close [OF close_cancels [of s2 "[]" "[]" 0]] by (simp add: defs s0)
  qed
  have n: "calls s1 \<le> 2" "calls s2 \<le> 2" "calls s3 \<le> 2" by (simp_all add: defs s0 calls_def)
  have r3: "(step_within 2)\<^sup>*\<^sup>* (start 0 []) s3"
    by (rule run_from [OF run_from [OF run_from [OF step_within_mono [OF s0(1)]]]]) (fact st n | simp)+
  have o: "transport_Open good_net (transport (client s3)) = (None, transport (client s3))"
    by (simp add: transport_Open_def s3_def s0)
  define s4 where "s4 = s3\<lparr>client := incMetric ConnectSuccesses_update (((incMetric ConnectAttempts_update
      ((client s3)\<lparr>state := StateConnecting\<rparr>))\<lparr>transport := transport (client s3)\<rparr>)\<lparr>state := StateConnected\<rparr>),
    receivers := Reading (fresh s3 + 1) # receivers s3, receiverCtx := Some (fresh s3), receiverDone := Some (fresh s3 + 1),
    fresh := fresh s3 + 2\<rparr>"
  have r4: "(step_within 2)\<^sup>*\<^sup>* s3 s4" unfolding s4_def by (rule connect_run [OF _ o]) (simp_all add: s3_def s0 calls_def)
  have q: "closers s4 = [] @ Cancelled # []" by (simp add: s4_def s3_def)
  define s5 where "s5 = s4\<lparr>closers := [] @ Waiting (receiverDone s4) # []\<rparr>"
  have "step s4 s5" unfolding s5_def by (rule by_close [OF close_waits [OF q]])
  moreover have "calls s5 \<le> 2" by (simp add: s5_def s4_def s3_def s0 calls_def)
  ultimately have "(step_within 2)\<^sup>*\<^sup>* (start 0 []) s5" using rtranclp_trans [OF r3 r4] run_from by blast
  moreover have "stuck 3 s5" by (simp add: stuck_def s5_def s4_def s3_def s0 live_def)
  ultimately show ?thesis by blast
qed

text \<open>A \<open>Close\<close> that is not that far yet can store the state and cancel the receiver.\<close>

lemma close_cancels_run:
  assumes "serial_ok s" and "closers s = [q]"
  shows "\<exists>t r. serial_step\<^sup>*\<^sup>* s t \<and> closers t = [r] \<and> cancelling r \<and> serial_ok t"
proof -
  have stored: "\<exists>t r. serial_step\<^sup>*\<^sup>* s t \<and> closers t = [r] \<and> cancelling r \<and> serial_ok t" if "serial_ok s" "closers s = [Stored]" for s
  proof -
    have q: "closers s = [] @ Stored # []" using that(2) by simp
    have c: "connectors s = []" "live s" using one_close [OF _ q] that(1) by (auto simp: serial_ok_def)
    then obtain k where "receiverCtx s = Some k" by (auto simp: live_def split: option.splits)
    note st = by_close [OF close_cancels [OF q this]]
    define t where "t = s\<lparr>cancelledCtx := insert k (cancelledCtx s), closers := [] @ Cancelled # []\<rparr>"
    have "serial_step s t" using st c(1) by (simp add: step_within_def calls_def t_def)
    moreover have "closers t = [Cancelled]" "cancelling Cancelled" by (simp_all add: t_def cancelling_def)
    ultimately show ?thesis using serial_keeps [OF that(1)] by blast
  qed
  have loaded: "\<exists>t. serial_step s t \<and> closers t = [Stored]" if "closers s = [Loaded]"
  proof -
    have q: "closers s = [] @ Loaded # []" using that by simp
    have "connectors s = []" using one_close [OF _ q] assms(1) by (simp add: serial_ok_def)
    with by_close [OF close_stores [OF q]] show ?thesis by (force simp: step_within_def calls_def)
  qed
  consider "q = Loaded" | "q = Stored" | "cancelling q" by (auto simp: cancelling_def)
  then show ?thesis
  proof cases
    case 1
    then obtain t where t: "serial_step s t" "closers t = [Stored]" using loaded assms(2) by blast
    with stored [OF serial_keeps [OF assms(1) t(1)] t(2)] show ?thesis by (meson converse_rtranclp_into_rtranclp)
  next
    case 2
    then show ?thesis using stored assms by blast
  next
    case 3
    then show ?thesis using assms by blast
  qed
qed

text \<open>What the phases say of the connection state.\<close>

lemma phase_connecting:
  assumes "phase_ok s"
  shows "state (client s) = StateConnecting \<longleftrightarrow> connectors s \<noteq> []"
  using assms
proof (cases rule: phase_cases)
  case idle
  then show ?thesis by (cases "state (client s)") auto
next
  case (close q)
  then show ?thesis by (cases q) auto
qed auto

lemma phase_closing:
  assumes "phase_ok s" and "q \<in> set (closers s)" and "q \<noteq> Loaded"
  shows "state (client s) = StateDisconnected"
  using assms(1)
proof (cases rule: phase_cases)
  case (close q')
  then show ?thesis using assms(2,3) by (cases q') auto
qed (use assms(2) in auto)

lemma phase_receivers: "phase_ok s \<Longrightarrow> length (receivers s) \<le> 1"
proof (cases "receivers s")
  case (Cons r rs)
  assume "phase_ok s"
  then have "attached s" using Cons by (simp add: running_attached)
  then show ?thesis by (auto simp: attached_def split: option.splits if_splits)
qed simp

section \<open>Properties\<close>

text \<open>
  C1: No packet handler panics, as long as calls of \<open>Connect\<close> and \<open>Close\<close> do not overlap each other (at most one call that
  changes something is under way at a time). Receivers, packet handlers, requests and the statements of that one call
  interleave freely: a handler that has not looked at its packet yet gets through \<open>handlePacket\<close>, and one that has looked
  up a channel finds it open when it sends, although the lock is released in between. This is what the waiting of
  \<open>Close\<close> for the handlers is for. Nor does the receiver, whose panic nothing would recover, close its done channel twice.
\<close>

theorem handlers_never_panic:
  assumes "serial_step\<^sup>*\<^sup>* (start tm os) s"
  shows "(\<forall>h \<in> set (handlers s). \<exists>c'. (case h of Started data addr \<Rightarrow> handlePacket data addr (client s)
            | Sending ch a \<Rightarrow> chan_send ch a (client s)) = ret c') \<and>
         (\<forall>d. Checking d \<in> set (receivers s) \<or> Reading d \<in> set (receivers s) \<longrightarrow> d \<notin> closedDone s)"
proof (intro conjI ballI allI impI)
  have ok: "protocol_ok s" "phase_ok s" "handlers_open s" using serial_reachable [OF assms] by (simp_all add: serial_ok_def)
  have c: "client_ok (client s)" using ok(1) channel_ok_client_ok by (auto simp: protocol_ok_def)
  fix h assume "h \<in> set (handlers s)"
  then have "handler_open (client s) h" using ok(3) by (simp add: handlers_open_def)
  then show "\<exists>c'. (case h of Started data addr \<Rightarrow> handlePacket data addr (client s) | Sending ch a \<Rightarrow> chan_send ch a (client s)) = ret c'"
    using handlePacket_keeps [OF c] by (cases h) (fastforce, auto simp: chan_send_def)
next
  have p: "phase_ok s" using serial_reachable [OF assms] by (simp add: serial_ok_def)
  fix d assume "Checking d \<in> set (receivers s) \<or> Reading d \<in> set (receivers s)"
  moreover from this have "receivers s \<noteq> []" by auto
  then have "attached s" by (rule running_attached [OF p])
  ultimately show "d \<notin> closedDone s" by (auto simp: attached_def split: option.splits if_splits)
qed

theorem handlers_never_panic_witness:
  "\<exists>s ch a c'. serial_step\<^sup>*\<^sup>* (start 0 []) s \<and> Sending ch a \<in> set (handlers s) \<and> chan_send ch a (client s) = ret c'"
proof -
  obtain s iid ch where "serial_step\<^sup>*\<^sup>* (start 0 []) s" "handlers s = [Sending ch (ackAPDU iid 12 [])]" using example_sending by blast
  then show ?thesis using handlers_never_panic [of 0 "[]" s] by fastforce
qed

text \<open>
  C9: \<open>Close\<close> does not get stuck, as long as no other call of \<open>Connect\<close> or \<open>Close\<close> overlaps it. From every state in which a
  \<open>Close\<close> is under way it can run to its end, with no receiver and no handler left and the transport closed. Once
  it has cancelled the receiver this needs no luck: no step of any goroutine adds to the work it waits for (a
  cancelled receiver delivers at most the packet it is reading), and as long as it is under way some step takes from that work.
\<close>

theorem Close_can_finish:
  assumes "serial_step\<^sup>*\<^sup>* (start tm os) s" and "closers s = [q]"
  shows "(\<exists>t. serial_step\<^sup>*\<^sup>* s t \<and> closers t = [] \<and> receivers t = [] \<and> handlers t = [] \<and> transport_IsClosed (transport (client t))) \<and>
         (q \<noteq> Loaded \<and> q \<noteq> Stored \<longrightarrow>
            (\<forall>t. serial_step s t \<longrightarrow> shutdown_work t \<le> shutdown_work s) \<and> (\<exists>t. serial_step s t \<and> shutdown_work t < shutdown_work s))"
proof
  note ok = serial_reachable [OF assms(1)]
  have p: "phase_ok s" using ok by (simp add: serial_ok_def)
  have "\<exists>t r. serial_step\<^sup>*\<^sup>* s t \<and> closers t = [r] \<and> cancelling r \<and> serial_ok t"
    using close_cancels_run [OF ok assms(2)] .
  then show "\<exists>t. serial_step\<^sup>*\<^sup>* s t \<and> closers t = [] \<and> receivers t = [] \<and> handlers t = [] \<and> transport_IsClosed (transport (client t))"
    using close_finishes by (metis finished_def rtranclp_trans)
  show "q \<noteq> Loaded \<and> q \<noteq> Stored \<longrightarrow>
      (\<forall>t. serial_step s t \<longrightarrow> shutdown_work t \<le> shutdown_work s) \<and> (\<exists>t. serial_step s t \<and> shutdown_work t < shutdown_work s)"
    using no_step_adds_work [OF ok assms(2)] close_progress [OF ok assms(2)] unfolding cancelling_def by blast
qed

theorem Close_can_finish_witness:
  "\<exists>s t. handlers s \<noteq> [] \<and> closers s \<noteq> [] \<and> serial_step\<^sup>*\<^sup>* s t \<and> closers t = [] \<and> handlers t = []"
proof -
  obtain s iid ch where s: "serial_step\<^sup>*\<^sup>* (start 0 []) s" "handlers s = [Sending ch (ackAPDU iid 12 [])]"
    "calls s = 0" "state (client s) = StateConnected" using example_sending by blast
  define t where "t = s\<lparr>closers := [Loaded]\<rparr>"
  have "step s t" using by_close [OF close_loads [of s]] s(3,4) by (simp add: t_def calls_def)
  moreover have "calls t \<le> 1" using s(3) by (simp add: t_def calls_def)
  ultimately have t: "serial_step\<^sup>*\<^sup>* (start 0 []) t" using run_from [OF s(1)] by blast
  have q: "closers t = [Loaded]" "handlers t \<noteq> []" by (simp_all add: t_def s)
  from q(1) have "closers t \<noteq> []" by simp
  with Close_can_finish [OF t q(1)] q(2) show ?thesis by blast
qed

text \<open>
  C8: Overlapping calls of \<open>Connect\<close> and \<open>Close\<close> break both promises, with two calls under way. \<open>Close\<close> marks the client
  disconnected before it waits, so a \<open>Connect\<close> in the meantime succeeds on the socket that is still open.
  First, a packet handler can then send on a channel that \<open>Close\<close> has closed, and panics. Second, \<open>Close\<close> can evaluate
  \<open>c.receiverDone\<close> after \<open>Connect\<close> has replaced it, and waits for a receiver that nobody has cancelled: whatever all
  goroutines do, it goes on waiting as long as no other \<open>Close\<close> is called.
\<close>

theorem overlapping_Connect_and_Close:
  "(\<exists>s ch a. (step_within 2)\<^sup>*\<^sup>* (start 0 []) s \<and> Sending ch a \<in> set (handlers s) \<and> chan_send ch a (client s) = panic) \<and>
   (\<exists>s d. (step_within 2)\<^sup>*\<^sup>* (start 0 []) s \<and> closers s = [Waiting (Some d)] \<and>
      (\<forall>t. (\<lambda>s t. step s t \<and> length (closers t) \<le> 1)\<^sup>*\<^sup>* s t \<longrightarrow> closers t = [Waiting (Some d)]))"
proof
  obtain s d where s: "(step_within 2)\<^sup>*\<^sup>* (start 0 []) s" "stuck d s" using overlap_sticks by blast
  then show "\<exists>s d. (step_within 2)\<^sup>*\<^sup>* (start 0 []) s \<and> closers s = [Waiting (Some d)] \<and>
      (\<forall>t. (\<lambda>s t. step s t \<and> length (closers t) \<le> 1)\<^sup>*\<^sup>* s t \<longrightarrow> closers t = [Waiting (Some d)])"
    using stuck_run unfolding stuck_def by blast
qed (rule overlap_panics)

theorem overlapping_Connect_and_Close_witness:
  "\<exists>s t d. closers s = [Waiting (Some d)] \<and> step s t \<and> requests t \<noteq> [] \<and> closers t = [Waiting (Some d)]"
proof -
  obtain s d where s: "closers s = [Waiting (Some d)]"
    "\<And>t. (\<lambda>s t. step s t \<and> length (closers t) \<le> 1)\<^sup>*\<^sup>* s t \<Longrightarrow> closers t = [Waiting (Some d)]"
    using overlapping_Connect_and_Close by blast
  obtain iid ch c1 where b: "beginRequest (client s) = (iid, ch, c1)" by (cases "beginRequest (client s)") auto
  note st = by_request [OF request_begins [OF b]]
  have "closers (s\<lparr>client := countRequest c1, requests := Request iid ch False # requests s, owner := (owner s)(ch \<mapsto> iid)\<rparr>) = [Waiting (Some d)]"
    by (rule s(2), rule r_into_rtranclp) (simp add: st s(1))
  with st s(1) show ?thesis by fastforce
qed

text \<open>
  C11: What the connection state says. In every interleaving a client that says it is connected has a socket. When calls of
  \<open>Connect\<close> and \<open>Close\<close> do not overlap each other, moreover: the client says it is connecting exactly while a \<open>Connect\<close> is under way;
  from the statement in which \<open>Close\<close> stores the state until its end the client says it is disconnected, and requests are refused
  without a change; there is never more than one receiver; and when no call is under way, a disconnected client has no
  receiver, and a connected client whose socket has not been closed has exactly one, with a context that is not cancelled.
\<close>

theorem connection_state_sound:
  assumes "step\<^sup>*\<^sup>* (start tm os) s"
  shows "(state (client s) = StateConnected \<longrightarrow> conn (transport (client s)) \<noteq> None) \<and>
         (serial_step\<^sup>*\<^sup>* (start tm os) s \<longrightarrow>
            (state (client s) = StateConnecting \<longleftrightarrow> connectors s \<noteq> []) \<and>
            (\<forall>q \<in> set (closers s). q \<noteq> Loaded \<longrightarrow> state (client s) = StateDisconnected \<and>
               sendRequest env addr svc data (client s) = ret (Err ErrNotConnected, client s)) \<and>
            length (receivers s) \<le> 1 \<and>
            (calls s = 0 \<and> state (client s) = StateDisconnected \<longrightarrow> receivers s = []) \<and>
            (calls s = 0 \<and> state (client s) = StateConnected \<and> \<not> transport_IsClosed (transport (client s)) \<longrightarrow>
               length (receivers s) = 1 \<and> (\<exists>k. receiverCtx s = Some k \<and> k \<notin> cancelledCtx s)))"
proof (intro conjI impI)
  have "socket_ok s" using socket.reachable_inv assms by blast
  then show "conn (transport (client s)) \<noteq> None" if "state (client s) = StateConnected" using that by (simp add: socket_ok_def)
next
  assume r: "serial_step\<^sup>*\<^sup>* (start tm os) s"
  have p: "phase_ok s" using serial_reachable [OF r] by (simp add: serial_ok_def)
  show "state (client s) = StateConnecting \<longleftrightarrow> connectors s \<noteq> []" by (rule phase_connecting [OF p])
  show "\<forall>q \<in> set (closers s). q \<noteq> Loaded \<longrightarrow> state (client s) = StateDisconnected \<and>
      sendRequest env addr svc data (client s) = ret (Err ErrNotConnected, client s)"
    using phase_closing [OF p] by (simp add: sendRequest_def)
  show "length (receivers s) \<le> 1" by (rule phase_receivers [OF p])
  show "receivers s = []" if "calls s = 0 \<and> state (client s) = StateDisconnected" using no_call [OF p] that by simp
  assume c: "calls s = 0 \<and> state (client s) = StateConnected \<and> \<not> transport_IsClosed (transport (client s))"
  then have l: "live s" "attached s" using no_call [OF p] by simp_all
  then show "length (receivers s) = 1" using c by (auto simp: attached_def transport_IsClosed_def split: option.splits if_splits)
  show "\<exists>k. receiverCtx s = Some k \<and> k \<notin> cancelledCtx s" using l(1) by (auto simp: live_def split: option.splits)
qed

theorem connection_state_sound_witness:
  "\<exists>s. step\<^sup>*\<^sup>* (start 0 []) s \<and> state (client s) = StateConnected \<and> conn (transport (client s)) \<noteq> None \<and> length (receivers s) = 1"
proof -
  obtain s where s: "serial_step\<^sup>*\<^sup>* (start 0 []) s" "state (client s) = StateConnected" "\<not> closed (transport (client s))"
    "connectors s = []" "closers s = []" using example_connected by blast
  from connection_state_sound [OF within_step [OF s(1)]] s within_step [OF s(1)] show ?thesis
    by (auto simp: calls_def transport_IsClosed_def)
qed

end
