(* ===== verification/Enum_Tables.thy ===== *)
theory Enum_Tables
  imports Bacnet_Types
begin

text \<open>
  The enumerated types of \<open>types.go\<close> with a \<open>String\<close> method or a parser: for each type the table of
  its declared constants (\<open>T_consts\<close>, by Go name), the table of printed names (\<open>T_names\<close>), the
  method (\<open>T_String\<close>) and, where there is one, the parser. The last sections show that no two
  constants of a type share a number, that every \<open>String\<close> method is injective, and that parsing
  undoes printing.
\<close>

section \<open>Tables\<close>

subsection \<open>ConfirmedServiceChoice\<close>

definition ConfirmedServiceChoice_consts :: "(string \<times> uint8) list" where
  "ConfirmedServiceChoice_consts = [
    (''ServiceAcknowledgeAlarm'', 0), (''ServiceConfirmedCOVNotification'', 1),
    (''ServiceConfirmedEventNotification'', 2), (''ServiceGetAlarmSummary'', 3),
    (''ServiceGetEnrollmentSummary'', 4), (''ServiceSubscribeCOV'', 5),
    (''ServiceAtomicReadFile'', 6), (''ServiceAtomicWriteFile'', 7),
    (''ServiceAddListElement'', 8), (''ServiceRemoveListElement'', 9),
    (''ServiceCreateObject'', 10), (''ServiceDeleteObject'', 11), (''ServiceReadProperty'', 12),
    (''ServiceReadPropertyConditional'', 13), (''ServiceReadPropertyMultiple'', 14),
    (''ServiceWriteProperty'', 15), (''ServiceWritePropertyMultiple'', 16),
    (''ServiceDeviceCommunicationControl'', 17), (''ServiceConfirmedPrivateTransfer'', 18),
    (''ServiceConfirmedTextMessage'', 19), (''ServiceReinitializeDevice'', 20),
    (''ServiceVTOpen'', 21), (''ServiceVTClose'', 22), (''ServiceVTData'', 23),
    (''ServiceAuthenticate'', 24), (''ServiceRequestKey'', 25), (''ServiceReadRange'', 26),
    (''ServiceLifeSafetyOperation'', 27), (''ServiceSubscribeCOVProperty'', 28),
    (''ServiceGetEventInformation'', 29)]"

definition ConfirmedServiceChoice_names :: "(uint8 \<times> string) list" where
  "ConfirmedServiceChoice_names = [
    (0, ''AcknowledgeAlarm''), (1, ''ConfirmedCOVNotification''),
    (2, ''ConfirmedEventNotification''), (3, ''GetAlarmSummary''), (4, ''GetEnrollmentSummary''),
    (5, ''SubscribeCOV''), (6, ''AtomicReadFile''), (7, ''AtomicWriteFile''),
    (8, ''AddListElement''), (9, ''RemoveListElement''), (10, ''CreateObject''),
    (11, ''DeleteObject''), (12, ''ReadProperty''), (13, ''ReadPropertyConditional''),
    (14, ''ReadPropertyMultiple''), (15, ''WriteProperty''), (16, ''WritePropertyMultiple''),
    (17, ''DeviceCommunicationControl''), (18, ''ConfirmedPrivateTransfer''),
    (19, ''ConfirmedTextMessage''), (20, ''ReinitializeDevice''), (21, ''VTOpen''),
    (22, ''VTClose''), (23, ''VTData''), (24, ''Authenticate''), (25, ''RequestKey''),
    (26, ''ReadRange''), (27, ''LifeSafetyOperation''), (28, ''SubscribeCOVProperty''),
    (29, ''GetEventInformation'')]"

definition ConfirmedServiceChoice_String :: "uint8 \<Rightarrow> string" where
  "ConfirmedServiceChoice_String = name_or_number ConfirmedServiceChoice_names ''Unknown('' unat"

subsection \<open>UnconfirmedServiceChoice\<close>

definition UnconfirmedServiceChoice_consts :: "(string \<times> uint8) list" where
  "UnconfirmedServiceChoice_consts = [
    (''ServiceIAm'', 0), (''ServiceIHave'', 1), (''ServiceUnconfirmedCOVNotification'', 2),
    (''ServiceUnconfirmedEventNotification'', 3), (''ServiceUnconfirmedPrivateTransfer'', 4),
    (''ServiceUnconfirmedTextMessage'', 5), (''ServiceTimeSynchronization'', 6),
    (''ServiceWhoHas'', 7), (''ServiceWhoIs'', 8), (''ServiceUTCTimeSynchronization'', 9),
    (''ServiceWriteGroup'', 10)]"

definition UnconfirmedServiceChoice_names :: "(uint8 \<times> string) list" where
  "UnconfirmedServiceChoice_names = [
    (0, ''I-Am''), (1, ''I-Have''), (2, ''UnconfirmedCOVNotification''),
    (3, ''UnconfirmedEventNotification''), (4, ''UnconfirmedPrivateTransfer''),
    (5, ''UnconfirmedTextMessage''), (6, ''TimeSynchronization''), (7, ''Who-Has''),
    (8, ''Who-Is''), (9, ''UTCTimeSynchronization''), (10, ''WriteGroup'')]"

definition UnconfirmedServiceChoice_String :: "uint8 \<Rightarrow> string" where
  "UnconfirmedServiceChoice_String = name_or_number UnconfirmedServiceChoice_names ''Unknown('' unat"

subsection \<open>ObjectType\<close>

definition ObjectType_consts :: "(string \<times> uint16) list" where
  "ObjectType_consts = [
    (''ObjectTypeAnalogInput'', 0), (''ObjectTypeAnalogOutput'', 1),
    (''ObjectTypeAnalogValue'', 2), (''ObjectTypeBinaryInput'', 3),
    (''ObjectTypeBinaryOutput'', 4), (''ObjectTypeBinaryValue'', 5), (''ObjectTypeCalendar'', 6),
    (''ObjectTypeCommand'', 7), (''ObjectTypeDevice'', 8), (''ObjectTypeEventEnrollment'', 9),
    (''ObjectTypeFile'', 10), (''ObjectTypeGroup'', 11), (''ObjectTypeLoop'', 12),
    (''ObjectTypeMultiStateInput'', 13), (''ObjectTypeMultiStateOutput'', 14),
    (''ObjectTypeNotificationClass'', 15), (''ObjectTypeProgram'', 16),
    (''ObjectTypeSchedule'', 17), (''ObjectTypeAveraging'', 18),
    (''ObjectTypeMultiStateValue'', 19), (''ObjectTypeTrendLog'', 20),
    (''ObjectTypeLifeSafetyPoint'', 21), (''ObjectTypeLifeSafetyZone'', 22),
    (''ObjectTypeAccumulator'', 23), (''ObjectTypePulseConverter'', 24),
    (''ObjectTypeEventLog'', 25), (''ObjectTypeGlobalGroup'', 26),
    (''ObjectTypeTrendLogMultiple'', 27), (''ObjectTypeLoadControl'', 28),
    (''ObjectTypeStructuredView'', 29), (''ObjectTypeAccessDoor'', 30), (''ObjectTypeTimer'', 31),
    (''ObjectTypeAccessCredential'', 32), (''ObjectTypeAccessPoint'', 33),
    (''ObjectTypeAccessRights'', 34), (''ObjectTypeAccessUser'', 35),
    (''ObjectTypeAccessZone'', 36), (''ObjectTypeCredentialDataInput'', 37),
    (''ObjectTypeNetworkSecurity'', 38), (''ObjectTypeBitStringValue'', 39),
    (''ObjectTypeCharacterStringValue'', 40), (''ObjectTypeDatePatternValue'', 41),
    (''ObjectTypeDateValue'', 42), (''ObjectTypeDateTimePatternValue'', 43),
    (''ObjectTypeDateTimeValue'', 44), (''ObjectTypeIntegerValue'', 45),
    (''ObjectTypeLargeAnalogValue'', 46), (''ObjectTypeOctetStringValue'', 47),
    (''ObjectTypePositiveIntegerValue'', 48), (''ObjectTypeTimePatternValue'', 49),
    (''ObjectTypeTimeValue'', 50), (''ObjectTypeNotificationForwarder'', 51),
    (''ObjectTypeAlertEnrollment'', 52), (''ObjectTypeChannel'', 53),
    (''ObjectTypeLightingOutput'', 54), (''ObjectTypeBinaryLightingOutput'', 55),
    (''ObjectTypeNetworkPort'', 56), (''ObjectTypeElevatorGroup'', 57),
    (''ObjectTypeEscalator'', 58), (''ObjectTypeLift'', 59)]"

definition ObjectType_names :: "(uint16 \<times> string) list" where
  "ObjectType_names = [
    (0, ''analog-input''), (1, ''analog-output''), (2, ''analog-value''), (3, ''binary-input''),
    (4, ''binary-output''), (5, ''binary-value''), (6, ''calendar''), (7, ''command''),
    (8, ''device''), (9, ''event-enrollment''), (10, ''file''), (11, ''group''), (12, ''loop''),
    (13, ''multi-state-input''), (14, ''multi-state-output''), (15, ''notification-class''),
    (16, ''program''), (17, ''schedule''), (18, ''averaging''), (19, ''multi-state-value''),
    (20, ''trend-log''), (21, ''life-safety-point''), (22, ''life-safety-zone''),
    (23, ''accumulator''), (24, ''pulse-converter''), (25, ''event-log''), (26, ''global-group''),
    (27, ''trend-log-multiple''), (28, ''load-control''), (29, ''structured-view''),
    (30, ''access-door''), (31, ''timer''), (32, ''access-credential''), (33, ''access-point''),
    (34, ''access-rights''), (35, ''access-user''), (36, ''access-zone''),
    (37, ''credential-data-input''), (38, ''network-security''), (39, ''bitstring-value''),
    (40, ''characterstring-value''), (41, ''date-pattern-value''), (42, ''date-value''),
    (43, ''datetime-pattern-value''), (44, ''datetime-value''), (45, ''integer-value''),
    (46, ''large-analog-value''), (47, ''octetstring-value''), (48, ''positive-integer-value''),
    (49, ''time-pattern-value''), (50, ''time-value''), (51, ''notification-forwarder''),
    (52, ''alert-enrollment''), (53, ''channel''), (54, ''lighting-output''),
    (55, ''binary-lighting-output''), (56, ''network-port''), (57, ''elevator-group''),
    (58, ''escalator''), (59, ''lift'')]"

definition ObjectType_String :: "uint16 \<Rightarrow> string" where
  "ObjectType_String = name_or_number ObjectType_names ''vendor-specific('' unat"

definition ParseObjectType_table :: "(string \<times> uint16) list" where
  "ParseObjectType_table = [
    (''analog-input'', 0), (''ai'', 0), (''analog-output'', 1), (''ao'', 1), (''analog-value'', 2),
    (''av'', 2), (''binary-input'', 3), (''bi'', 3), (''binary-output'', 4), (''bo'', 4),
    (''binary-value'', 5), (''bv'', 5), (''device'', 8), (''dev'', 8), (''multi-state-input'', 13),
    (''msi'', 13), (''multi-state-output'', 14), (''mso'', 14), (''multi-state-value'', 19),
    (''msv'', 19), (''schedule'', 17), (''sch'', 17), (''trend-log'', 20), (''tl'', 20),
    (''calendar'', 6), (''cal'', 6), (''notification-class'', 15), (''nc'', 15), (''file'', 10),
    (''loop'', 12), (''program'', 16), (''prg'', 16)]"

definition ParseObjectType :: "string \<Rightarrow> uint16 \<times> bool" where
  "ParseObjectType s = (case map_of ParseObjectType_table s of Some t \<Rightarrow> (t, True) | None \<Rightarrow> (0, False))"

subsection \<open>PropertyIdentifier\<close>

definition PropertyIdentifier_consts :: "(string \<times> uint32) list" where
  "PropertyIdentifier_consts = [
    (''PropertyAckedTransitions'', 0), (''PropertyAckRequired'', 1), (''PropertyAction'', 2),
    (''PropertyActionText'', 3), (''PropertyActiveText'', 4), (''PropertyActiveVtSessions'', 5),
    (''PropertyAlarmValue'', 6), (''PropertyAlarmValues'', 7), (''PropertyAll'', 8),
    (''PropertyAllWritesSuccessful'', 9), (''PropertyApduSegmentTimeout'', 10),
    (''PropertyApduTimeout'', 11), (''PropertyApplicationSoftwareVersion'', 12),
    (''PropertyArchive'', 13), (''PropertyBias'', 14), (''PropertyChangeOfStateCount'', 15),
    (''PropertyChangeOfStateTime'', 16), (''PropertyNotificationClass'', 17),
    (''PropertyControlledVariableReference'', 19), (''PropertyControlledVariableUnits'', 20),
    (''PropertyControlledVariableValue'', 21), (''PropertyCOVIncrement'', 22),
    (''PropertyDateList'', 23), (''PropertyDaylightSavingsStatus'', 24),
    (''PropertyDeadband'', 25), (''PropertyDerivativeConstant'', 26),
    (''PropertyDerivativeConstantUnits'', 27), (''PropertyDescription'', 28),
    (''PropertyDescriptionOfHalt'', 29), (''PropertyDeviceAddressBinding'', 30),
    (''PropertyDeviceType'', 31), (''PropertyEffectivePeriod'', 32),
    (''PropertyElapsedActiveTime'', 33), (''PropertyErrorLimit'', 34),
    (''PropertyEventEnable'', 35), (''PropertyEventState'', 36), (''PropertyEventType'', 37),
    (''PropertyExceptionSchedule'', 38), (''PropertyFaultValues'', 39),
    (''PropertyFeedbackValue'', 40), (''PropertyFileAccessMethod'', 41),
    (''PropertyFileSize'', 42), (''PropertyFileType'', 43), (''PropertyFirmwareRevision'', 44),
    (''PropertyHighLimit'', 45), (''PropertyInactiveText'', 46), (''PropertyInProcess'', 47),
    (''PropertyInstanceOf'', 48), (''PropertyIntegralConstant'', 49),
    (''PropertyIntegralConstantUnits'', 50), (''PropertyLimitEnable'', 52),
    (''PropertyListOfGroupMembers'', 53), (''PropertyListOfObjectPropertyReferences'', 54),
    (''PropertyLocalDate'', 56), (''PropertyLocalTime'', 57), (''PropertyLocation'', 58),
    (''PropertyLowLimit'', 59), (''PropertyManipulatedVariableReference'', 60),
    (''PropertyMaximumOutput'', 61), (''PropertyMaxApduLengthAccepted'', 62),
    (''PropertyMaxInfoFrames'', 63), (''PropertyMaxMaster'', 64), (''PropertyMaxPresValue'', 65),
    (''PropertyMinimumOffTime'', 66), (''PropertyMinimumOnTime'', 67),
    (''PropertyMinimumOutput'', 68), (''PropertyMinPresValue'', 69), (''PropertyModelName'', 70),
    (''PropertyModificationDate'', 71), (''PropertyNotifyType'', 72),
    (''PropertyNumberOfApduRetries'', 73), (''PropertyNumberOfStates'', 74),
    (''PropertyObjectIdentifier'', 75), (''PropertyObjectList'', 76), (''PropertyObjectName'', 77),
    (''PropertyObjectPropertyReference'', 78), (''PropertyObjectType'', 79),
    (''PropertyOptional'', 80), (''PropertyOutOfService'', 81), (''PropertyOutputUnits'', 82),
    (''PropertyEventParameters'', 83), (''PropertyPolarity'', 84), (''PropertyPresentValue'', 85),
    (''PropertyPriority'', 86), (''PropertyPriorityArray'', 87),
    (''PropertyPriorityForWriting'', 88), (''PropertyProcessIdentifier'', 89),
    (''PropertyProgramChange'', 90), (''PropertyProgramLocation'', 91),
    (''PropertyProgramState'', 92), (''PropertyProportionalConstant'', 93),
    (''PropertyProportionalConstantUnits'', 94), (''PropertyProtocolObjectTypesSupported'', 96),
    (''PropertyProtocolServicesSupported'', 97), (''PropertyProtocolVersion'', 98),
    (''PropertyReadOnly'', 99), (''PropertyReasonForHalt'', 100), (''PropertyRecipientList'', 102),
    (''PropertyReliability'', 103), (''PropertyRelinquishDefault'', 104),
    (''PropertyRequired'', 105), (''PropertyResolution'', 106),
    (''PropertySegmentationSupported'', 107), (''PropertySetpoint'', 108),
    (''PropertySetpointReference'', 109), (''PropertyStateText'', 110),
    (''PropertyStatusFlags'', 111), (''PropertySystemStatus'', 112), (''PropertyTimeDelay'', 113),
    (''PropertyTimeOfActiveTimeReset'', 114), (''PropertyTimeOfStateCountReset'', 115),
    (''PropertyTimeSynchronizationRecipients'', 116), (''PropertyUnits'', 117),
    (''PropertyUpdateInterval'', 118), (''PropertyUtcOffset'', 119),
    (''PropertyVendorIdentifier'', 120), (''PropertyVendorName'', 121),
    (''PropertyVtClassesSupported'', 122), (''PropertyWeeklySchedule'', 123),
    (''PropertyAttemptedSamples'', 124), (''PropertyAverageValue'', 125),
    (''PropertyBufferSize'', 126), (''PropertyClientCovIncrement'', 127),
    (''PropertyCOVResubscriptionInterval'', 128), (''PropertyEventTimeStamps'', 130),
    (''PropertyLogBuffer'', 131), (''PropertyLogDeviceObjectProperty'', 132),
    (''PropertyLogEnable'', 133), (''PropertyLogInterval'', 134), (''PropertyMaximumValue'', 135),
    (''PropertyMinimumValue'', 136), (''PropertyNotificationThreshold'', 137),
    (''PropertyPreviousNotifyRecord'', 138), (''PropertyProtocolRevision'', 139),
    (''PropertyRecordsSinceNotification'', 140), (''PropertyRecordCount'', 141),
    (''PropertyStartTime'', 142), (''PropertyStopTime'', 143), (''PropertyStopWhenFull'', 144),
    (''PropertyTotalRecordCount'', 145), (''PropertyValidSamples'', 146),
    (''PropertyWindowInterval'', 147), (''PropertyWindowSamples'', 148),
    (''PropertyMaximumValueTimestamp'', 149), (''PropertyMinimumValueTimestamp'', 150),
    (''PropertyVarianceValue'', 151), (''PropertyActiveCOVSubscriptions'', 152),
    (''PropertyBackupFailureTimeout'', 153), (''PropertyConfigurationFiles'', 154),
    (''PropertyDatabaseRevision'', 155), (''PropertyDirectReading'', 156),
    (''PropertyLastRestoreTime'', 157), (''PropertyMaintenanceRequired'', 158),
    (''PropertyMemberOf'', 159), (''PropertyMode'', 160), (''PropertyOperationExpected'', 161),
    (''PropertySetting'', 162), (''PropertySilenced'', 163), (''PropertyTrackingValue'', 164),
    (''PropertyZoneMembers'', 165), (''PropertyLifeSafetyAlarmValues'', 166),
    (''PropertyMaxSegmentsAccepted'', 167), (''PropertyProfileName'', 168)]"

definition PropertyIdentifier_names :: "(uint32 \<times> string) list" where
  "PropertyIdentifier_names = [
    (75, ''object-identifier''), (77, ''object-name''), (79, ''object-type''),
    (85, ''present-value''), (28, ''description''), (31, ''device-type''), (111, ''status-flags''),
    (36, ''event-state''), (103, ''reliability''), (81, ''out-of-service''), (117, ''units''),
    (87, ''priority-array''), (104, ''relinquish-default''), (22, ''cov-increment''),
    (45, ''high-limit''), (59, ''low-limit''), (25, ''deadband''), (121, ''vendor-name''),
    (120, ''vendor-identifier''), (70, ''model-name''), (44, ''firmware-revision''),
    (12, ''application-software-version''), (98, ''protocol-version''),
    (139, ''protocol-revision''), (112, ''system-status''), (62, ''max-apdu-length-accepted''),
    (107, ''segmentation-supported''), (76, ''object-list''), (155, ''database-revision''),
    (8, ''all''), (105, ''required''), (80, ''optional'')]"

definition PropertyIdentifier_String :: "uint32 \<Rightarrow> string" where
  "PropertyIdentifier_String = name_or_number PropertyIdentifier_names ''property('' unat"

definition ParsePropertyIdentifier_table :: "(string \<times> uint32) list" where
  "ParsePropertyIdentifier_table = [
    (''object-identifier'', 75), (''oid'', 75), (''object-name'', 77), (''name'', 77),
    (''object-type'', 79), (''type'', 79), (''present-value'', 85), (''pv'', 85),
    (''description'', 28), (''desc'', 28), (''status-flags'', 111), (''sf'', 111),
    (''event-state'', 36), (''reliability'', 103), (''out-of-service'', 81), (''oos'', 81),
    (''units'', 117), (''priority-array'', 87), (''pa'', 87), (''relinquish-default'', 104),
    (''rd'', 104), (''cov-increment'', 22), (''vendor-name'', 121), (''vendor-identifier'', 120),
    (''model-name'', 70), (''firmware-revision'', 44), (''application-software-version'', 12),
    (''protocol-version'', 98), (''protocol-revision'', 139), (''system-status'', 112),
    (''object-list'', 76), (''database-revision'', 155), (''all'', 8)]"

definition ParsePropertyIdentifier :: "string \<Rightarrow> uint32 \<times> bool" where
  "ParsePropertyIdentifier s = (case map_of ParsePropertyIdentifier_table s of Some t \<Rightarrow> (t, True) | None \<Rightarrow> (0, False))"

subsection \<open>EventState\<close>

definition EventState_consts :: "(string \<times> uint8) list" where
  "EventState_consts = [
    (''EventStateNormal'', 0), (''EventStateFault'', 1), (''EventStateOffNormal'', 2),
    (''EventStateHighLimit'', 3), (''EventStateLowLimit'', 4), (''EventStateLifeSafetyAlarm'', 5)]"

definition EventState_names :: "(uint8 \<times> string) list" where
  "EventState_names = [
    (0, ''normal''), (1, ''fault''), (2, ''off-normal''), (3, ''high-limit''), (4, ''low-limit''),
    (5, ''life-safety-alarm'')]"

definition EventState_String :: "uint8 \<Rightarrow> string" where
  "EventState_String = name_or_number EventState_names ''event-state('' unat"

subsection \<open>Reliability\<close>

definition Reliability_consts :: "(string \<times> uint8) list" where
  "Reliability_consts = [
    (''ReliabilityNoFaultDetected'', 0), (''ReliabilityNoSensor'', 1),
    (''ReliabilityOverRange'', 2), (''ReliabilityUnderRange'', 3), (''ReliabilityOpenLoop'', 4),
    (''ReliabilityShortedLoop'', 5), (''ReliabilityNoOutput'', 6),
    (''ReliabilityUnreliableOther'', 7), (''ReliabilityProcessError'', 8),
    (''ReliabilityMultiStateFault'', 9), (''ReliabilityConfigurationError'', 10),
    (''ReliabilityCommunicationFailure'', 12), (''ReliabilityMemberFault'', 13),
    (''ReliabilityMonitoredObjectFault'', 14), (''ReliabilityTripped'', 15),
    (''ReliabilityLampFailure'', 16), (''ReliabilityActivationFailure'', 17),
    (''ReliabilityRenewDhcpFailure'', 18), (''ReliabilityRenewFdRegistrationFailure'', 19),
    (''ReliabilityRestartAutoNegotiationFailure'', 20), (''ReliabilityRestartFailure'', 21),
    (''ReliabilityProprietaryCommandFailure'', 22), (''ReliabilityFaultsListed'', 23),
    (''ReliabilityReferencedObjectFault'', 24)]"

definition Reliability_names :: "(uint8 \<times> string) list" where
  "Reliability_names = [
    (0, ''no-fault-detected''), (1, ''no-sensor''), (2, ''over-range''), (3, ''under-range''),
    (4, ''open-loop''), (5, ''shorted-loop''), (6, ''no-output''), (7, ''unreliable-other''),
    (8, ''process-error''), (9, ''multi-state-fault''), (10, ''configuration-error''),
    (12, ''communication-failure'')]"

definition Reliability_String :: "uint8 \<Rightarrow> string" where
  "Reliability_String = name_or_number Reliability_names ''reliability('' unat"

subsection \<open>EngineeringUnits\<close>

definition EngineeringUnits_consts :: "(string \<times> uint16) list" where
  "EngineeringUnits_consts = [
    (''UnitsSquareMeters'', 0), (''UnitsSquareFeet'', 1), (''UnitsMilliamperes'', 2),
    (''UnitsAmperes'', 3), (''UnitsOhms'', 4), (''UnitsVolts'', 5), (''UnitsKilovolts'', 6),
    (''UnitsMegavolts'', 7), (''UnitsVoltAmperes'', 8), (''UnitsKilovoltAmperes'', 9),
    (''UnitsMegavoltAmperes'', 10), (''UnitsVoltAmperesReactive'', 11),
    (''UnitsKilovoltAmperesReactive'', 12), (''UnitsMegavoltAmperesReactive'', 13),
    (''UnitsDegreesPhase'', 14), (''UnitsPowerFactor'', 15), (''UnitsJoules'', 16),
    (''UnitsKilojoules'', 17), (''UnitsWattHours'', 18), (''UnitsKilowattHours'', 19),
    (''UnitsBtus'', 20), (''UnitsTherms'', 21), (''UnitsTonHours'', 22),
    (''UnitsJoulesPerKilogramDryAir'', 23), (''UnitsBtusPerPoundDryAir'', 24),
    (''UnitsCyclesPerHour'', 25), (''UnitsCyclesPerMinute'', 26), (''UnitsHertz'', 27),
    (''UnitsGramsOfWaterPerKilogramDryAir'', 28), (''UnitsPercentRelativeHumidity'', 29),
    (''UnitsMillimeters'', 30), (''UnitsMeters'', 31), (''UnitsInches'', 32), (''UnitsFeet'', 33),
    (''UnitsWattsPerSquareFoot'', 34), (''UnitsWattsPerSquareMeter'', 35), (''UnitsLumens'', 36),
    (''UnitsLuxes'', 37), (''UnitsFootCandles'', 38), (''UnitsKilograms'', 39),
    (''UnitsPounds'', 40), (''UnitsWatts'', 41), (''UnitsKilowatts'', 42),
    (''UnitsMegawatts'', 43), (''UnitsBtusPerHour'', 44), (''UnitsHorsepower'', 45),
    (''UnitsTonsRefrigeration'', 46), (''UnitsPascals'', 47), (''UnitsKilopascals'', 48),
    (''UnitsBars'', 49), (''UnitsPoundsForcePerSquareInch'', 50),
    (''UnitsCentimetersOfWater'', 51), (''UnitsInchesOfWater'', 52),
    (''UnitsMillimetersOfMercury'', 53), (''UnitsCentimetersOfMercury'', 54),
    (''UnitsInchesOfMercury'', 55), (''UnitsDegreesCelsius'', 62), (''UnitsDegreesKelvin'', 63),
    (''UnitsDegreesFahrenheit'', 64), (''UnitsDegreeDaysCelsius'', 65),
    (''UnitsDegreeDaysFahrenheit'', 66), (''UnitsYears'', 67), (''UnitsMonths'', 68),
    (''UnitsWeeks'', 69), (''UnitsDays'', 70), (''UnitsHours'', 71), (''UnitsMinutes'', 72),
    (''UnitsSeconds'', 73), (''UnitsMetersPerSecond'', 74), (''UnitsKilometersPerHour'', 75),
    (''UnitsFeetPerSecond'', 76), (''UnitsFeetPerMinute'', 77), (''UnitsMilesPerHour'', 78),
    (''UnitsCubicFeet'', 79), (''UnitsCubicMeters'', 80), (''UnitsImperialGallons'', 81),
    (''UnitsLiters'', 82), (''UnitsUsGallons'', 83), (''UnitsCubicFeetPerMinute'', 84),
    (''UnitsCubicMetersPerSecond'', 85), (''UnitsImperialGallonsPerMinute'', 86),
    (''UnitsLitersPerSecond'', 87), (''UnitsLitersPerMinute'', 88),
    (''UnitsUsGallonsPerMinute'', 89), (''UnitsDegreesAngular'', 90),
    (''UnitsDegreesCelsiusPerHour'', 91), (''UnitsDegreesCelsiusPerMinute'', 92),
    (''UnitsDegreesFahrenheitPerHour'', 93), (''UnitsDegreesFahrenheitPerMinute'', 94),
    (''UnitsNoUnits'', 95), (''UnitsPartsPerMillion'', 96), (''UnitsPartsPerBillion'', 97),
    (''UnitsPercent'', 98), (''UnitsPercentPerSecond'', 99), (''UnitsPerMinute'', 100),
    (''UnitsPerSecond'', 101), (''UnitsPsiPerDegreeFahrenheit'', 102), (''UnitsRadians'', 103),
    (''UnitsRevolutionsPerMinute'', 104)]"

definition EngineeringUnits_names :: "(uint16 \<times> string) list" where
  "EngineeringUnits_names = [
    (62, ([CHR 0xC2] @ [CHR 0xB0] @ ''C'')), (64, ([CHR 0xC2] @ [CHR 0xB0] @ ''F'')), (63, ''K''),
    (98, ''%''), (29, ''%RH''), (31, ''m''), (33, ''ft''), (30, ''mm''), (32, ''in''), (5, ''V''),
    (3, ''A''), (2, ''mA''), (41, ''W''), (42, ''kW''), (43, ''MW''), (19, ''kWh''), (27, ''Hz''),
    (47, ''Pa''), (48, ''kPa''), (49, ''bar''), (82, ''L''),
    (80, (''m'' @ [CHR 0xC2] @ [CHR 0xB3])), (87, ''L/s''), (88, ''L/min''), (74, ''m/s''),
    (73, ''s''), (72, ''min''), (71, ''h''), (70, ''d''), (95, [])]"

definition EngineeringUnits_String :: "uint16 \<Rightarrow> string" where
  "EngineeringUnits_String = name_or_number EngineeringUnits_names ''units('' unat"

subsection \<open>Segmentation\<close>

definition Segmentation_consts :: "(string \<times> uint8) list" where
  "Segmentation_consts = [
    (''SegmentationBoth'', 0), (''SegmentationTransmit'', 1), (''SegmentationReceive'', 2),
    (''SegmentationNone'', 3)]"

definition Segmentation_names :: "(uint8 \<times> string) list" where
  "Segmentation_names = [
    (0, ''segmented-both''), (1, ''segmented-transmit''), (2, ''segmented-receive''),
    (3, ''no-segmentation'')]"

definition Segmentation_String :: "uint8 \<Rightarrow> string" where
  "Segmentation_String = name_or_number Segmentation_names ''segmentation('' unat"

subsection \<open>DeviceStatus\<close>

definition DeviceStatus_consts :: "(string \<times> uint8) list" where
  "DeviceStatus_consts = [
    (''DeviceStatusOperational'', 0), (''DeviceStatusOperationalReadOnly'', 1),
    (''DeviceStatusDownloadRequired'', 2), (''DeviceStatusDownloadInProgress'', 3),
    (''DeviceStatusNonOperational'', 4), (''DeviceStatusBackupInProgress'', 5)]"

definition DeviceStatus_names :: "(uint8 \<times> string) list" where
  "DeviceStatus_names = [
    (0, ''operational''), (1, ''operational-read-only''), (2, ''download-required''),
    (3, ''download-in-progress''), (4, ''non-operational''), (5, ''backup-in-progress'')]"

definition DeviceStatus_String :: "uint8 \<Rightarrow> string" where
  "DeviceStatus_String = name_or_number DeviceStatus_names ''device-status('' unat"

definition ObjectIdentifier_String :: "ObjectIdentifier \<Rightarrow> string" where
  "ObjectIdentifier_String oid =
     ObjectType_String (OID_Type oid) @ '':'' @ fmt_d (unat (OID_Instance oid))"

section \<open>Every String method is injective\<close>

interpretation confirmedService: enum_names ConfirmedServiceChoice_names "''Unknown(''" unat
  by unfold_locales (code_simp, code_simp, simp)

interpretation unconfirmedService: enum_names UnconfirmedServiceChoice_names "''Unknown(''" unat
  by unfold_locales (code_simp, code_simp, simp)

interpretation objectType: enum_names ObjectType_names "''vendor-specific(''" unat
  by unfold_locales (code_simp, code_simp, simp)

interpretation propertyIdentifier: enum_names PropertyIdentifier_names "''property(''" unat
  by unfold_locales (code_simp, code_simp, simp)

interpretation eventState: enum_names EventState_names "''event-state(''" unat
  by unfold_locales (code_simp, code_simp, simp)

interpretation reliability: enum_names Reliability_names "''reliability(''" unat
  by unfold_locales (code_simp, code_simp, simp)

interpretation units: enum_names EngineeringUnits_names "''units(''" unat
  by unfold_locales (code_simp, code_simp, simp)

interpretation segmentation: enum_names Segmentation_names "''segmentation(''" unat
  by unfold_locales (code_simp, code_simp, simp)

interpretation deviceStatus: enum_names DeviceStatus_names "''device-status(''" unat
  by unfold_locales (code_simp, code_simp, simp)

lemma names_no_colon:
  "list_all (\<lambda>p. CHR '':'' \<notin> set (snd p)) ObjectType_names"
  by code_simp

lemma fmt_d_no_colon: "CHR '':'' \<notin> set (fmt_d n)"
proof
  assume "CHR '':'' \<in> set (fmt_d n)"
  with fmt_d_digits obtain d where "d < 10" and "CHR '':'' = digit d" by blast
  then have "of_char (CHR '':'') = 48 + d" by (simp only: of_char_digit)
  with \<open>d < 10\<close> show False by simp
qed

lemma ObjectType_String_no_colon: "CHR '':'' \<notin> set (ObjectType_String t)"
  using names_no_colon
  by (auto simp: ObjectType_String_def name_or_number_def list_all_iff fmt_d_no_colon
      split: option.splits dest!: map_of_SomeD)

lemma append_sep_inject:
  assumes "c \<notin> set xs" and "c \<notin> set ys" and "xs @ [c] @ us = ys @ [c] @ vs"
  shows "xs = ys \<and> us = vs"
proof -
  from assms(1) have "takeWhile (\<lambda>x. x \<noteq> c) (xs @ [c] @ us) = xs"
    by (auto simp: takeWhile_append)
  moreover from assms(2) have "takeWhile (\<lambda>x. x \<noteq> c) (ys @ [c] @ vs) = ys"
    by (auto simp: takeWhile_append)
  ultimately show ?thesis using assms(3) by force
qed

lemma ObjectIdentifier_String_eq_iff [simp]:
  "ObjectIdentifier_String a = ObjectIdentifier_String b \<longleftrightarrow> a = b"
proof
  assume eq: "ObjectIdentifier_String a = ObjectIdentifier_String b"
  have "ObjectType_String (OID_Type a) = ObjectType_String (OID_Type b)
      \<and> fmt_d (unat (OID_Instance a)) = fmt_d (unat (OID_Instance b))"
    by (rule append_sep_inject [where c = "CHR '':''"])
      (use eq in \<open>simp_all add: ObjectIdentifier_String_def ObjectType_String_no_colon\<close>)
  then show "a = b"
    using objectType.injective
    by (cases a, cases b) (auto simp: ObjectType_String_def dest: injD unsigned_word_eqI)
qed simp

text \<open>
  The \<open>String\<close> method of every enumerated type of \<open>types.go\<close>, and that of object identifiers,
  is injective: no two values print the same, whether they are named in the table or fall back to
  the number.
\<close>

theorem String_methods_injective:
  "inj ConfirmedServiceChoice_String \<and> inj UnconfirmedServiceChoice_String \<and> inj ObjectType_String \<and>
   inj PropertyIdentifier_String \<and> inj EventState_String \<and> inj Reliability_String \<and>
   inj EngineeringUnits_String \<and> inj Segmentation_String \<and> inj DeviceStatus_String \<and>
   inj ObjectIdentifier_String"
  unfolding ConfirmedServiceChoice_String_def UnconfirmedServiceChoice_String_def
    ObjectType_String_def PropertyIdentifier_String_def EventState_String_def
    Reliability_String_def EngineeringUnits_String_def Segmentation_String_def
    DeviceStatus_String_def
  by (intro conjI confirmedService.injective unconfirmedService.injective objectType.injective
      propertyIdentifier.injective eventState.injective reliability.injective units.injective
      segmentation.injective deviceStatus.injective injI) simp

section \<open>Parsing undoes printing\<close>

lemma ParseObjectType_table_ok:
  "list_all (\<lambda>(s, t). ParseObjectType (ObjectType_String t) = (t, True)) ParseObjectType_table"
  by code_simp

lemma ParsePropertyIdentifier_table_ok:
  "list_all (\<lambda>(s, t). ParsePropertyIdentifier (PropertyIdentifier_String t) = (t, True))
     ParsePropertyIdentifier_table"
  by code_simp

lemma ParseObjectType_accepted: "ParseObjectType s = (t, True) \<Longrightarrow> (s, t) \<in> set ParseObjectType_table"
  by (auto simp: ParseObjectType_def split: option.splits dest: map_of_SomeD)

lemma ParsePropertyIdentifier_accepted:
  "ParsePropertyIdentifier s = (t, True) \<Longrightarrow> (s, t) \<in> set ParsePropertyIdentifier_table"
  by (auto simp: ParsePropertyIdentifier_def split: option.splits dest: map_of_SomeD)

text \<open>
  C40: Whatever spelling (full name or short alias) \<open>ParseObjectType\<close> or \<open>ParsePropertyIdentifier\<close>
  accepts, printing the parsed value gives a spelling that parses to the same value.
\<close>

theorem Parse_String_roundtrip:
  "(ParseObjectType s = (t, True) \<longrightarrow> ParseObjectType (ObjectType_String t) = (t, True)) \<and>
   (ParsePropertyIdentifier s' = (p, True) \<longrightarrow>
      ParsePropertyIdentifier (PropertyIdentifier_String p) = (p, True))"
  using ParseObjectType_table_ok ParsePropertyIdentifier_table_ok
  by (auto simp: list_all_iff dest!: ParseObjectType_accepted ParsePropertyIdentifier_accepted)

theorem Parse_String_roundtrip_witness:
  "ParseObjectType ''ai'' = (0, True) \<and> ParseObjectType (ObjectType_String 0) = (0, True) \<and>
   ParsePropertyIdentifier ''pv'' = (85, True) \<and>
   ParsePropertyIdentifier (PropertyIdentifier_String 85) = (85, True)"
proof -
  have "ParseObjectType ''ai'' = (0, True)" and "ParsePropertyIdentifier ''pv'' = (85, True)"
    by code_simp+
  with Parse_String_roundtrip [of "''ai''" 0 "''pv''" 85] show ?thesis by simp
qed

end
