(* ===== verification/Wire_Constants.thy ===== *)
theory Wire_Constants
  imports Enum_Tables
begin

text \<open>
  The protocol constants of \<open>types.go\<close> that have no \<open>String\<close> method, as tables by Go name, the helpers
  for big-endian buffers at the end of that file, and \<open>version.go\<close>. The lemmas show what the decoders
  rely on: the numbers of a type are distinct, the PDU type is the upper half of the first octet of
  an APDU, the flags of the NPDU control octet do not overlap, every application tag fits into
  the upper half of a tag octet, and the constants the components use are those of the tables.
\<close>

section \<open>Tables\<close>

definition BVLCFunction_consts :: "(string \<times> uint8) list" where
  "BVLCFunction_consts = [
    (''BVLCResult'', 0), (''BVLCWriteBroadcastDistributionTable'', 1),
    (''BVLCReadBroadcastDistributionTable'', 2), (''BVLCReadBroadcastDistributionTableAck'', 3),
    (''BVLCForwardedNPDU'', 4), (''BVLCRegisterForeignDevice'', 5),
    (''BVLCReadForeignDeviceTable'', 6), (''BVLCReadForeignDeviceTableAck'', 7),
    (''BVLCDeleteForeignDeviceTableEntry'', 8), (''BVLCDistributeBroadcastToNetwork'', 9),
    (''BVLCOriginalUnicastNPDU'', 0xa), (''BVLCOriginalBroadcastNPDU'', 0xb),
    (''BVLCSecureBVLL'', 0xc)]"

definition NPDUControl_consts :: "(string \<times> uint8) list" where
  "NPDUControl_consts = [
    (''NPDUControlNetworkLayerMessage'', 0x80), (''NPDUControlDestSpecifier'', 0x20),
    (''NPDUControlSourceSpecifier'', 8), (''NPDUControlExpectingReply'', 4),
    (''NPDUControlPriorityNormal'', 0), (''NPDUControlPriorityUrgent'', 1),
    (''NPDUControlPriorityCritical'', 2), (''NPDUControlPriorityLifeSafety'', 3)]"

definition NetworkMessageType_consts :: "(string \<times> uint8) list" where
  "NetworkMessageType_consts = [
    (''NetworkMessageWhoIsRouterToNetwork'', 0), (''NetworkMessageIAmRouterToNetwork'', 1),
    (''NetworkMessageICouldBeRouterToNetwork'', 2), (''NetworkMessageRejectMessageToNetwork'', 3),
    (''NetworkMessageRouterBusyToNetwork'', 4), (''NetworkMessageRouterAvailableToNetwork'', 5),
    (''NetworkMessageInitializeRoutingTable'', 6),
    (''NetworkMessageInitializeRoutingTableAck'', 7),
    (''NetworkMessageEstablishConnectionToNetwork'', 8),
    (''NetworkMessageDisconnectConnectionToNetwork'', 9),
    (''NetworkMessageWhatIsNetworkNumber'', 0x12), (''NetworkMessageNetworkNumberIs'', 0x13)]"

definition PDUType_consts :: "(string \<times> uint8) list" where
  "PDUType_consts = [
    (''PDUTypeConfirmedRequest'', 0), (''PDUTypeUnconfirmedRequest'', 0x10),
    (''PDUTypeSimpleAck'', 0x20), (''PDUTypeComplexAck'', 0x30), (''PDUTypeSegmentAck'', 0x40),
    (''PDUTypeError'', 0x50), (''PDUTypeReject'', 0x60), (''PDUTypeAbort'', 0x70)]"

definition ApplicationTag_consts :: "(string \<times> uint8) list" where
  "ApplicationTag_consts = [
    (''TagNull'', 0), (''TagBoolean'', 1), (''TagUnsignedInt'', 2), (''TagSignedInt'', 3),
    (''TagReal'', 4), (''TagDouble'', 5), (''TagOctetString'', 6), (''TagCharacterString'', 7),
    (''TagBitString'', 8), (''TagEnumerated'', 9), (''TagDate'', 0xa), (''TagTime'', 0xb),
    (''TagObjectID'', 0xc)]"

section \<open>Buffers\<close>

definition encodeUint16 :: "bytes \<Rightarrow> uint16 \<Rightarrow> bytes go" where
  "encodeUint16 buf v = (if len buf < 2 then panic else ret (PutUint16 v @ drop 2 buf))"

definition encodeUint32 :: "bytes \<Rightarrow> uint32 \<Rightarrow> bytes go" where
  "encodeUint32 buf v = (if len buf < 4 then panic else ret (PutUint32 v @ drop 4 buf))"

definition decodeUint16 :: "bytes \<Rightarrow> uint16 go" where
  "decodeUint16 buf = BigEndian_Uint16 buf"

definition decodeUint32 :: "bytes \<Rightarrow> uint32 go" where
  "decodeUint32 buf = BigEndian_Uint32 buf"

section \<open>Version\<close>

abbreviation (input) VersionString :: string where "VersionString \<equiv> ''0.1.0''"
abbreviation (input) VersionMajor :: int where "VersionMajor \<equiv> 0"
abbreviation (input) VersionMinor :: int where "VersionMinor \<equiv> 1"
abbreviation (input) VersionPatch :: int where "VersionPatch \<equiv> 0"

record VersionInfo =
  Ver_Version :: string
  Ver_Major :: int
  Ver_Minor :: int
  Ver_Patch :: int

definition GetVersion :: VersionInfo where
  "GetVersion = \<lparr>Ver_Version = VersionString, Ver_Major = VersionMajor, Ver_Minor = VersionMinor, Ver_Patch = VersionPatch\<rparr>"

section \<open>Properties\<close>

lemma constants_in_tables:
  "map_of BVLCFunction_consts ''BVLCForwardedNPDU'' = Some BVLCForwardedNPDU"
  "map_of BVLCFunction_consts ''BVLCRegisterForeignDevice'' = Some BVLCRegisterForeignDevice"
  "map_of BVLCFunction_consts ''BVLCOriginalUnicastNPDU'' = Some BVLCOriginalUnicastNPDU"
  "map_of BVLCFunction_consts ''BVLCOriginalBroadcastNPDU'' = Some BVLCOriginalBroadcastNPDU"
  "map_of ConfirmedServiceChoice_consts ''ServiceReadProperty'' = Some ServiceReadProperty"
  "map_of ConfirmedServiceChoice_consts ''ServiceReadPropertyMultiple'' = Some ServiceReadPropertyMultiple"
  "map_of ConfirmedServiceChoice_consts ''ServiceWriteProperty'' = Some ServiceWriteProperty"
  "map_of ConfirmedServiceChoice_consts ''ServiceSubscribeCOV'' = Some ServiceSubscribeCOV"
  "map_of UnconfirmedServiceChoice_consts ''ServiceIAm'' = Some ServiceIAm"
  "map_of UnconfirmedServiceChoice_consts ''ServiceWhoIs'' = Some ServiceWhoIs"
  "map_of UnconfirmedServiceChoice_consts ''ServiceUnconfirmedCOVNotification'' = Some ServiceUnconfirmedCOVNotification"
  "map_of ObjectType_consts ''ObjectTypeDevice'' = Some ObjectTypeDevice"
  "map_of PropertyIdentifier_consts ''PropertyObjectList'' = Some PropertyObjectList"
  by code_simp+

lemma buffers_roundtrip:
  "encodeUint16 buf v = ret b \<Longrightarrow> decodeUint16 b = ret v"
  "encodeUint32 buf w = ret b \<Longrightarrow> decodeUint32 b = ret w"
  by (auto simp: encodeUint16_def decodeUint16_def encodeUint32_def decodeUint32_def split: if_splits)

lemma version_consistent:
  "Ver_Version GetVersion =
     fmt_d (nat (Ver_Major GetVersion)) @ ''.'' @ fmt_d (nat (Ver_Minor GetVersion)) @ ''.'' @ fmt_d (nat (Ver_Patch GetVersion))"
  by code_simp

text \<open>
  The numbers on the wire are unambiguous: within each type no two constants coincide; a PDU type
  is its own upper half octet, so that masking the first octet of an APDU with \<open>0xF0\<close> tells all
  types apart; the flag bits of the NPDU control octet are pairwise disjoint and disjoint from the
  priority; and every application tag number is below 15, so it never needs an extended tag.
\<close>

theorem wire_constants_unambiguous:
  "distinct (map snd BVLCFunction_consts) \<and> distinct (map snd NPDUControl_consts) \<and>
   distinct (map snd NetworkMessageType_consts) \<and> distinct (map snd PDUType_consts) \<and>
   distinct (map snd ApplicationTag_consts) \<and>
   list_all (\<lambda>(_, t). t AND 0xF0 = t) PDUType_consts \<and>
   list_all (\<lambda>(n, f). list_all (\<lambda>(m, g). n = m \<or> f < 4 \<and> g < 4 \<or> f AND g = 0) NPDUControl_consts) NPDUControl_consts \<and>
   list_all (\<lambda>(_, t). t < 15) ApplicationTag_consts"
  by (intro conjI; code_simp)

end
