(* ===== verification/Spec2Isabelle.thy ===== *)
theory Spec2Isabelle
  imports Client_Devices Client_Lifecycle Wire_Constants
begin

text \<open>
  This development models bacnet-go (the Go package under \<open>src/\<close>), a client library for BACnet/IP building
  automation devices, and proves what makes it correct.

  \<^bold>\<open>The program and its parts.\<close> A \<open>Client\<close> owns a UDP transport. \<open>Connect\<close> opens the transport and starts the receiver
  goroutine, which reads packets and starts a handler goroutine for each; a handler decodes the BVLC, NPDU and APDU
  headers and either updates the device cache (I-Am), or hands a response to the request that waits for it, over
  a channel found in the map of pending requests by invoke identifier. A service call (\<open>ReadProperty\<close>,
  \<open>WriteProperty\<close>, \<open>ReadPropertyMultiple\<close>, \<open>SubscribeCOV\<close>, \<open>UnsubscribeCOV\<close>, \<open>GetObjectList\<close>, \<open>WhoIs\<close>) resolves
  the device, builds the request, sends it and decodes the response. \<open>Close\<close> stops the receiver, waits for the handlers
  and closes the channels of the requests that are left.

  \<^bold>\<open>Theories and the code they model.\<close>

  \<^item> \<open>Go_Prelude\<close>: byte slices, indexing and slicing with Go's panics (a panic is \<open>None\<close>), big-endian access, the collections
    of lemmas, and the contracts \<open>simulation\<close> and \<open>transition_system\<close>. \<open>Go_Fmt\<close>: the verbs of \<open>fmt\<close> that are used, and the
    contract \<open>enum_names\<close> of a \<open>String\<close> method over a table.
  \<^item> \<open>Bacnet_Types\<close>, \<open>Enum_Tables\<close>, \<open>Wire_Constants\<close>: \<open>types.go\<close> and \<open>version.go\<close>. \<open>Bacnet_Errors\<close>: \<open>errors.go\<close> and what the
    code uses of package \<open>errors\<close>.
  \<^item> \<open>Tag_Codec\<close> (tags and scalars), \<open>Framing\<close> (BVLC, NPDU, APDU), \<open>Char_String\<close>: \<open>protocol.go\<close>. \<open>Bit_String\<close>: \<open>bitstring.go\<close>.
    \<open>Date_Time\<close>: \<open>datetime.go\<close>.
  \<^item> \<open>Property_Value\<close>: the decoders and the value encoder of \<open>client.go\<close> (\<open>readUnsignedTag\<close>, \<open>decodeError\<close>,
    \<open>decodePropertyValue\<close>, \<open>encodePropertyValue\<close>, \<open>decodeReadPropertyResponse\<close>, \<open>decodeReadPropertyMultipleResponse\<close>,
    \<open>skipToContextClosingTag\<close>). \<open>Services\<close>: the request parameters that the service methods build, and reference
    encoders of the acknowledgements.
  \<^item> \<open>Client_Metrics\<close>: \<open>metrics.go\<close>. \<open>Options\<close>: \<open>options.go\<close>. \<open>Transport\<close>: \<open>internal/transport/udp.go\<close>, over a record \<open>NetOps\<close> with
    the answers of package \<open>net\<close>.
  \<^item> \<open>Client\<close>: the state and every operation of \<open>client.go\<close> and \<open>device.go\<close>, one definition per method; where a method is long,
    its parts are definitions of their own (\<open>beginRequest\<close>, \<open>awaitResponse\<close>, \<open>responseResult\<close> and \<open>endRequest\<close> make
    \<open>sendRequest\<close>). A response channel is an entry of a store, since map, request and handler share it. What other goroutines do
    while a call waits (received packets, a \<open>Close\<close>) is \<open>meanwhile\<close>.
  \<^item> \<open>Client_Invariant\<close>: the invariant of the client and that every operation keeps it (contract \<open>client_call\<close>, interpreted for
    each service call). \<open>Client_Devices\<close>: device cache (contract \<open>device_cache\<close>), I-Am, discovery, invoke identifiers, object lists.
  \<^item> \<open>Client_Protocol\<close>: the goroutines as step relations that interleave freely: \<open>connect_step\<close>, \<open>receiver_step\<close>, \<open>handler_step\<close> (lookup
    and send are two steps), \<open>request_step\<close>, \<open>close_step\<close>, statement by statement, with any number of calls under way; the invariant of
    all interleavings (contract \<open>transition_system\<close>).
  \<^item> \<open>Client_Lifecycle\<close>: what holds in addition when calls of \<open>Connect\<close> and \<open>Close\<close> do not overlap each other (\<open>serial_step\<close>), by an
    invariant that follows the two calls, and what goes wrong when they do.
  \<^item> this theory: properties that span the components.

  \<^bold>\<open>What is shown.\<close>

  \<^item> Safety: no byte sequence from the network makes a decoder, a packet handler or a service call panic, and the receiver outlives
    all of them. For the interleaved goroutines this holds as long as calls of \<open>Connect\<close> and \<open>Close\<close> do not overlap each other, and only
    then (C1, C8, C4,
    C5, C6, C19, C21,
    C25).
  \<^item> Requests: a response is delivered by its identifier, the books are kept however a wait ends, and \<open>Close\<close> wakes every waiting
    request, in all interleavings; without overlapping calls \<open>Close\<close> comes to its end and the connection state says what it should
    (C2, C9, C10, C11,
    C12, C30).
  \<^item> Wire format: what is encoded is decoded, for tags, scalars, values, headers, requests and acknowledgements, with the exact
    exceptions (C7, C15, C16, C17,
    C18, C20, C23, C24,
    C26, C31, C33, C34, C35,
    C36, C39, C40).
  \<^item> Services from end to end: discovery and reading, object lists with their termination, the device cache (C3,
    C13, C14, C27, C28,
    C29).
  \<^item> Errors, metrics and reconnection (C22, C32, C37,
    C38).

  \<^bold>\<open>Modelling choices.\<close> A Go \<open>int\<close> is an unbounded \<open>int\<close>: on the 64-bit platforms the lengths and offsets that occur do not overflow
  (on a 32-bit platform a length of \<open>2 ^ 31\<close> or more would be negative, which is not modelled). Fixed-width integers are words.
  Floating-point values are their bit patterns; no arithmetic is done on them. Loops of the decoders are recursive functions with a
  termination proof (the offset grows); only the loop of \<open>GetObjectList\<close> takes fuel, because it may run forever, and C13 says when
  \<open>n + 1\<close> iterations suffice. The iteration order of a Go map is a parameter. An operation takes the surroundings of the call as a
  record \<open>Env\<close>: answers of the network, the clock, the packets that arrive while it waits, whether another goroutine closes the client
  meanwhile, and whether \<open>select\<close> takes the branch of the finished context. An \<open>Env\<close> reaches up to the return of the call, so the
  context of a request that gets no response is one that ends; the waiting itself is in the step relations, where a request
  goes on only when its \<open>select\<close> can. In the step relations the number and the registration of a request are one step, and so are the
  decoding of a packet and the lookup.

  \<^bold>\<open>Not modelled.\<close> Logging (\<open>slog\<close>) and \<open>LocalAddr\<close>, which only feeds a log message; memory exhaustion (the allocation that
  \<open>GetObjectList\<close> sizes by the announced length); data races of the Go memory model on the fields \<open>Connect\<close> and \<open>Close\<close> share (each
  access is a step); the example program and the tests; \<open>net\<close>, \<open>context\<close> and the clock, which are parameters.
\<close>

section \<open>Packets the client sends\<close>

lemma requestPacket_decodes:
  "\<exists>n. decodePacket (requestPacket iid svc data) =
         ret (Some (APDU_zero\<lparr>APDU_Type := PDUTypeConfirmedRequest, MaxSegments := 0, MaxAPDU := 5, InvokeID := iid,
                      Service := svc, APDU_Data := data\<rparr>, n)) \<and> Control n = NPDUControlExpectingReply"
  using decodePacket_build [OF _ DecodeAPDU_Confirmed [of 0 5 iid svc data], of BVLCOriginalUnicastNPDU NPDUControlPriorityNormal True]
  by (simp add: requestPacket_def plain_control_def)

text \<open>
  C17: A request packet is what it says: the packet \<open>sendRequest\<close> builds is decoded, by the same functions
  that read packets from the network, into a confirmed request with the invoke identifier, service
  and parameters it was built from, marked as expecting a reply; and the BVLC length field is the length of
  the packet, for every packet shorter than 64 KiB.
\<close>

theorem request_packet_well_formed:
  assumes "len (requestPacket iid svc data) < 65536"
  shows "(\<exists>a n. decodePacket (requestPacket iid svc data) = ret (Some (a, n)) \<and> APDU_Type a = PDUTypeConfirmedRequest \<and>
           InvokeID a = iid \<and> Service a = svc \<and> APDU_Data a = data \<and> Control n AND NPDUControlExpectingReply \<noteq> 0) \<and>
         (\<exists>h. DecodeBVLC (requestPacket iid svc data) = ret (Ok h) \<and> uint (BVLC_Length h) = len (requestPacket iid svc data))"
proof -
  let ?npdu = "EncodeNPDU True NPDUControlPriorityNormal" and ?apdu = "EncodeConfirmedRequest iid svc data 0 5"
  have l: "len (requestPacket iid svc data) = 4 + (len ?npdu + len ?apdu)" by (simp add: requestPacket_def buildPacket_def)
  have n: "0 \<le> len ?npdu + len ?apdu" by (simp add: len_def)
  have "DecodeBVLC (requestPacket iid svc data) = ret (Ok \<lparr>BVLC_Type = BVLCTypeBACnetIP, BVLC_Function = BVLCOriginalUnicastNPDU,
      BVLC_Length = word_of_int (len (requestPacket iid svc data))\<rparr>)"
    using DecodeBVLC_Encode [OF n, of BVLCOriginalUnicastNPDU "?npdu @ ?apdu"] assms l
    by (simp add: requestPacket_def buildPacket_def)
  moreover have "uint (word_of_int (len (requestPacket iid svc data)) :: uint16) = len (requestPacket iid svc data)"
    using assms len_nonneg [of "requestPacket iid svc data"] by (simp only: uint_word_of_int) (simp add: mod_pos_pos_trivial del: len_nonneg)
  ultimately show ?thesis using requestPacket_decodes [of iid svc data] by auto
qed

theorem request_packet_well_formed_witness:
  "\<exists>h. DecodeBVLC (requestPacket 7 12 [1, 2, 3]) = ret (Ok h) \<and> uint (BVLC_Length h) = 13"
proof -
  have l: "len (requestPacket 7 12 [1, 2, 3]) = 13"
    by (simp add: requestPacket_def buildPacket_def EncodeBVLC_def EncodeNPDU_def EncodeConfirmedRequest_def)
  then show ?thesis using request_packet_well_formed [of 7 12 "[1, 2, 3]"] by simp
qed

section \<open>Reading a property from end to end\<close>

definition waiting :: "(bytes \<times> UDPAddr) list \<Rightarrow> Env" where
  "waiting ps = \<lparr>net = good_net, deadline = None, now = 0, later = 5, arrivals = ps, closes = False, ctxFirst = False\<rparr>"

lemma waiting_simps [simp]:
  "net (waiting ps) = good_net" "deadline (waiting ps) = None" "now (waiting ps) = 0" "later (waiting ps) = 5"
  "arrivals (waiting ps) = ps" "ctxFirst (waiting ps) = False" "closes (waiting ps) = False"
  by (simp_all add: waiting_def)

lemma good_net_sends: "conn t = Some k \<Longrightarrow> transport_Send good_net d n a p t = None"
  by (simp add: transport_Send_None_iff good_net_def)

lemma connected_client:
  "\<exists>c. client_ok c \<and> state c = StateConnected \<and> conn (transport c) = Some 7 \<and> devices c = Map.empty"
proof -
  obtain e w c where c: "Connect (waiting []) (NewClient 0 []) = (e, w, c)" by (metis prod_cases3)
  have "client_ok c" using Connect_keeps [OF client_ok_NewClient c] by simp
  moreover have "state c = StateConnected" "conn (transport c) = Some 7" "devices c = Map.empty"
    using c by (auto simp: Connect_def NewClient_def Let_def transport_Open_def good_net_def NewUDPTransport_def
        SetReadTimeout_def SetWriteTimeout_def defaultOptions_def)
  ultimately show ?thesis by blast
qed

text \<open>
  C3: \<open>ReadProperty\<close> works from end to end, through discovery, and what it sends is what it should send. For a
  connected client that does not know the device, when the I-Am of the device and then the acknowledgement of the
  peer are what arrives: a Who-Is whose range is exactly the device is broadcast to the default port; if that fails, its error
  is returned. Otherwise the address is learnt from the I-Am and a confirmed ReadProperty request with the object,
  the property and the array index of the call, and the next invoke identifier, is sent to that host at the default
  port; if that fails, its error is returned. Otherwise the result is the value in the acknowledgement (integers in the canonical
  form of the wire), with no error. The invariant is kept in every case.
\<close>

theorem discover_and_read:
  assumes "client_ok c" and "state c = StateConnected" and "GetDevice (OID_Instance dev) c = None"
    and "oid_wire dev" and "OID_Type dev = ObjectTypeDevice" and "IP_To4 (IP addr) = Some hostIP"
    and "arrivals env1 = [(iAm_packet (iAm_parameters dev m s vid), addr)]" and "\<not> closes env1"
    and "arrivals env2 = [(ackPacket (fst (nextInvokeID c)) ServiceReadProperty (readPropertyAck oid pid i (value_bytes v)), peer)]"
    and "\<not> ctxFirst env2" and "\<not> closes env2" and "value_wire v"
    and "whoIs = buildPacket BVLCOriginalBroadcastNPDU (EncodeNPDU False NPDUControlPriorityNormal)
           (EncodeUnconfirmedRequest ServiceWhoIs (EncodeContextUnsigned 0 (OID_Instance dev) @ EncodeContextUnsigned 1 (OID_Instance dev)))"
    and "request = buildPacket BVLCOriginalUnicastNPDU (EncodeNPDU True NPDUControlPriorityNormal)
           (EncodeConfirmedRequest (fst (nextInvokeID c)) ServiceReadProperty
              (EncodeContextObjectIdentifier 0 oid @ EncodeContextEnumerated 1 pid @
               (case i of None \<Rightarrow> [] | Some k \<Rightarrow> EncodeContextUnsigned 2 k)) 0 5)"
  shows "\<exists>c'. ReadProperty env1 env2 (OID_Instance dev) oid pid (case i of None \<Rightarrow> [] | Some k \<Rightarrow> [WithArrayIndex k]) c = ret
           (case transport_Broadcast (net env1) (deadline env1) (now env1) DefaultPort whoIs (transport c) of
              Some e \<Rightarrow> (VNil, Some (wrap_error ''send unconfirmed request'' e))
            | None \<Rightarrow>
                (case transport_Send (net env2) (deadline env2) (now env2) \<lparr>IP = hostIP, Port = DefaultPort\<rparr> request (transport c) of
                   Some e \<Rightarrow> (VNil, Some (wrap_error ''send request'' e))
                 | None \<Rightarrow> (wire_value v, None)), c') \<and> client_ok c'"
proof -
  define ropts where "ropts = (case i of None \<Rightarrow> [] | Some k \<Rightarrow> [WithArrayIndex k])"
  obtain r c' where r: "ReadProperty env1 env2 (OID_Instance dev) oid pid ropts c = ret (r, c')" "client_ok c'"
    using readProperty.safe [OF assms(1)] by blast
  have whoIs: "whoIs = whoIs_packet (OID_Instance dev)" by (simp add: assms(13) whoIs_packet_def)
  have request: "request = requestPacket (fst (nextInvokeID c)) ServiceReadProperty
      (ReadProperty_request oid pid (ArrayIndex (apply_options ropts \<lparr>ArrayIndex = None\<rparr>)))"
    by (simp add: assms(14) requestPacket_def ReadProperty_request_def ropts_def WithArrayIndex_def optional_def split: option.split)
  show ?thesis
  proof (cases "transport_Broadcast (net env1) (deadline env1) (now env1) DefaultPort whoIs (transport c)")
    case (Some e)
    obtain c1 where "resolveDevice env1 (OID_Instance dev) c = ret (Err (wrap_error ''send unconfirmed request'' e), c1)"
      using resolveDevice_broadcast_fails [OF assms(2,3) Some [unfolded whoIs]] by blast
    then show ?thesis using r Some by (simp add: ropts_def [symmetric] ReadProperty_def withDevice_def Let_def)
  next
    case None
    obtain c1 where c1: "resolveDevice env1 (OID_Instance dev) c = ret (Ok \<lparr>IP = hostIP, Port = DefaultPort\<rparr>, c1)" "client_ok c1"
      "state c1 = StateConnected" "transport c1 = transport c" "invokeID c1 = invokeID c"
      using resolveDevice_discovers [OF assms(1-8) None [unfolded whoIs]] by blast
    have iid: "fst (nextInvokeID c) = next_iid c1" using c1(5) by (simp add: nextInvokeID_def next_iid_def Let_def)
    from ReadProperty_resolved [OF c1(1-3) assms(9) [unfolded iid] refl assms(10-12)] None show ?thesis
      unfolding ropts_def [symmetric] request iid c1(4) request_done_def by fastforce
  qed
qed

theorem discover_and_read_witness:
  "\<exists>c env1 env2 c'. devices c = Map.empty \<and>
     ReadProperty env1 env2 1234 \<lparr>OID_Type = 0, OID_Instance = 1\<rparr> 85 [] c = ret ((VFloat32 0x41C80000, None), c')"
proof -
  obtain c where c: "client_ok c" "state c = StateConnected" "conn (transport c) = Some 7" "devices c = Map.empty"
    using connected_client by blast
  let ?dev = "\<lparr>OID_Type = ObjectTypeDevice, OID_Instance = 1234\<rparr>" and ?oid = "\<lparr>OID_Type = 0, OID_Instance = 1\<rparr>"
  let ?addr = "\<lparr>IP = [10, 0, 0, 9], Port = 50000\<rparr>"
  let ?env1 = "waiting [(iAm_packet (iAm_parameters ?dev 1476 3 15), ?addr)]"
  let ?env2 = "waiting [(ackPacket (fst (nextInvokeID c)) ServiceReadProperty
      (readPropertyAck ?oid 85 None (value_bytes (VFloat32 0x41C80000))), ?addr)]"
  have d: "GetDevice (OID_Instance ?dev) c = None" "oid_wire ?dev" "OID_Type ?dev = ObjectTypeDevice" "IP_To4 (IP ?addr) = Some [10, 0, 0, 9]"
    "value_wire (VFloat32 0x41C80000)"
    by (simp_all add: GetDevice_def c oid_wire_def IP_To4_def)
  have e: "\<not> closes ?env1" "\<not> ctxFirst ?env2" "\<not> closes ?env2" by simp_all
  have a1: "arrivals ?env1 = [(iAm_packet (iAm_parameters ?dev 1476 3 15), ?addr)]" by simp
  have a2: "arrivals ?env2 = [(ackPacket (fst (nextInvokeID c)) ServiceReadProperty
      (readPropertyAck ?oid 85 None (value_bytes (VFloat32 0x41C80000))), ?addr)]" by simp
  from discover_and_read [OF c(1,2) d(1-4) a1 e(1) a2 e(2,3) d(5) refl refl] c(3,4) show ?thesis
    by (auto simp: transport_Broadcast_def good_net_sends simp del: split_paired_Ex)
qed

section \<open>The object list of a device\<close>

text \<open>
  C13: \<open>GetObjectList\<close> returns for every length a device can announce except one: when the device
  announces \<open>n\<close> objects, the loop ends within \<open>n + 1\<close> iterations unless \<open>n\<close> is \<open>0xFFFFFFFF\<close>; for
  that length the 32-bit counter wraps around before it exceeds the bound and the loop never ends,
  whatever the device and the network do.
\<close>

theorem GetObjectList_termination:
  assumes "client_ok c"
    and "ReadProperty (fst (envs 0)) (snd (envs 0)) dev (NewObjectIdentifier ObjectTypeDevice dev) PropertyObjectList
           [WithArrayIndex 0] c = ret ((VUint32 n, None), c')"
  shows "if n = 0xFFFFFFFF then (\<forall>fuel. GetObjectList fuel envs dev c = None)
         else GetObjectList (unat n + 1) envs dev c \<noteq> None"
proof -
  have ok: "client_ok c'"
    using readProperty.safe [OF assms(1), of "fst (envs 0)" "snd (envs 0)" dev "NewObjectIdentifier ObjectTypeDevice dev"
        PropertyObjectList "[WithArrayIndex 0]"] assms(2) by auto
  show ?thesis
  proof (cases "n = 0xFFFFFFFF")
    case True
    have "GetObjectList_loop fuel (\<lambda>i. ReadProperty (fst (envs i)) (snd (envs i)) dev (NewObjectIdentifier ObjectTypeDevice dev)
        PropertyObjectList [WithArrayIndex i]) 1 0xFFFFFFFF [] c' = None" for fuel
      by (rule GetObjectList_loop_endless [OF _ ok]) (rule readProperty.safe)
    then show ?thesis using GetObjectList_unfold [of envs, OF assms(2)] True by simp
  next
    case False
    have "unat n < 2 ^ LENGTH(32)" by (rule unsigned_less)
    moreover have "unat n \<noteq> 2 ^ 32 - 1"
    proof
      assume u: "unat n = 2 ^ 32 - 1"
      have "n = word_of_nat (unat n)" by simp
      also have "\<dots> = 0xFFFFFFFF" unfolding u by simp
      finally show False using False by simp
    qed
    ultimately have "unat n < 2 ^ 32 - 1" by simp
    then have "GetObjectList_loop (unat n + 1) read 1 n [] c' \<noteq> None" for read
      by (rule GetObjectList_loop_returns) simp_all
    then show ?thesis using GetObjectList_unfold [of envs, OF assms(2)] False by (simp del: GetObjectList_loop.simps not_None_eq)
  qed
qed

text \<open>An acknowledgement changes no entry of the device cache.\<close>

lemma receive_ack_devices: "devices (receivePacket tm (ackPacket iid svc payload) addr c) = devices c"
proof -
  obtain n where n: "decodePacket (ackPacket iid svc payload) = ret (Some (ackAPDU iid svc payload, n))"
    using decodePacket_ack by blast
  have "APDU_Type (ackAPDU iid svc payload) = PDUTypeComplexAck" by (simp add: ackAPDU_def)
  then show ?thesis
    by (auto simp: receivePacket_def Let_def handlePacket_def n dispatchAPDU_def handleResponse_def chan_send_def
        split: option.split)
qed

lemma sendRequest_ack_devices:
  assumes "sendRequest env addr svc data c = ret (r, c')" and "arrivals env = [(ackPacket iid svc' payload, peer)]" and "\<not> closes env"
  shows "devices c' = devices c"
proof -
  have rr: "devices d' = devices d" if "responseResult resp d = ret (x, d')" for resp d x d'
    using that by (auto simp: responseResult_def bind_eq_Some_conv split: if_splits)
  have aw: "devices d' = devices d" if "awaitResponse env ch d = ret (x, d')" for ch d x d'
    using that by (auto simp: awaitResponse_def Let_def bind_eq_Some_conv split: if_splits option.splits dest!: rr)
  have b: "devices d = devices c" if "beginRequest c = (i, ch, d)" for i ch d
    using that by (auto simp: beginRequest_def nextInvokeID_def Let_def)
  show ?thesis
    using assms b by (auto simp: sendRequest_def Let_def receiveAll_def meanwhile_open receive_ack_devices endRequest_def bind_eq_Some_conv
        split: if_splits prod.splits option.splits dest!: aw)
qed

text \<open>A device at a known address answers every read with one value.\<close>

lemma answered_read:
  assumes "client_ok d" and "state d = StateConnected" and "conn (transport d) = Some 7"
    and dev: "GetDevice 9 d = Some (NewRemoteDevice 9 [10, 0, 0, 9] DefaultPort)" and v: "value_wire v"
    and env: "env = waiting [(ackPacket (next_iid d) ServiceReadProperty (readPropertyAck oid pid i (value_bytes v)), peer)]"
  shows "\<exists>c'. ReadProperty (waiting []) env 9 oid' pid' os d = ret ((wire_value v, None), c') \<and> client_ok c' \<and>
           state c' = StateConnected \<and> conn (transport c') = Some 7 \<and> GetDevice 9 c' = GetDevice 9 d"
proof -
  have addr: "deviceUDPAddr (NewRemoteDevice 9 [10, 0, 0, 9] DefaultPort) = ret (Ok \<lparr>IP = [10, 0, 0, 9], Port = DefaultPort\<rparr>)"
    by (rule deviceUDPAddr_4) (simp_all add: NewRemoteDevice_def IP_To4_def DeviceInfo_lit_def)
  have sent: "transport_Send (net (waiting ps)) (deadline (waiting ps)) (now (waiting ps)) a p (transport d) = None" for ps a p
    by (simp add: good_net_sends [OF assms(3)])
  have arr: "arrivals env = [(ackPacket (next_iid d) ServiceReadProperty (readPropertyAck oid pid i (value_bytes v)), peer)]"
    by (simp add: env)
  have sent': "transport_Send (net env) (deadline env) (now env) a p (transport d) = None" for a p unfolding env by (rule sent)
  have ctx: "\<not> ctxFirst env" "\<not> closes env" by (simp_all add: env)
  obtain c' where c': "ReadProperty (waiting []) env 9 oid' pid' os d = ret ((wire_value v, None), c')" "request_done d c'"
    using ReadProperty_acked [OF assms(1,2) dev addr arr sent' ctx v] by blast
  have "resolveDevice (waiting []) 9 d = ret (Ok \<lparr>IP = [10, 0, 0, 9], Port = DefaultPort\<rparr>, d)"
    by (simp add: resolveDevice_known [OF dev] addr)
  moreover obtain q d2 where q: "sendRequest env \<lparr>IP = [10, 0, 0, 9], Port = DefaultPort\<rparr> ServiceReadProperty
      (ReadProperty_request oid' pid' (ArrayIndex (apply_options os \<lparr>ArrayIndex = None\<rparr>))) d = ret (q, d2)"
    using sendRequest_keeps [OF assms(1)] by blast
  ultimately have "c' = d2"
    using c'(1) by (cases q) (auto simp: ReadProperty_def withDevice_def Let_def bind_eq_Some_conv)
  then have "devices c' = devices d" using sendRequest_ack_devices [OF q arr ctx(2)] by simp
  with c' assms(2,3) show ?thesis by (auto simp: request_done_def GetDevice_def)
qed

lemma registered_client:
  "\<exists>d. client_ok d \<and> state d = StateConnected \<and> conn (transport d) = Some 7 \<and>
     GetDevice 9 d = Some (NewRemoteDevice 9 [10, 0, 0, 9] DefaultPort)"
proof -
  obtain c where "client_ok c" "state c = StateConnected" "conn (transport c) = Some 7" using connected_client by blast
  then show ?thesis
    by (intro exI [of _ "RegisterDevice (NewRemoteDevice 9 [10, 0, 0, 9] DefaultPort) c"])
       (simp add: deviceCache.get_put, simp add: RegisterDevice_def NewRemoteDevice_def DeviceInfo_lit_def Let_def)
qed

theorem GetObjectList_termination_witness:
  "\<exists>c envs. \<forall>fuel. GetObjectList fuel envs 9 c = None"
proof -
  obtain d where d: "client_ok d" "state d = StateConnected" "conn (transport d) = Some 7"
    "GetDevice 9 d = Some (NewRemoteDevice 9 [10, 0, 0, 9] DefaultPort)" using registered_client by blast
  define envs where "envs = (\<lambda>_ :: uint32. (waiting [], waiting [(ackPacket (next_iid d) ServiceReadProperty
      (readPropertyAck \<lparr>OID_Type = 8, OID_Instance = 9\<rparr> PropertyObjectList (Some 0) (value_bytes (VUint32 0xFFFFFFFF))), \<lparr>IP = [], Port = 0\<rparr>)]))"
  obtain c' where "ReadProperty (fst (envs 0)) (snd (envs 0)) 9 (NewObjectIdentifier ObjectTypeDevice 9) PropertyObjectList
      [WithArrayIndex 0] d = ret ((VUint32 0xFFFFFFFF, None), c')"
    using answered_read [OF d _ refl, of "VUint32 0xFFFFFFFF"] unfolding envs_def by fastforce
  from GetObjectList_termination [of _ envs, OF d(1) this] show ?thesis by auto
qed

text \<open>
  C14: \<open>GetObjectList\<close> returns the object identifiers in the order of the array, and leaves out the elements
  that could not be read or are not object identifiers: if the reads of the length and of the
  elements \<open>1\<close> to \<open>n\<close> return the results \<open>rs 1, ..., rs n\<close> one after the other, the result is the list
  of the identifiers among them and the final state is that of the last read.
\<close>

theorem GetObjectList_collects:
  assumes "ReadProperty (fst (envs 0)) (snd (envs 0)) dev (NewObjectIdentifier ObjectTypeDevice dev) PropertyObjectList
             [WithArrayIndex 0] c = ret ((VUint32 n, None), cs 0)"
    and "\<And>j. 1 \<le> j \<Longrightarrow> j \<le> unat n \<Longrightarrow>
           ReadProperty (fst (envs (word_of_nat j))) (snd (envs (word_of_nat j))) dev (NewObjectIdentifier ObjectTypeDevice dev)
             PropertyObjectList [WithArrayIndex (word_of_nat j)] (cs (j - 1)) = ret (rs j, cs j)"
    and "unat n < 2 ^ 32 - 1" and "unat n + 1 \<le> fuel"
  shows "GetObjectList fuel envs dev c = Some (ret (Ok (List.map_filter objectOf (map rs [1..<unat n + 1])), cs (unat n)))"
proof -
  let ?read = "\<lambda>i. ReadProperty (fst (envs i)) (snd (envs i)) dev (NewObjectIdentifier ObjectTypeDevice dev) PropertyObjectList [WithArrayIndex i]"
  have "GetObjectList_loop (unat n + 1) ?read (word_of_nat 1) n [] (cs (1 - 1)) =
      Some (ret ([] @ List.map_filter objectOf (map rs [1..<unat n + 1]), cs (unat n)))"
    by (rule GetObjectList_loop_collects [OF _ assms(3)]) (use assms(2) in simp_all)
  then have "GetObjectList_loop fuel ?read 1 n [] (cs 0) =
      Some (ret (List.map_filter objectOf (map rs [1..<unat n + 1]), cs (unat n)))"
    using GetObjectList_loop_more_fuel [OF _ assms(4)] by (simp del: GetObjectList_loop.simps)
  then show ?thesis by (simp add: GetObjectList_unfold [of envs, OF assms(1)])
qed

theorem GetObjectList_collects_witness:
  "\<exists>c envs c'. GetObjectList 5 envs 9 c = Some (ret (Ok [\<lparr>OID_Type = 8, OID_Instance = 9\<rparr>], c'))"
proof -
  obtain d where d: "client_ok d" "state d = StateConnected" "conn (transport d) = Some 7"
    "GetDevice 9 d = Some (NewRemoteDevice 9 [10, 0, 0, 9] DefaultPort)" using registered_client by blast
  let ?oid = "\<lparr>OID_Type = 8, OID_Instance = 9\<rparr>" and ?peer = "\<lparr>IP = [], Port = 0\<rparr>"
  define answer where "answer = (\<lambda>c v. waiting [(ackPacket (next_iid c) ServiceReadProperty
      (readPropertyAck ?oid PropertyObjectList (Some 0) (value_bytes v)), ?peer)])"
  obtain c0 where r0: "ReadProperty (waiting []) (answer d (VUint32 1)) 9 (NewObjectIdentifier ObjectTypeDevice 9) PropertyObjectList
      [WithArrayIndex 0] d = ret ((VUint32 1, None), c0)"
    and c0: "client_ok c0" "state c0 = StateConnected" "conn (transport c0) = Some 7"
      "GetDevice 9 c0 = Some (NewRemoteDevice 9 [10, 0, 0, 9] DefaultPort)"
    using answered_read [OF d _ refl, of "VUint32 1"] d(4) unfolding answer_def by fastforce
  obtain c1 where r1: "ReadProperty (waiting []) (answer c0 (VObjectID ?oid)) 9 (NewObjectIdentifier ObjectTypeDevice 9) PropertyObjectList
      [WithArrayIndex 1] c0 = ret ((VObjectID ?oid, None), c1)"
    using answered_read [OF c0 _ refl, of "VObjectID ?oid"] unfolding answer_def by (fastforce simp: oid_wire_def)
  define envs where "envs = (\<lambda>i :: uint32. (waiting [], if i = 0 then answer d (VUint32 1) else answer c0 (VObjectID ?oid)))"
  have "GetObjectList 5 envs 9 d = Some (ret (Ok (List.map_filter objectOf (map (\<lambda>_. (VObjectID ?oid, None)) [1..<unat (1 :: uint32) + 1])),
      (\<lambda>j :: nat. if j = 0 then c0 else c1) (unat (1 :: uint32))))"
    by (rule GetObjectList_collects) (use r0 r1 in \<open>simp_all add: envs_def le_Suc_eq\<close>)
  then show ?thesis by (auto simp: map_filter_simps)
qed

section \<open>Reconnecting\<close>

text \<open>
  C22: A client cannot be used again after \<open>Close\<close>: a second \<open>Connect\<close> returns no error and leaves the client
  connected, but on the closed socket of the first connection, so that every request fails to be sent
  and the receiver goroutine returns at once. A closed connection fails every operation, as the package
  \<open>net\<close> documents.
\<close>

theorem reconnected_client_is_dead:
  assumes "state c = StateDisconnected" and "conn (transport c) = None"
    and "Connect env1 c = (None, w1, c1)" and "Close env2 c1 = (e2, c2)" and "Connect env3 c2 = (e3, w3, c3)"
    and "conn (transport c1) = Some k" and "closed_conn_fails (net env4) k"
  shows "e3 = None \<and> state c3 = StateConnected \<and> receiver ((False, net env4, tm) # rest) c3 = (True, c3) \<and>
         (\<exists>err c4. sendRequest env4 addr svc data c3 = ret (Err err, c4))"
proof -
  obtain t1 where t1: "transport_Open (net env1) (transport c) = (None, t1)" "transport c1 = t1" "state c1 = StateConnected"
    using assms(1,3) by (auto simp: Connect_def Let_def split: prod.splits option.splits)
  have "\<not> closed t1" using transport_Open_result [OF t1(1)] assms(2) by auto
  then have t2: "conn (transport c2) = Some k" "closed (transport c2)" "state c2 = StateDisconnected"
    using assms(4,6) t1(2,3) by (auto simp: Close_def Let_def closePending_def transport_Close_def)
  then have c3: "e3 = None" "state c3 = StateConnected" "transport c3 = transport c2"
    using assms(5) by (auto simp: Connect_def Let_def transport_Open_def)
  have send: "transport_Send (net env4) d n a p (transport c3) \<noteq> None" for d n a p
    using assms(7) t2(1) c3(3) by (auto simp: transport_Send_None_iff closed_conn_fails_def)
  obtain e where "net_SetDeadline (net env4) k (tm + 100 * Millisecond) = Some e"
    using assms(7) by (auto simp: closed_conn_fails_def)
  then have "transport_ReceiveWithTimeout (net env4) (100 * Millisecond) tm (transport c3) = Err (wrap_error ''set read deadline'' e)"
    using t2(1) c3(3) by (simp add: transport_ReceiveWithTimeout_def transport_Receive_def)
  then have "receiver ((False, net env4, tm) # rest) c3 = (True, c3)"
    using t2(2) c3(3) by (simp add: transport_IsClosed_def wrap_error_def)
  moreover have "\<exists>err c4. sendRequest env4 addr svc data c3 = ret (Err err, c4)"
  proof -
    obtain iid ch d where b: "beginRequest c3 = (iid, ch, d)" by (cases "beginRequest c3") auto
    then have "transport d = transport c3" by (auto simp: beginRequest_def nextInvokeID_def Let_def)
    then obtain e where "transport_Send (net env4) (deadline env4) (now env4) addr (requestPacket iid svc data) (transport d) = Some e"
      using send by (metis not_None_eq)
    then show ?thesis using c3(2) by (simp add: sendRequest_def b Let_def)
  qed
  ultimately show ?thesis using c3 by simp
qed

theorem reconnected_client_is_dead_witness:
  "\<exists>c3 err c4. state c3 = StateConnected \<and>
     snd (snd (Connect (waiting []) (snd (Close (waiting []) (snd (snd (Connect (waiting []) (NewClient 0 [])))))))) = c3 \<and>
     sendRequest ((waiting [])\<lparr>net := good_net\<lparr>net_SetDeadline := (\<lambda>_ _. Some (Plain ''use of closed network connection''))\<rparr>\<rparr>)
       \<lparr>IP = [10, 0, 0, 2], Port = 47808\<rparr> 12 [] c3 = ret (Err err, c4)"
proof -
  let ?env4 = "(waiting [])\<lparr>net := good_net\<lparr>net_SetDeadline := (\<lambda>_ _. Some (Plain ''use of closed network connection''))\<rparr>\<rparr>"
  obtain e1 w1 c1 where c1: "Connect (waiting []) (NewClient 0 []) = (e1, w1, c1)" by (metis prod_cases3)
  obtain e2 c2 where c2: "Close (waiting []) c1 = (e2, c2)" by (cases "Close (waiting []) c1")
  obtain e3 w3 c3 where c3: "Connect (waiting []) c2 = (e3, w3, c3)" by (metis prod_cases3)
  have e1: "e1 = None" "conn (transport c1) = Some 7"
    using c1 by (auto simp: Connect_def NewClient_def Let_def transport_Open_def good_net_def NewUDPTransport_def
        SetReadTimeout_def SetWriteTimeout_def defaultOptions_def)
  have n: "state (NewClient 0 []) = StateDisconnected" "conn (transport (NewClient 0 [])) = None"
    by (simp_all add: NewClient_def Let_def NewUDPTransport_def SetReadTimeout_def SetWriteTimeout_def)
  have f: "closed_conn_fails (net ?env4) 7" by (simp add: closed_conn_fails_def)
  from reconnected_client_is_dead [OF n c1 [unfolded e1(1)] c2 c3 e1(2) f] show ?thesis by (simp add: c1 c2 c3 del: receiver.simps)
qed

section \<open>Values that are written\<close>

text \<open>
  C39: What \<open>WriteProperty\<close> does with values it cannot represent, for a device that is in the cache with a usable
  address (so that no discovery is needed): bit strings, octet strings, dates, times and values of unknown types are refused
  with an error that names the type and the client is left as it is, its count of requests sent included; and a non-negative \<open>int\<close> is cut to its low 32
  bits without an error: for every \<open>n\<close> that is not negative, writing \<open>n + 2^32\<close> does exactly what writing \<open>n\<close> does.
\<close>

theorem unsupported_and_truncated_values:
  assumes "GetDevice d c = Some dev" and "deviceUDPAddr dev = ret (Ok addr)" and "0 \<le> n"
    and "v \<in> {VBytes bs, VBitString b, VDate dt, VTime t, VOther ty}"
  shows "WriteProperty env1 env2 d oid pid v wopts c =
           ret (Some (wrap_error ''encode value'' (Plain (''unsupported value type: '' @ type_name v))), c) \<and>
         WriteProperty env1 env2 d oid pid (VInt (n + 2 ^ 32)) wopts c = WriteProperty env1 env2 d oid pid (VInt n) wopts c"
proof
  have r: "resolveDevice env1 d c = ret (Ok addr, c)" by (simp add: resolveDevice_known [OF assms(1)] assms(2))
  show "WriteProperty env1 env2 d oid pid v wopts c =
      ret (Some (wrap_error ''encode value'' (Plain (''unsupported value type: '' @ type_name v))), c)"
    using assms(4) by (auto simp: WriteProperty_def withDevice_def r WriteProperty_request_def Let_def wrap_error_def)
  have "word_of_int (n + 2 ^ 32) = (word_of_int n :: uint32)" by (simp only: word_of_int_eq_iff) (simp add: take_bit_eq_mod)
  then have "encodePropertyValue (VInt (n + 2 ^ 32)) = encodePropertyValue (VInt n)" using assms(3) by (simp del: of_int_add)
  then show "WriteProperty env1 env2 d oid pid (VInt (n + 2 ^ 32)) wopts c = WriteProperty env1 env2 d oid pid (VInt n) wopts c"
    by (simp add: WriteProperty_def WriteProperty_request_def del: encodePropertyValue.simps)
qed

theorem unsupported_and_truncated_values_witness:
  "\<exists>c. WriteProperty (waiting []) (waiting []) 9 \<lparr>OID_Type = 2, OID_Instance = 1\<rparr> 85 (VInt (5 + 2 ^ 32)) [] c =
         WriteProperty (waiting []) (waiting []) 9 \<lparr>OID_Type = 2, OID_Instance = 1\<rparr> 85 (VInt 5) [] c \<and>
       GetDevice 9 c \<noteq> None"
proof -
  obtain d where d: "GetDevice 9 d = Some (NewRemoteDevice 9 [10, 0, 0, 9] DefaultPort)" using registered_client by blast
  have "deviceUDPAddr (NewRemoteDevice 9 [10, 0, 0, 9] DefaultPort) = ret (Ok \<lparr>IP = [10, 0, 0, 9], Port = DefaultPort\<rparr>)"
    by (rule deviceUDPAddr_4) (simp_all add: NewRemoteDevice_def IP_To4_def DeviceInfo_lit_def)
  from unsupported_and_truncated_values [OF d this, of 5 "VBytes []" "[]"] d show ?thesis by fastforce
qed

section \<open>Foreign device registration\<close>

text \<open>
  The registration with a BBMD that \<open>Connect\<close> sends is a well-formed BVLC message: the six octets
  \<open>81 05 00 06\<close> and the time to live in seconds, in big-endian order, for every time to live from 0 up to
  65535 seconds; it is sent to the configured address, and a failure to resolve it or to send is reported.
\<close>

theorem foreign_device_registration:
  assumes "net_ResolveUDPAddr (net env) (bbmdAddress (opts c) @ '':'' @ fmt_i (bbmdPort (opts c))) = Ok addr"
    and "foreignDeviceTTL (opts c) = ttl * SecondNs" and "0 \<le> ttl" and "ttl < 65536"
  shows "\<exists>packet. registerForeignDevice env c =
           map_option (wrap_error ''send registration'')
             (transport_Send (net env) (deadline env) (now env) addr packet (transport c)) \<and>
         len packet = 6 \<and> DecodeBVLC packet = ret (Ok \<lparr>BVLC_Type = BVLCTypeBACnetIP, BVLC_Function = BVLCRegisterForeignDevice, BVLC_Length = 6\<rparr>) \<and>
         (\<exists>w. BigEndian_Uint16 (drop 4 packet) = ret w \<and> uint w = ttl)"
proof -
  define packet where "packet = [BVLCTypeBACnetIP, BVLCRegisterForeignDevice] @ PutUint16 6 @ PutUint16 (word_of_int ttl)"
  have "registerForeignDevice env c = map_option (wrap_error ''send registration'')
      (transport_Send (net env) (deadline env) (now env) addr packet (transport c))"
    using assms(1,2) by (simp add: registerForeignDevice_def Let_def packet_def split: option.split)
  moreover have "len packet = 6" by (simp add: packet_def PutUint16_def)
  moreover have "DecodeBVLC packet = ret (Ok \<lparr>BVLC_Type = BVLCTypeBACnetIP, BVLC_Function = BVLCRegisterForeignDevice, BVLC_Length = 6\<rparr>)"
    using DecodeBVLC_Encode [of 2 BVLCRegisterForeignDevice "PutUint16 (word_of_int ttl)"] by (simp add: packet_def EncodeBVLC_def)
  moreover have "BigEndian_Uint16 (drop 4 packet) = ret (word_of_int ttl)"
    using BigEndian_Put(1) [of "word_of_int ttl" "[]"] by (simp add: packet_def PutUint16_def)
  moreover have "uint (word_of_int ttl :: uint16) = ttl" using assms(3,4) by (simp add: uint_word_of_int)
  ultimately show ?thesis by blast
qed

theorem foreign_device_registration_witness:
  "\<exists>packet. registerForeignDevice (waiting []) (NewClient 0 [WithBBMD ''10.0.0.1'' 47808 (60 * SecondNs)]) =
       map_option (wrap_error ''send registration'')
         (transport_Send good_net None 0 \<lparr>IP = [0, 0, 0, 0], Port = 0\<rparr> packet
           (transport (NewClient 0 [WithBBMD ''10.0.0.1'' 47808 (60 * SecondNs)]))) \<and> len packet = 6"
  using foreign_device_registration [of "waiting []" "NewClient 0 [WithBBMD ''10.0.0.1'' 47808 (60 * SecondNs)]"
      "\<lparr>IP = [0, 0, 0, 0], Port = 0\<rparr>" 60]
  by (auto simp: good_net_def NewClient_def Let_def apply_options_def WithBBMD_def defaultOptions_def)

end
